(* ===== verification/Prelude.thy ===== *)
theory Prelude
  imports Main "HOL-Library.Word" "HOL-Library.Multiset" "HOL-Library.AList"
begin

text \<open>
  Shared vocabulary of the development: the Go language and run-time notions the components of
  the PBX have in common, and the generic lemmas their proofs rest on.

  \<^item> Errors. A Go \<open>error\<close> is a value of \<open>go_error\<close>: a sentinel made by \<open>errors.New\<close>, an opaque
    \<open>fmt.Errorf\<close> text, an error wrapped with \<open>%w\<close>, or an \<open>errors.Join\<close>. A function that returns
    \<open>(T, error)\<close> returns \<open>go_error + T\<close>; one that returns \<open>error\<close> returns \<open>go_error option\<close>, where
    \<open>None\<close> is \<open>nil\<close>. A \<open>fmt.Errorf\<close> error is identified by its format string: the operands of its
    verbs only appear in the message text, which no code of the PBX inspects.
  \<^item> Time. A \<open>time.Time\<close> is the number of nanoseconds since the zero \<open>Time\<close>, so \<open>IsZero\<close> is \<open>= 0\<close>;
    a \<open>time.Duration\<close> is a number of nanoseconds. A clock is the sequence of its readings.
  \<^item> Contexts. What a \<open>context.Context\<close> contributes to an operation is the error it reports once it
    is done, and the pick the run time makes in a \<open>select\<close> in which both arms are ready.
  \<^item> Network addresses of \<open>net/netip\<close>.
\<close>

named_theorems go_simps \<open>evaluation of the Go run-time vocabulary\<close>

subsection \<open>Errors\<close>

datatype go_error =
    Sentinel string
  | Errorf string
  | Wrapf string go_error
  | Joined "go_error list"

type_synonym 'a result = "go_error + 'a"

fun errors_Is :: "go_error \<Rightarrow> go_error \<Rightarrow> bool" where
  "errors_Is (Wrapf s e) t = (Wrapf s e = t \<or> errors_Is e t)"
| "errors_Is (Joined es) t = (Joined es = t \<or> list_ex (\<lambda>e. errors_Is e t) es)"
| "errors_Is e t = (e = t)"

definition error_is :: "go_error option \<Rightarrow> go_error \<Rightarrow> bool" where
  "error_is e t = (case e of None \<Rightarrow> False | Some x \<Rightarrow> errors_Is x t)"

definition errors_Join :: "go_error option list \<Rightarrow> go_error option" where
  "errors_Join es = (case List.map_filter id es of [] \<Rightarrow> None | xs \<Rightarrow> Some (Joined xs))"

definition context_Canceled :: go_error where
  "context_Canceled = Sentinel ''context canceled''"

definition context_DeadlineExceeded :: go_error where
  "context_DeadlineExceeded = Sentinel ''context deadline exceeded''"

definition net_ErrClosed :: go_error where
  "net_ErrClosed = Sentinel ''use of closed network connection''"

lemma error_is_simps [simp]:
  "error_is None t = False"
  "error_is (Some e) t = errors_Is e t"
  by (simp_all add: error_is_def)

lemma errors_Join_None [simp]: "errors_Join [None, None] = None"
  by (simp add: errors_Join_def map_filter_simps)

lemma errors_Is_refl [simp]: "errors_Is e e"
  by (cases e) auto

subsection \<open>Contexts and clocks\<close>

record ctx =
  ctx_Err :: "go_error option"
  ctx_pick :: bool

definition context_Background :: ctx where
  "context_Background = \<lparr>ctx_Err = None, ctx_pick = True\<rparr>"

type_synonym time = int
type_synonym duration = int

definition Microsecond :: duration where "Microsecond = 1000"
definition Second :: duration where "Second = 1000000000"
definition Minute :: duration where "Minute = 60 * Second"

text \<open>The Unix epoch, in nanoseconds since the zero \<open>Time\<close> (January 1 of year 1, UTC).\<close>

definition unix_epoch :: time where "unix_epoch = 62135596800 * 1000000000"

lemma Second_pos [simp]: "0 < Second" "Second \<noteq> 0"
  by (simp_all add: Second_def)



subsection \<open>Signed 64-bit integers\<close>

text \<open>
  Where a Go \<open>int64\<close> computation may leave its range the wrap-around is written out with
  \<open>int64\<close>; division truncates towards zero.
\<close>

definition int64 :: "int \<Rightarrow> int" where
  "int64 x = (x + 2 ^ 63) mod 2 ^ 64 - 2 ^ 63"

definition go_div :: "int \<Rightarrow> int \<Rightarrow> int" where
  "go_div a b = sgn a * sgn b * (\<bar>a\<bar> div \<bar>b\<bar>)"

lemma int64_id: "- (2 ^ 63) \<le> x \<Longrightarrow> x < 2 ^ 63 \<Longrightarrow> int64 x = x"
  by (simp add: int64_def)

lemma go_div_nonneg: "0 \<le> a \<Longrightarrow> 0 < b \<Longrightarrow> go_div a b = a div b"
  by (cases "a = 0") (auto simp: go_div_def)

subsection \<open>Association lists\<close>

lemma set_update_subset: "set (AList.update k v xs) \<subseteq> insert (k, v) (set xs)"
  by (induction xs) auto

lemma length_update_old: "k \<in> fst ` set xs \<Longrightarrow> length (AList.update k v xs) = length xs"
  by (induction xs) auto

lemma length_update_le: "length (AList.update k v xs) \<le> Suc (length xs)"
  by (induction xs) simp_all

subsection \<open>Network addresses\<close>

datatype netip_addr =
    AddrZero
  | Addr4 "32 word"
  | Addr6 "128 word" string

record addr_port =
  ap_Addr :: netip_addr
  ap_Port :: "16 word"

fun addr_IsValid :: "netip_addr \<Rightarrow> bool" where
  "addr_IsValid AddrZero = False"
| "addr_IsValid _ = True"

fun addr_IsUnspecified :: "netip_addr \<Rightarrow> bool" where
  "addr_IsUnspecified AddrZero = False"
| "addr_IsUnspecified (Addr4 w) = (w = 0)"
| "addr_IsUnspecified (Addr6 w z) = (w = 0 \<and> z = [])"

fun addr_Is6 :: "netip_addr \<Rightarrow> bool" where
  "addr_Is6 (Addr6 _ _) = True"
| "addr_Is6 _ = False"

definition ap_IsValid :: "addr_port \<Rightarrow> bool" where
  "ap_IsValid p = addr_IsValid (ap_Addr p)"

definition AddrPortFrom :: "netip_addr \<Rightarrow> 16 word \<Rightarrow> addr_port" where
  "AddrPortFrom a p = \<lparr>ap_Addr = a, ap_Port = p\<rparr>"

definition AddrPortZero :: addr_port where
  "AddrPortZero = \<lparr>ap_Addr = AddrZero, ap_Port = 0\<rparr>"

lemma AddrPortFrom_sel [simp]:
  "ap_Addr (AddrPortFrom a p) = a"
  "ap_Port (AddrPortFrom a p) = p"
  by (simp_all add: AddrPortFrom_def)

lemma AddrPortFrom_inject [simp]: "AddrPortFrom a p = AddrPortFrom b q \<longleftrightarrow> a = b \<and> p = q"
  by (auto simp: AddrPortFrom_def)

lemma AddrPortFrom_collapse [simp]: "AddrPortFrom (ap_Addr x) (ap_Port x) = x"
  by (simp add: AddrPortFrom_def)

end
