(* ===== verification/Dtmf.thy ===== *)
theory Dtmf
  imports Prelude
begin

text \<open>
  The RFC 4733 telephone-event payload of \<open>internal/media/dtmf/event.go\<close>: \<open>Decode\<close> and
  \<open>Encode\<close> over bytes (\<open>8 word\<close>), with the big-endian duration.
\<close>

unbundle bit_operations_syntax

record dtmf_event =
  dtmf_Code :: "8 word"
  dtmf_End :: bool
  dtmf_Volume :: "8 word"
  dtmf_Duration :: "16 word"

definition payloadSize :: nat where "payloadSize = 4"

definition be_uint16 :: "8 word \<Rightarrow> 8 word \<Rightarrow> 16 word" where
  "be_uint16 hi lo = push_bit 8 (ucast hi) OR ucast lo"

definition put_uint16 :: "16 word \<Rightarrow> 8 word list" where
  "put_uint16 v = [ucast (drop_bit 8 v), ucast v]"

definition Decode :: "8 word list \<Rightarrow> dtmf_event result" where
  "Decode payload =
     (if length payload < payloadSize
      then Inl (Errorf ''telephone-event payload requires at least %d bytes'')
      else
        let event = \<lparr>dtmf_Code = payload ! 0,
                     dtmf_End = (payload ! 1 AND 0x80 \<noteq> 0),
                     dtmf_Volume = payload ! 1 AND 0x3f,
                     dtmf_Duration = be_uint16 (payload ! 2) (payload ! 3)\<rparr>
        in if dtmf_Code event > 16 then Inl (Errorf ''unsupported telephone-event code %d'')
           else Inr event)"

definition Encode :: "dtmf_event \<Rightarrow> 8 word list result" where
  "Encode event =
     (if dtmf_Code event > 16 \<or> dtmf_Volume event > 63
      then Inl (Errorf ''telephone-event code or volume is invalid'')
      else
        let second = (if dtmf_End event then dtmf_Volume event OR 0x80 else dtmf_Volume event)
        in Inr ([dtmf_Code event, second] @ put_uint16 (dtmf_Duration event)))"


text \<open>A payload as \<open>Encode\<close> writes it: four bytes with the reserved bit of byte 1 clear.\<close>

definition canonical_payload :: "8 word list \<Rightarrow> 8 word list" where
  "canonical_payload payload =
     [payload ! 0, payload ! 1 AND 0xbf, payload ! 2, payload ! 3]"

subsection \<open>Bytes\<close>

lemma byte_eqI:
  assumes "\<And>n. n \<in> {0, 1, 2, 3, 4, 5, 6, 7} \<Longrightarrow> bit a n = bit b n"
  shows "(a :: 8 word) = b"
proof (rule bit_word_eqI)
  fix n :: nat
  assume "n < LENGTH(8)"
  then have "n \<in> {0, 1, 2, 3, 4, 5, 6, 7}" by auto
  then show "bit a n = bit b n" by (rule assms)
qed

lemma be_uint16_put_uint16:
  "be_uint16 (ucast (drop_bit 8 v)) (ucast v) = v"
  unfolding be_uint16_def
  by (rule bit_word_eqI) (auto simp: bit_simps)

lemma put_uint16_be_uint16:
  "put_uint16 (be_uint16 hi lo) = [hi, lo]"
  unfolding be_uint16_def put_uint16_def
  by (auto intro!: bit_word_eqI simp: bit_simps) (auto dest: bit_imp_le_length)

lemma end_bit: "(b AND 0x80 \<noteq> (0 :: 8 word)) = bit b 7"
proof
  assume "b AND 0x80 \<noteq> 0"
  then show "bit b 7"
    by (rule contrapos_np) (rule byte_eqI, auto simp: bit_simps)
next
  assume "bit b 7"
  then have "bit (b AND 0x80) 7" by (simp add: bit_simps)
  then show "b AND 0x80 \<noteq> 0" by auto
qed

lemma volume_high_bits:
  assumes "(v :: 8 word) \<le> 63" and "6 \<le> n"
  shows "\<not> bit v n"
proof -
  from assms(1) have "unat v < 64" by (simp add: word_le_nat_alt)
  then have "unat (take_bit 6 v) = unat v" by (simp add: unsigned_take_bit_eq take_bit_nat_eq_self)
  then have "take_bit 6 v = v" by (rule unsigned_word_eqI)
  with assms(2) show ?thesis by (metis bit_take_bit_iff leD)
qed

lemma volume_round_trip:
  assumes "(v :: 8 word) \<le> 63"
  shows "v AND 0x3f = v" and "(v OR 0x80) AND 0x3f = v"
  using volume_high_bits [OF assms]
  by (auto intro!: byte_eqI simp: bit_simps)

lemma second_byte_canonical:
  "(if bit b 7 then (b AND 0x3f) OR 0x80 else b AND 0x3f) = (b AND 0xbf :: 8 word)"
  by (rule byte_eqI) (auto simp: bit_simps)

subsection \<open>Round trips\<close>

text \<open>A telephone event with a code up to 16 and a volume up to 63 is encoded in four bytes, and
  decoding those bytes, whatever follows them in the packet, gives the event back.\<close>

theorem dtmf_encode_decode:
  assumes "dtmf_Code e \<le> 16" and "dtmf_Volume e \<le> 63"
  shows "\<exists>p. Encode e = Inr p \<and> length p = payloadSize \<and> Decode (p @ rest) = Inr e"
proof -
  have "bit (dtmf_Volume e) 7 = False"
    using volume_high_bits [OF assms(2), of 7] by simp
  then show ?thesis using assms
    by (auto simp: Encode_def Decode_def payloadSize_def put_uint16_def Let_def end_bit bit_simps
        be_uint16_put_uint16 volume_round_trip linorder_not_less)
qed

theorem dtmf_encode_decode_witness:
  "\<exists>p. Encode \<lparr>dtmf_Code = 11, dtmf_End = True, dtmf_Volume = 10, dtmf_Duration = 800\<rparr> = Inr p
     \<and> length p = payloadSize
     \<and> Decode (p @ [7]) = Inr \<lparr>dtmf_Code = 11, dtmf_End = True, dtmf_Volume = 10, dtmf_Duration = 800\<rparr>"
  by (rule dtmf_encode_decode) simp_all

text \<open>A payload that decodes re-encodes to its own first four bytes, except that the reserved
  bit of the second byte is cleared.\<close>

theorem dtmf_decode_encode:
  assumes "Decode payload = Inr e"
  shows "Encode e = Inr (canonical_payload payload)"
proof -
  have "payload ! 1 AND 0x3f \<le> (63 :: 8 word)" by (rule word_and_le1)
  with assms show ?thesis
    by (auto simp: Encode_def Decode_def Let_def end_bit canonical_payload_def put_uint16_be_uint16
        linorder_not_less second_byte_canonical [symmetric] split: if_splits)
qed

theorem dtmf_decode_encode_witness:
  "Encode \<lparr>dtmf_Code = 5, dtmf_End = True, dtmf_Volume = 10, dtmf_Duration = 800\<rparr>
     = Inr (canonical_payload [5, 0xca, 3, 0x20, 99])"
  by (rule dtmf_decode_encode)
    (simp add: Decode_def payloadSize_def be_uint16_def Let_def)

end
