(* ===== verification/Go_Strings.thy ===== *)
theory Go_Strings
  imports Prelude
begin

text \<open>
  The functions of Go's \<open>strings\<close> and \<open>strconv\<close> packages the PBX calls, over byte strings:
  \<open>ToUpper\<close>, \<open>ToLower\<close>, \<open>Fields\<close>, \<open>Split\<close>, \<open>Join\<close>, \<open>ParseUint\<close>, \<open>ParseInt\<close> in base 10 and \<open>Itoa\<close>.
  Case mapping and white space are those of ASCII: the PBX compares the results with the ASCII
  constants \<open>udp\<close>, \<open>tcp\<close>, \<open>MD5\<close>, \<open>PCMU\<close>, \<open>PCMA\<close>, \<open>TELEPHONE-EVENT\<close> and hexadecimal digits, and no
  other code point maps onto one of their letters.
\<close>

subsection \<open>Characters and case\<close>

definition char_to_upper :: "char \<Rightarrow> char" where
  "char_to_upper c =
     (let n = of_char c :: nat in if 97 \<le> n \<and> n \<le> 122 then char_of (n - 32) else c)"

definition char_to_lower :: "char \<Rightarrow> char" where
  "char_to_lower c =
     (let n = of_char c :: nat in if 65 \<le> n \<and> n \<le> 90 then char_of (n + 32) else c)"

definition strings_ToUpper :: "string \<Rightarrow> string" where
  "strings_ToUpper = map char_to_upper"

definition strings_ToLower :: "string \<Rightarrow> string" where
  "strings_ToLower = map char_to_lower"

definition strings_EqualFold :: "string \<Rightarrow> string \<Rightarrow> bool" where
  "strings_EqualFold s t = (strings_ToLower s = strings_ToLower t)"

subsection \<open>Splitting and joining\<close>

definition is_space :: "char \<Rightarrow> bool" where
  "is_space c = (let n = of_char c :: nat in n = 32 \<or> (9 \<le> n \<and> n \<le> 13))"

function strings_Fields :: "string \<Rightarrow> string list" where
  "strings_Fields s =
     (let t = dropWhile is_space s
      in if t = [] then []
         else takeWhile (\<lambda>c. \<not> is_space c) t # strings_Fields (dropWhile (\<lambda>c. \<not> is_space c) t))"
  by pat_completeness auto
termination
proof (relation "measure length")
  fix s t :: string
  assume t: "t = dropWhile is_space s" and "t \<noteq> []"
  then have "\<not> is_space (hd t)" by (metis hd_dropWhile)
  with \<open>t \<noteq> []\<close> have "length (dropWhile (\<lambda>c. \<not> is_space c) t) < length t"
    by (cases t) (auto simp: le_imp_less_Suc length_dropWhile_le)
  moreover have "length t \<le> length s" by (simp add: t length_dropWhile_le)
  ultimately show "(dropWhile (\<lambda>c. \<not> is_space c) t, s) \<in> measure length" by simp
qed simp

declare strings_Fields.simps [simp del]

fun strings_Split :: "char \<Rightarrow> string \<Rightarrow> string list" where
  "strings_Split sep [] = [[]]"
| "strings_Split sep (c # cs) =
     (if c = sep then [] # strings_Split sep cs
      else (case strings_Split sep cs of
              [] \<Rightarrow> [[c]]
            | w # ws \<Rightarrow> (c # w) # ws))"

fun strings_Join :: "string list \<Rightarrow> string \<Rightarrow> string" where
  "strings_Join [] sep = []"
| "strings_Join [w] sep = w"
| "strings_Join (w # ws) sep = w @ sep @ strings_Join ws sep"

subsection \<open>Decimal numbers\<close>

definition digit_value :: "char \<Rightarrow> nat option" where
  "digit_value c = (let n = of_char c :: nat in if 48 \<le> n \<and> n \<le> 57 then Some (n - 48) else None)"

definition digit_char :: "nat \<Rightarrow> char" where
  "digit_char d = char_of (48 + d)"

fun parse_digits :: "nat \<Rightarrow> string \<Rightarrow> nat option" where
  "parse_digits acc [] = Some acc"
| "parse_digits acc (c # cs) =
     (case digit_value c of None \<Rightarrow> None | Some d \<Rightarrow> parse_digits (10 * acc + d) cs)"

definition ParseUint :: "nat \<Rightarrow> string \<Rightarrow> nat option" where
  "ParseUint bits s =
     (if s = [] then None
      else case parse_digits 0 s of
             None \<Rightarrow> None
           | Some n \<Rightarrow> if n < 2 ^ bits then Some n else None)"

definition ParseInt :: "nat \<Rightarrow> string \<Rightarrow> int option" where
  "ParseInt bits s =
     (case s of
        [] \<Rightarrow> None
      | c # cs \<Rightarrow>
          let neg = (c = CHR ''-''); body = (if c = CHR ''-'' \<or> c = CHR ''+'' then cs else s)
          in if body = [] then None
             else case parse_digits 0 body of
                    None \<Rightarrow> None
                  | Some n \<Rightarrow>
                      if neg then (if n \<le> 2 ^ (bits - 1) then Some (- int n) else None)
                      else (if n < 2 ^ (bits - 1) then Some (int n) else None))"

fun Itoa :: "nat \<Rightarrow> string" where
  "Itoa n = (if n < 10 then [digit_char n] else Itoa (n div 10) @ [digit_char (n mod 10)])"

declare Itoa.simps [simp del]

subsection \<open>Lemmas\<close>

lemma of_char_digit_char: "d < 10 \<Longrightarrow> (of_char (digit_char d) :: nat) = 48 + d"
  by (simp add: digit_char_def)

lemma digit_value_digit_char [simp]: "d < 10 \<Longrightarrow> digit_value (digit_char d) = Some d"
  by (simp add: digit_value_def of_char_digit_char)

lemma digit_value_bound: "digit_value c = Some d \<Longrightarrow> d < 10"
  by (auto simp: digit_value_def Let_def split: if_splits)

lemma parse_digits_append:
  "parse_digits acc (xs @ ys) =
     (case parse_digits acc xs of None \<Rightarrow> None | Some n \<Rightarrow> parse_digits n ys)"
  by (induction xs arbitrary: acc) (auto split: option.splits)

lemma parse_digits_Itoa: "parse_digits 0 (Itoa n) = Some n"
proof (induction n rule: Itoa.induct)
  case (1 n)
  show ?case
  proof (cases "n < 10")
    case True
    then show ?thesis by (simp add: Itoa.simps [of n])
  next
    case False
    with "1" have "parse_digits 0 (Itoa (n div 10)) = Some (n div 10)" by simp
    with False show ?thesis by (simp add: Itoa.simps [of n] parse_digits_append)
  qed
qed

lemma Itoa_nonempty [simp]: "Itoa n \<noteq> []"
  by (subst Itoa.simps) simp

lemma ParseUint_Itoa [simp]: "ParseUint bits (Itoa n) = (if n < 2 ^ bits then Some n else None)"
  by (simp add: ParseUint_def parse_digits_Itoa)

lemma ParseUint_bound: "ParseUint bits s = Some n \<Longrightarrow> n < 2 ^ bits"
  by (auto simp: ParseUint_def split: if_splits option.splits)

lemma ParseInt_bound: "ParseInt bits s = Some n \<Longrightarrow> n < 2 ^ (bits - 1) \<and> - (2 ^ (bits - 1)) \<le> n"
proof -
  have "- (2 ^ k) \<le> int m" and "- int m < 2 ^ k" for k m :: nat
    by (rule order_trans [of _ 0], simp_all, rule order_le_less_trans [of _ 0], simp_all)
  then show "ParseInt bits s = Some n \<Longrightarrow> ?thesis"
    by (auto simp: ParseInt_def Let_def split: list.splits if_splits option.splits)
qed

lemma set_Itoa: "set (Itoa n) \<subseteq> digit_char ` {..<10}"
proof (induction n rule: Itoa.induct)
  case (1 n)
  show ?case
    using "1" by (cases "n < 10") (auto simp: Itoa.simps [of n])
qed

lemma digit_char_not_space: "d < 10 \<Longrightarrow> \<not> is_space (digit_char d)"
  by (simp add: is_space_def of_char_digit_char)

lemma Itoa_no_space: "\<forall>c \<in> set (Itoa n). \<not> is_space c"
  using set_Itoa digit_char_not_space by fastforce

lemma digit_char_neq: "d < 10 \<Longrightarrow> (of_char c :: nat) < 48 \<Longrightarrow> digit_char d \<noteq> c"
  using of_char_digit_char by fastforce

lemma Itoa_no_char: "(of_char c :: nat) < 48 \<Longrightarrow> c \<notin> set (Itoa n)"
  using set_Itoa digit_char_neq by blast

lemma strings_Fields_Nil [simp]: "strings_Fields [] = []"
  by (simp add: strings_Fields.simps)

lemma dropWhile_word:
  "\<forall>c \<in> set w. \<not> P c \<Longrightarrow> w \<noteq> [] \<Longrightarrow> dropWhile P (w @ s) = w @ s"
  by (cases w) auto

lemma strings_Fields_word:
  assumes "w \<noteq> []" and "\<forall>c \<in> set w. \<not> is_space c"
  shows "strings_Fields w = [w]"
proof -
  have "dropWhile is_space w = w" using assms by (cases w) auto
  moreover have "dropWhile (\<lambda>c. \<not> is_space c) w = []" "takeWhile (\<lambda>c. \<not> is_space c) w = w"
    using assms by simp_all
  ultimately show ?thesis using assms(1)
    by (subst strings_Fields.simps) (simp only: Let_def strings_Fields_Nil if_False)
qed

lemma strings_Fields_two:
  assumes "v \<noteq> []" and "\<forall>c \<in> set v. \<not> is_space c"
    and "w \<noteq> []" and "\<forall>c \<in> set w. \<not> is_space c" and "is_space sp"
  shows "strings_Fields (v @ sp # w) = [v, w]"
proof -
  have skip: "dropWhile is_space (v @ sp # w) = v @ sp # w"
    using assms by (cases v) auto
  have "dropWhile is_space (sp # w) = dropWhile is_space w" using assms by simp
  then have "strings_Fields (sp # w) = strings_Fields w"
    by (simp only: strings_Fields.simps [of "sp # w"] strings_Fields.simps [of w])
  then show ?thesis using assms skip
    by (simp add: strings_Fields.simps [of "v @ sp # w"] strings_Fields_word)
qed

lemma strings_Split_no_sep: "sep \<notin> set w \<Longrightarrow> strings_Split sep w = [w]"
  by (induction w) auto

lemma strings_Split_one:
  "sep \<notin> set v \<Longrightarrow> strings_Split sep (v @ sep # w) = v # strings_Split sep w"
  by (induction v) auto

end
