(* ===== verification/Go_Float.thy ===== *)
theory Go_Float
  imports Complex_Main Go_Strings
begin

text \<open>
  Go's floating-point numbers, as far as the PBX uses them: IEEE 754 double precision rounding of a
  rational to the nearest representable one, ties to even (the jitter estimate and the RTT), single
  precision values with their comparison (the \<open>q\<close> of a contact), and \<open>strconv.ParseFloat\<close> of 32 bits.
\<close>

subsection \<open>Double precision\<close>

definition pow2 :: "int \<Rightarrow> rat" where
  "pow2 e = (if 0 \<le> e then 2 ^ nat e else 1 / 2 ^ nat (- e))"

definition round_even :: "rat \<Rightarrow> int" where
  "round_even x =
     (let f = floor x; d = x - of_int f
      in if d < 1 / 2 then f else if 1 / 2 < d then f + 1 else if even f then f else f + 1)"

text \<open>The exponent of the unit in the last place; subnormal numbers end at \<open>2^-1074\<close>.\<close>

function bit_length :: "int \<Rightarrow> int" where
  "bit_length n = (if n \<le> 0 then 0 else 1 + bit_length (n div 2))"
  by pat_completeness auto
termination by (relation "measure nat") auto

declare bit_length.simps [simp del]

definition floor_log2 :: "rat \<Rightarrow> int" where
  "floor_log2 x = (if 1 \<le> x then bit_length \<lfloor>x\<rfloor> - 1 else - bit_length (\<lceil>1 / x\<rceil> - 1))"

definition ulp_exponent :: "rat \<Rightarrow> int" where
  "ulp_exponent x = max (floor_log2 \<bar>x\<bar> - 52) (- 1074)"

definition float64 :: "rat \<Rightarrow> rat" where
  "float64 x =
     (if x = 0 then 0
      else let q = pow2 (ulp_exponent x) in of_int (round_even (x / q)) * q)"

lemma bit_length_nonneg: "0 \<le> bit_length n"
  by (induction n rule: bit_length.induct) (subst bit_length.simps, auto)

lemma bit_length_le: "n < 2 ^ k \<Longrightarrow> bit_length n \<le> int k"
proof (induction k arbitrary: n)
  case 0
  then show ?case by (subst bit_length.simps) simp
next
  case (Suc k)
  then have "n div 2 < 2 ^ k" by simp
  from Suc.IH [OF this] show ?case by (subst bit_length.simps) simp
qed

lemma round_even_of_int [simp]: "round_even (of_int n) = n"
  by (simp add: round_even_def Let_def)

lemma ulp_exponent_le:
  assumes "\<bar>x\<bar> < 2 ^ k" and "0 < k"
  shows "ulp_exponent x \<le> int k - 53"
proof -
  have "floor_log2 \<bar>x\<bar> \<le> int k - 1"
  proof (cases "1 \<le> \<bar>x\<bar>")
    case True
    have "\<lfloor>\<bar>x\<bar>\<rfloor> < 2 ^ k" using assms(1) by (simp add: floor_less_iff)
    from bit_length_le [OF this] show ?thesis using True by (simp add: floor_log2_def)
  next
    case False
    then show ?thesis using bit_length_nonneg [of "\<lceil>1 / \<bar>x\<bar>\<rceil> - 1"] assms(2) by (simp add: floor_log2_def)
  qed
  then show ?thesis using assms(2) by (simp add: ulp_exponent_def)
qed

lemma pow2_neg: "pow2 (- int k) = 1 / 2 ^ k"
  by (cases "k = 0") (simp_all add: pow2_def)

lemma float64_exact:
  assumes "x * 2 ^ j = of_int n" and "\<bar>x\<bar> < 2 ^ (53 - j)" and "j < 53"
  shows "float64 x = x"
proof (cases "x = 0")
  case False
  have "ulp_exponent x \<le> - int j" using ulp_exponent_le [OF assms(2)] assms(3) by simp
  then obtain i where i: "ulp_exponent x = - int (j + i)"
    using zle_iff_zadd [of "int j" "- ulp_exponent x"] by (metis minus_minus neg_le_iff_le of_nat_add)
  have q: "pow2 (- int (j + i)) = 1 / 2 ^ (j + i)" by (rule pow2_neg)
  have eq: "x / pow2 (- int (j + i)) = of_int (n * 2 ^ i)"
    unfolding q using assms(1) by (simp add: power_add mult.assoc [symmetric])
  have "of_int (n * 2 ^ i) * pow2 (- int (j + i)) = x"
    unfolding q using assms(1) by (simp add: power_add field_simps)
  then show ?thesis using False by (simp only: float64_def i eq round_even_of_int if_False Let_def)
qed (simp add: float64_def)

subsection \<open>Single precision\<close>

text \<open>A \<open>float32\<close> is a rational, an infinity or \<open>NaN\<close>.\<close>

datatype float32 = NaN | NInf | PInf | Fin rat

fun fl_less :: "float32 \<Rightarrow> float32 \<Rightarrow> bool" where
  "fl_less NaN y = False"
| "fl_less x NaN = False"
| "fl_less (Fin x) (Fin y) = (x < y)"
| "fl_less NInf y = (y \<noteq> NInf)"
| "fl_less PInf y = False"
| "fl_less (Fin x) y = (y = PInf)"

subsection \<open>\<open>strconv.ParseFloat\<close> of 32 bits\<close>

text \<open>Single precision rounding; \<open>None\<close> is a magnitude beyond the largest number, a range error.\<close>

definition float32_round :: "rat \<Rightarrow> float32 option" where
  "float32_round x =
     (if x = 0 then Some (Fin 0)
      else
        let q = pow2 (max (floor_log2 \<bar>x\<bar> - 23) (- 149)); r = of_int (round_even (x / q)) * q
        in if 2 ^ 128 \<le> \<bar>r\<bar> then None else Some (Fin r))"

definition float_digit :: "bool \<Rightarrow> char \<Rightarrow> nat option" where
  "float_digit hex c =
     (case digit_value c of
        Some d \<Rightarrow> Some d
      | None \<Rightarrow>
          let n = of_char (char_to_lower c) :: nat
          in if hex \<and> 97 \<le> n \<and> n \<le> 102 then Some (n - 87) else None)"

text \<open>
  The mantissa: its digits without the point, the number of digits after the point, whether there
  was a digit, and what follows. Underscores are skipped here and checked afterwards.
\<close>

fun scan_mantissa :: "bool \<Rightarrow> bool \<Rightarrow> nat \<times> nat \<times> bool \<Rightarrow> string \<Rightarrow> (nat \<times> nat \<times> bool) \<times> string" where
  "scan_mantissa hex dot acc [] = (acc, [])"
| "scan_mantissa hex dot (m, f, saw) (c # cs) =
     (if c = CHR ''_'' then scan_mantissa hex dot (m, f, saw) cs
      else if c = CHR ''.'' then
        (if dot then ((m, f, saw), c # cs) else scan_mantissa hex True (m, f, saw) cs)
      else case float_digit hex c of
             None \<Rightarrow> ((m, f, saw), c # cs)
           | Some d \<Rightarrow>
               scan_mantissa hex dot ((if hex then 16 else 10) * m + d, if dot then Suc f else f, True) cs)"

fun scan_exponent :: "nat \<Rightarrow> string \<Rightarrow> nat \<times> string" where
  "scan_exponent e [] = (e, [])"
| "scan_exponent e (c # cs) =
     (if c = CHR ''_'' then scan_exponent e cs
      else case digit_value c of
             None \<Rightarrow> (e, c # cs)
           | Some d \<Rightarrow> scan_exponent (if e < 10000 then 10 * e + d else e) cs)"

fun underscores_ok :: "bool \<Rightarrow> char \<Rightarrow> string \<Rightarrow> bool" where
  "underscores_ok hex saw [] = (saw \<noteq> CHR ''_'')"
| "underscores_ok hex saw (c # cs) =
     (if float_digit hex c \<noteq> None then underscores_ok hex CHR ''0'' cs
      else if c = CHR ''_'' then saw = CHR ''0'' \<and> underscores_ok hex c cs
      else saw \<noteq> CHR ''_'' \<and> underscores_ok hex CHR ''!'' cs)"

definition parse_exponent :: "bool \<Rightarrow> string \<Rightarrow> int option" where
  "parse_exponent hex s =
     (case s of
        [] \<Rightarrow> if hex then None else Some 0
      | c # cs \<Rightarrow>
          if char_to_lower c \<noteq> (if hex then CHR ''p'' else CHR ''e'') then None
          else
            let signed = (cs \<noteq> [] \<and> (hd cs = CHR ''+'' \<or> hd cs = CHR ''-''));
                ds = (if signed then tl cs else cs); (e, rest) = scan_exponent 0 ds
            in if ds = [] \<or> digit_value (hd ds) = None \<or> rest \<noteq> [] then None
               else Some (if signed \<and> hd cs = CHR ''-'' then - int e else int e))"

definition ParseFloat32 :: "string \<Rightarrow> float32 option" where
  "ParseFloat32 s =
     (let l = strings_ToLower s
      in if l = ''nan'' then Some NaN
         else if l \<in> {''inf'', ''+inf'', ''infinity'', ''+infinity''} then Some PInf
         else if l \<in> {''-inf'', ''-infinity''} then Some NInf
         else
           let neg = (s \<noteq> [] \<and> hd s = CHR ''-'');
               t = (if s \<noteq> [] \<and> (hd s = CHR ''-'' \<or> hd s = CHR ''+'') then tl s else s);
               hex = (2 < length t \<and> strings_ToLower (take 2 t) = ''0x'');
               body = (if hex then drop 2 t else t);
               ((m, f, saw), rest) = scan_mantissa hex False (0, 0, False) body
           in if \<not> saw \<or> \<not> underscores_ok hex (if hex then CHR ''0'' else CHR ''^'') body then None
              else case parse_exponent hex rest of
                     None \<Rightarrow> None
                   | Some e \<Rightarrow>
                       let x = rat_of_nat m * (if hex then pow2 (e - 4 * int f)
                                 else if 0 \<le> e - int f then 10 ^ nat (e - int f) else 1 / 10 ^ nat (int f - e))
                       in float32_round (if neg then - x else x))"

end
