(* ===== verification/Registration.thy ===== *)
theory Registration
  imports Go_Float
begin

text \<open>
  \<open>internal/core/registration\<close>: bindings of an address of record to contacts, and the manager that
  applies the registration life cycle to a store. The store is an interface of the code: here the
  record \<open>registration_store\<close> of its operations over a state \<open>'s\<close>, and its contract is the locale
  \<open>registration_contract\<close>. A \<open>float32\<close> is a rational, an infinity or \<open>NaN\<close>; each operation of the
  manager reads its clock at most once, and the reading is its argument \<open>now\<close>.
\<close>

subsection \<open>Bindings\<close>

record binding =
  bi_ID :: string
  bi_TenantID :: string
  bi_AoR :: string
  bi_Contact :: string
  bi_RouteTarget :: string
  bi_Transport :: string
  bi_Received :: addr_port
  bi_UserAgent :: string
  bi_Q :: float32
  bi_ExpiresAt :: time
  bi_UpdatedAt :: time

definition TransportUDP :: string where "TransportUDP = ''udp''"
definition TransportTCP :: string where "TransportTCP = ''tcp''"

definition ErrBindingLimit :: go_error where
  "ErrBindingLimit = Sentinel ''registration binding limit reached''"

definition ErrNotFound :: go_error where
  "ErrNotFound = Sentinel ''registration not found''"

definition binding_Validate :: "binding \<Rightarrow> time \<Rightarrow> go_error option" where
  "binding_Validate b now =
     (if bi_ID b = '''' then Some (Errorf ''registration ID is required'')
      else if bi_TenantID b = '''' then Some (Errorf ''tenant ID is required'')
      else if bi_AoR b = '''' then Some (Errorf ''address of record is required'')
      else if bi_Contact b = '''' then Some (Errorf ''contact is required'')
      else if bi_RouteTarget b = '''' then Some (Errorf ''route target is required'')
      else if bi_Transport b \<noteq> TransportUDP \<and> bi_Transport b \<noteq> TransportTCP
      then Some (Errorf ''unsupported transport %q'')
      else if \<not> ap_IsValid (bi_Received b) then Some (Errorf ''received address is required'')
      else if fl_less (bi_Q b) (Fin 0) \<or> fl_less (Fin 1) (bi_Q b)
      then Some (Errorf ''q value must be between 0 and 1'')
      else if \<not> now < bi_ExpiresAt b then Some (Errorf ''expiration must be in the future'')
      else if bi_UpdatedAt b = 0 then Some (Errorf ''updated time is required'')
      else None)"

text \<open>A binding is identified by its tenant, address of record and contact.\<close>

type_synonym binding_key = "string \<times> string \<times> string"

definition key_of :: "binding \<Rightarrow> binding_key" where
  "key_of b = (bi_TenantID b, bi_AoR b, bi_Contact b)"

definition active :: "time \<Rightarrow> binding \<Rightarrow> bool" where
  "active now b \<longleftrightarrow> now < bi_ExpiresAt b"

subsection \<open>The store interface\<close>

record 's registration_store =
  st_Upsert :: "ctx \<Rightarrow> binding \<Rightarrow> int \<Rightarrow> 's \<Rightarrow> 's \<times> go_error option"
  st_Delete :: "ctx \<Rightarrow> string \<Rightarrow> string \<Rightarrow> string \<Rightarrow> 's \<Rightarrow> 's \<times> go_error option"
  st_DeleteAll :: "ctx \<Rightarrow> string \<Rightarrow> string \<Rightarrow> 's \<Rightarrow> 's \<times> go_error option"
  st_ListActive :: "ctx \<Rightarrow> string \<Rightarrow> string \<Rightarrow> time \<Rightarrow> 's \<Rightarrow> binding list result"
  st_DeleteExpired :: "ctx \<Rightarrow> time \<Rightarrow> 's \<Rightarrow> 's \<times> int result"

record request =
  rq_TenantID :: string
  rq_AoR :: string
  rq_Contact :: string
  rq_RouteTarget :: string
  rq_Transport :: string
  rq_Received :: addr_port
  rq_UserAgent :: string
  rq_Q :: float32
  rq_Expires :: duration
  rq_MaxBindings :: int

subsection \<open>The manager\<close>

definition NewManager :: "'s registration_store option \<Rightarrow> 'c option \<Rightarrow> 's registration_store result" where
  "NewManager store clock =
     (case store of
        None \<Rightarrow> Inl (Errorf ''registration store is required'')
      | Some st \<Rightarrow> (case clock of None \<Rightarrow> Inl (Errorf ''clock is required'') | Some _ \<Rightarrow> Inr st))"

text \<open>The zero \<open>Binding\<close>, returned beside an error and by the removals.\<close>

definition binding_zero :: binding where
  "binding_zero =
     \<lparr>bi_ID = '''', bi_TenantID = '''', bi_AoR = '''', bi_Contact = '''', bi_RouteTarget = '''',
      bi_Transport = '''', bi_Received = AddrPortZero, bi_UserAgent = '''', bi_Q = Fin 0,
      bi_ExpiresAt = 0, bi_UpdatedAt = 0\<rparr>"

definition removal :: "'s \<times> go_error option \<Rightarrow> 's \<times> binding result" where
  "removal p = (case p of (s, Some e) \<Rightarrow> (s, Inl e) | (s, None) \<Rightarrow> (s, Inr binding_zero))"

text \<open>The argument \<open>uuid\<close> is the result of \<open>uuid.NewV7\<close>.\<close>

definition manager_Apply ::
  "'s registration_store \<Rightarrow> ctx \<Rightarrow> time \<Rightarrow> string result \<Rightarrow> request \<Rightarrow> 's \<Rightarrow> 's \<times> binding result" where
  "manager_Apply st c now uuid rq s =
     (if rq_Expires rq < 0 then (s, Inl (Errorf ''expiration must not be negative''))
      else if rq_Expires rq = 0 then
        (if rq_Contact rq = ''*''
         then removal (st_DeleteAll st c (rq_TenantID rq) (rq_AoR rq) s)
         else removal (st_Delete st c (rq_TenantID rq) (rq_AoR rq) (rq_Contact rq) s))
      else if rq_MaxBindings rq \<le> 0 then (s, Inl (Errorf ''max bindings must be positive''))
      else if \<not> ap_IsValid (rq_Received rq) then (s, Inl (Errorf ''received address is required''))
      else case uuid of
        Inl e \<Rightarrow> (s, Inl (Wrapf ''generate registration ID: %w'' e))
      | Inr ident \<Rightarrow>
          (let b = \<lparr>bi_ID = ident, bi_TenantID = rq_TenantID rq, bi_AoR = rq_AoR rq,
                    bi_Contact = rq_Contact rq, bi_RouteTarget = rq_RouteTarget rq,
                    bi_Transport = rq_Transport rq, bi_Received = rq_Received rq,
                    bi_UserAgent = rq_UserAgent rq, bi_Q = rq_Q rq,
                    bi_ExpiresAt = now + rq_Expires rq, bi_UpdatedAt = now\<rparr>
           in case binding_Validate b now of
                Some e \<Rightarrow> (s, Inl (Wrapf ''validate registration: %w'' e))
              | None \<Rightarrow>
                  (case st_Upsert st c b (rq_MaxBindings rq) s of
                     (s', Some e) \<Rightarrow> (s', Inl (Wrapf ''upsert registration: %w'' e))
                   | (s', None) \<Rightarrow> (s', Inr b))))"

definition manager_List ::
  "'s registration_store \<Rightarrow> ctx \<Rightarrow> time \<Rightarrow> string \<Rightarrow> string \<Rightarrow> 's \<Rightarrow> binding list result" where
  "manager_List st c now tenantID aor s =
     (case st_ListActive st c tenantID aor now s of
        Inl e \<Rightarrow> Inl (Wrapf ''list active registrations: %w'' e)
      | Inr bs \<Rightarrow> Inr bs)"

text \<open>The comparison of \<open>Resolve\<close>: higher \<open>Q\<close> first, then the later update.\<close>

definition prefer_cmp :: "binding \<Rightarrow> binding \<Rightarrow> int" where
  "prefer_cmp l r =
     (if fl_less (bi_Q r) (bi_Q l) then - 1
      else if fl_less (bi_Q l) (bi_Q r) then 1
      else if bi_UpdatedAt r < bi_UpdatedAt l then - 1
      else if bi_UpdatedAt l < bi_UpdatedAt r then 1
      else 0)"

text \<open>
  \<open>slices.SortFunc\<close> as the insertion sort it runs on up to twelve elements: each element moves
  left past the elements it compares below. Beyond that it may order elements that compare equal
  differently.
\<close>

fun insert_cmp :: "('a \<Rightarrow> 'a \<Rightarrow> int) \<Rightarrow> 'a \<Rightarrow> 'a list \<Rightarrow> 'a list" where
  "insert_cmp cmp x [] = [x]"
| "insert_cmp cmp x (y # ys) = (if cmp x y < 0 then y # insert_cmp cmp x ys else x # y # ys)"

text \<open>The sorted prefix is kept with its last element first.\<close>

definition slices_SortFunc :: "('a \<Rightarrow> 'a \<Rightarrow> int) \<Rightarrow> 'a list \<Rightarrow> 'a list" where
  "slices_SortFunc cmp xs = rev (fold (insert_cmp cmp) xs [])"

definition manager_Resolve ::
  "'s registration_store \<Rightarrow> ctx \<Rightarrow> time \<Rightarrow> string \<Rightarrow> string \<Rightarrow> 's \<Rightarrow> binding result" where
  "manager_Resolve st c now tenantID aor s =
     (case manager_List st c now tenantID aor s of
        Inl e \<Rightarrow> Inl (Wrapf ''list active registrations: %w'' e)
      | Inr [] \<Rightarrow> Inl ErrNotFound
      | Inr (b # bs) \<Rightarrow> Inr (hd (slices_SortFunc prefer_cmp (b # bs))))"

definition manager_Expire :: "'s registration_store \<Rightarrow> ctx \<Rightarrow> time \<Rightarrow> 's \<Rightarrow> 's \<times> int result" where
  "manager_Expire st c now s =
     (case st_DeleteExpired st c now s of
        (s', Inl e) \<Rightarrow> (s', Inl (Wrapf ''delete expired registrations: %w'' e))
      | (s', Inr n) \<Rightarrow> (s', Inr n))"

definition IsBindingLimit :: "go_error option \<Rightarrow> bool" where
  "IsBindingLimit e = error_is e ErrBindingLimit"

subsection \<open>Sorting by a comparison\<close>

text \<open>A comparison whose "not below" is transitive and which is asymmetric: a strict weak order.\<close>

definition weak_order_on :: "'a set \<Rightarrow> ('a \<Rightarrow> 'a \<Rightarrow> int) \<Rightarrow> bool" where
  "weak_order_on A cmp \<longleftrightarrow>
     (\<forall>x\<in>A. \<forall>y\<in>A. cmp x y < 0 \<longrightarrow> \<not> cmp y x < 0) \<and>
     (\<forall>x\<in>A. \<forall>y\<in>A. \<forall>z\<in>A. \<not> cmp x y < 0 \<longrightarrow> \<not> cmp y z < 0 \<longrightarrow> \<not> cmp x z < 0)"

lemma mset_insert_cmp [simp]: "mset (insert_cmp cmp x ys) = add_mset x (mset ys)"
  by (induction ys) auto

lemma set_insert_cmp [simp]: "set (insert_cmp cmp x ys) = insert x (set ys)"
  by (induction ys) auto

lemma mset_fold_insert_cmp: "mset (fold (insert_cmp cmp) xs acc) = mset xs + mset acc"
  by (induction xs arbitrary: acc) auto

lemma mset_SortFunc [simp]: "mset (slices_SortFunc cmp xs) = mset xs"
  by (simp add: slices_SortFunc_def mset_fold_insert_cmp)

lemma set_SortFunc [simp]: "set (slices_SortFunc cmp xs) = set xs"
  using mset_SortFunc by (metis set_mset_mset)

lemma sorted_insert_cmp:
  assumes "weak_order_on A cmp" and "insert x (set ys) \<subseteq> A"
    and "sorted_wrt (\<lambda>a b. \<not> cmp a b < 0) ys"
  shows "sorted_wrt (\<lambda>a b. \<not> cmp a b < 0) (insert_cmp cmp x ys)"
  using assms(2,3)
proof (induction ys)
  case (Cons y ys)
  show ?case
  proof (cases "cmp x y < 0")
    case True
    moreover have mem: "x \<in> A" "y \<in> A" using Cons.prems(1) by auto
    ultimately have "\<not> cmp y x < 0" using assms(1) unfolding weak_order_on_def by blast
    moreover have "sorted_wrt (\<lambda>a b. \<not> cmp a b < 0) (insert_cmp cmp x ys)"
      using Cons by simp
    ultimately show ?thesis using True Cons.prems(2) by simp
  next
    case False
    have "\<not> cmp x z < 0" if "z \<in> set ys" for z
    proof -
      have "\<not> cmp y z < 0" using that Cons.prems(2) by simp
      moreover have "x \<in> A" "y \<in> A" "z \<in> A" using that Cons.prems(1) by auto
      ultimately show ?thesis using False assms(1) unfolding weak_order_on_def by blast
    qed
    then show ?thesis using False Cons.prems(2) by simp
  qed
qed simp

lemma sorted_fold_insert_cmp:
  assumes "weak_order_on A cmp" and "set xs \<union> set acc \<subseteq> A"
    and "sorted_wrt (\<lambda>a b. \<not> cmp a b < 0) acc"
  shows "sorted_wrt (\<lambda>a b. \<not> cmp a b < 0) (fold (insert_cmp cmp) xs acc)"
  using assms(2,3)
proof (induction xs arbitrary: acc)
  case (Cons x xs)
  have "sorted_wrt (\<lambda>a b. \<not> cmp a b < 0) (insert_cmp cmp x acc)"
    using Cons.prems by (intro sorted_insert_cmp [OF assms(1)]) auto
  then show ?case using Cons.IH [of "insert_cmp cmp x acc"] Cons.prems(1) by simp
qed simp

lemma sorted_SortFunc:
  assumes "weak_order_on (set xs) cmp"
  shows "sorted_wrt (\<lambda>a b. \<not> cmp b a < 0) (slices_SortFunc cmp xs)"
  using sorted_fold_insert_cmp [OF assms, of xs "[]"]
  by (simp add: slices_SortFunc_def sorted_wrt_rev)

lemma SortFunc_head:
  assumes "weak_order_on (set xs) cmp" and "xs \<noteq> []" and "y \<in> set xs"
  shows "\<not> cmp y (hd (slices_SortFunc cmp xs)) < 0"
proof -
  obtain m ms where s: "slices_SortFunc cmp xs = m # ms"
    using assms(2) mset_SortFunc [of cmp xs] by (cases "slices_SortFunc cmp xs") auto
  then have "y = m \<or> y \<in> set ms" using assms(3) set_SortFunc [of cmp xs] by auto
  moreover have "\<not> cmp m m < 0"
    using assms(1) s set_SortFunc [of cmp xs] unfolding weak_order_on_def
    by (metis list.set_intros(1))
  ultimately show ?thesis using sorted_SortFunc [OF assms(1)] s by auto
qed

lemma prefer_weak_order:
  assumes "\<forall>b\<in>A. bi_Q b \<noteq> NaN"
  shows "weak_order_on A prefer_cmp"
proof -
  have neg: "prefer_cmp l r < 0 \<longleftrightarrow>
      fl_less (bi_Q r) (bi_Q l) \<or> \<not> fl_less (bi_Q l) (bi_Q r) \<and> bi_UpdatedAt r < bi_UpdatedAt l" for l r
    by (auto simp: prefer_cmp_def)
  have asym: "fl_less x y \<Longrightarrow> \<not> fl_less y x" for x y
    by (cases x; cases y) auto
  have trans: "x \<noteq> NaN \<Longrightarrow> y \<noteq> NaN \<Longrightarrow> z \<noteq> NaN \<Longrightarrow> \<not> fl_less x y \<Longrightarrow> \<not> fl_less y z \<Longrightarrow> \<not> fl_less x z" for x y z
    by (cases x; cases y; cases z) auto
  show ?thesis
    unfolding weak_order_on_def neg
  proof (intro conjI ballI impI)
    fix x y
    assume "x \<in> A" "y \<in> A"
      "fl_less (bi_Q y) (bi_Q x) \<or> \<not> fl_less (bi_Q x) (bi_Q y) \<and> bi_UpdatedAt y < bi_UpdatedAt x"
    then show "\<not> (fl_less (bi_Q x) (bi_Q y) \<or> \<not> fl_less (bi_Q y) (bi_Q x) \<and> bi_UpdatedAt x < bi_UpdatedAt y)"
      using asym by auto
  next
    fix x y z
    assume mem: "x \<in> A" "y \<in> A" "z \<in> A"
      and xy: "\<not> (fl_less (bi_Q y) (bi_Q x) \<or> \<not> fl_less (bi_Q x) (bi_Q y) \<and> bi_UpdatedAt y < bi_UpdatedAt x)"
      and yz: "\<not> (fl_less (bi_Q z) (bi_Q y) \<or> \<not> fl_less (bi_Q y) (bi_Q z) \<and> bi_UpdatedAt z < bi_UpdatedAt y)"
    have nan: "bi_Q x \<noteq> NaN" "bi_Q y \<noteq> NaN" "bi_Q z \<noteq> NaN" using mem assms by auto
    have "\<not> fl_less (bi_Q z) (bi_Q x)" using xy yz trans [OF nan(3,2,1)] by blast
    moreover have "bi_UpdatedAt x \<le> bi_UpdatedAt z" if "\<not> fl_less (bi_Q x) (bi_Q z)"
    proof -
      have "\<not> fl_less (bi_Q x) (bi_Q y)" using that yz trans [OF nan(1,3,2)] by blast
      moreover have "\<not> fl_less (bi_Q y) (bi_Q z)" using that xy trans [OF nan(2,1,3)] by blast
      ultimately show ?thesis using xy yz by auto
    qed
    ultimately show "\<not> (fl_less (bi_Q z) (bi_Q x) \<or> \<not> fl_less (bi_Q x) (bi_Q z) \<and> bi_UpdatedAt z < bi_UpdatedAt x)"
      by auto
  qed
qed

subsection \<open>The contract of a store\<close>

text \<open>A store is seen as a map from keys to bindings.\<close>

type_synonym directory = "binding_key \<Rightarrow> binding option"

definition bindings_of :: "directory \<Rightarrow> string \<Rightarrow> string \<Rightarrow> time \<Rightarrow> binding set" where
  "bindings_of m t a now = {b. \<exists>ct. m (t, a, ct) = Some b \<and> active now b}"

definition without_aor :: "string \<Rightarrow> string \<Rightarrow> directory \<Rightarrow> directory" where
  "without_aor t a m = (\<lambda>k. if fst k = t \<and> fst (snd k) = a then None else m k)"

definition without_expired :: "time \<Rightarrow> directory \<Rightarrow> directory" where
  "without_expired now m =
     (\<lambda>k. case m k of None \<Rightarrow> None | Some b \<Rightarrow> if active now b then Some b else None)"

locale registration_contract =
  fixes st :: "'s registration_store" and bound :: "'s \<Rightarrow> directory" and inv :: "'s \<Rightarrow> bool"
  assumes bound_key: "inv s \<Longrightarrow> bound s k = Some b \<Longrightarrow> key_of b = k"
    and upsert: "inv s \<Longrightarrow> st_Upsert st c b n s = (s', r) \<Longrightarrow>
      inv s' \<and> bound s' = (if r = None then (bound s)(key_of b \<mapsto> b) else bound s)"
    and upsert_limited: "inv s \<Longrightarrow> st_Upsert st c b n s = (s', None) \<Longrightarrow> bound s (key_of b) = None \<Longrightarrow>
      int (card (bindings_of (bound s) (bi_TenantID b) (bi_AoR b) (bi_UpdatedAt b))) < n"
    and delete: "inv s \<Longrightarrow> st_Delete st c t a ct s = (s', r) \<Longrightarrow>
      inv s' \<and> bound s' = (if r = None then (bound s)((t, a, ct) := None) else bound s)"
    and delete_all: "inv s \<Longrightarrow> st_DeleteAll st c t a s = (s', r) \<Longrightarrow>
      inv s' \<and> bound s' = (if r = None then without_aor t a (bound s) else bound s)"
    and list_active: "inv s \<Longrightarrow> st_ListActive st c t a now s = Inr bs \<Longrightarrow>
      set bs = bindings_of (bound s) t a now \<and> distinct bs"
    and expired: "inv s \<Longrightarrow> st_DeleteExpired st c now s = (s', gone) \<Longrightarrow>
      inv s' \<and> bound s' = (case gone of Inl _ \<Rightarrow> bound s | Inr _ \<Rightarrow> without_expired now (bound s))"
    and expired_count: "inv s \<Longrightarrow> st_DeleteExpired st c now s = (s', Inr n) \<Longrightarrow>
      n = int (card (dom (bound s) - dom (bound s')))"

text \<open>What one request means for the directory.\<close>

definition applied :: "request \<Rightarrow> binding result \<Rightarrow> directory \<Rightarrow> directory" where
  "applied rq r m =
     (case r of
        Inl _ \<Rightarrow> m
      | Inr b \<Rightarrow>
          if 0 < rq_Expires rq then m(key_of b \<mapsto> b)
          else if rq_Contact rq = ''*'' then without_aor (rq_TenantID rq) (rq_AoR rq) m
          else m((rq_TenantID rq, rq_AoR rq, rq_Contact rq) := None))"

text \<open>The binding a request asks for.\<close>

definition requested :: "time \<Rightarrow> request \<Rightarrow> binding \<Rightarrow> bool" where
  "requested now rq b \<longleftrightarrow>
     key_of b = (rq_TenantID rq, rq_AoR rq, rq_Contact rq) \<and> bi_RouteTarget b = rq_RouteTarget rq \<and>
     bi_Transport b = rq_Transport rq \<and> bi_Received b = rq_Received rq \<and> bi_Q b = rq_Q rq \<and>
     bi_ExpiresAt b = now + rq_Expires rq \<and> bi_UpdatedAt b = now \<and> binding_Validate b now = None"

inductive manager_step :: "'s registration_store \<Rightarrow> 's \<Rightarrow> 's \<Rightarrow> bool" for st where
  step_apply: "manager_Apply st c now uuid rq s = (s', r) \<Longrightarrow> manager_step st s s'"
| step_expire: "manager_Expire st c now s = (s', r) \<Longrightarrow> manager_step st s s'"

text \<open>Every binding of the directory passed validation when it was last updated.\<close>

definition validated :: "directory \<Rightarrow> bool" where
  "validated m \<longleftrightarrow> (\<forall>k b. m k = Some b \<longrightarrow> binding_Validate b (bi_UpdatedAt b) = None)"

lemma validated_upd [simp]:
  "validated m \<Longrightarrow> validated (m(k := None))"
  "validated m \<Longrightarrow> validated (without_aor t a m)"
  "validated m \<Longrightarrow> validated (without_expired now m)"
  by (auto simp: validated_def without_aor_def without_expired_def split: option.splits if_splits)

context registration_contract
begin

lemma apply_requested:
  assumes "manager_Apply st c now uuid rq s = (s', Inr b)" and "0 < rq_Expires rq"
  shows "requested now rq b \<and> 0 < rq_MaxBindings rq \<and>
     st_Upsert st c b (rq_MaxBindings rq) s = (s', None)"
  using assms
  by (auto simp: manager_Apply_def requested_def key_of_def Let_def
      split: if_splits sum.splits option.splits prod.splits)

lemma apply_failed_upsert:
  assumes "manager_Apply st c now uuid rq s = (s', Inl e)" and "0 < rq_Expires rq"
  shows "s' = s \<or> (\<exists>b e'. st_Upsert st c b (rq_MaxBindings rq) s = (s', Some e'))"
  using assms
  by (auto simp: manager_Apply_def Let_def split: if_splits sum.splits option.splits prod.splits)

lemma apply_directory:
  assumes "inv s" and "manager_Apply st c now uuid rq s = (s', r)"
  shows "inv s' \<and> bound s' = applied rq r (bound s)"
proof -
  consider "rq_Expires rq < 0" | "rq_Expires rq = 0" | "0 < rq_Expires rq" by linarith
  then show ?thesis
  proof cases
    case 1
    then show ?thesis using assms by (auto simp: manager_Apply_def applied_def)
  next
    case 2
    show ?thesis
    proof (cases "rq_Contact rq = ''*''")
      case True
      obtain s1 r1 where d: "st_DeleteAll st c (rq_TenantID rq) (rq_AoR rq) s = (s1, r1)" by fastforce
      then show ?thesis using assms 2 True delete_all [OF assms(1) d]
        by (cases r1) (auto simp: manager_Apply_def removal_def applied_def)
    next
      case False
      obtain s1 r1 where d: "st_Delete st c (rq_TenantID rq) (rq_AoR rq) (rq_Contact rq) s = (s1, r1)" by fastforce
      then show ?thesis using assms 2 False delete [OF assms(1) d]
        by (cases r1) (auto simp: manager_Apply_def removal_def applied_def)
    qed
  next
    case 3
    show ?thesis
    proof (cases r)
      case (Inl e)
      then show ?thesis using apply_failed_upsert [of c now uuid rq s s' e] assms 3 upsert
        by (fastforce simp: applied_def)
    next
      case (Inr b)
      then show ?thesis using apply_requested [of c now uuid rq s s' b] assms 3 upsert
        by (fastforce simp: applied_def)
    qed
  qed
qed

lemma expire_directory:
  assumes "inv s" and "manager_Expire st c now s = (s', r)"
  shows "inv s' \<and> bound s' = (case r of Inl _ \<Rightarrow> bound s | Inr _ \<Rightarrow> without_expired now (bound s))"
proof -
  obtain s1 r1 where d: "st_DeleteExpired st c now s = (s1, r1)" by fastforce
  then show ?thesis using assms(2) expired [OF assms(1) d]
    by (cases r1) (auto simp: manager_Expire_def)
qed

lemma resolve_preferred:
  assumes "inv s" and "manager_Resolve st c now t a s = Inr b"
  shows "b \<in> bindings_of (bound s) t a now"
    and "\<forall>b' \<in> bindings_of (bound s) t a now. bi_Q b' \<noteq> NaN \<Longrightarrow>
       b' \<in> bindings_of (bound s) t a now \<Longrightarrow> \<not> prefer_cmp b' b < 0"
proof -
  from assms(2) obtain x xs where l: "st_ListActive st c t a now s = Inr (x # xs)"
    and b: "b = hd (slices_SortFunc prefer_cmp (x # xs))"
    by (auto simp: manager_Resolve_def manager_List_def split: sum.splits list.splits)
  have set: "set (x # xs) = bindings_of (bound s) t a now" using list_active [OF assms(1) l] by simp
  have "slices_SortFunc prefer_cmp (x # xs) \<noteq> []"
    using mset_SortFunc [of prefer_cmp "x # xs"] by fastforce
  then show "b \<in> bindings_of (bound s) t a now"
    using b set set_SortFunc [of prefer_cmp "x # xs"] hd_in_set by metis
  show "\<not> prefer_cmp b' b < 0" if "\<forall>b' \<in> bindings_of (bound s) t a now. bi_Q b' \<noteq> NaN"
    "b' \<in> bindings_of (bound s) t a now"
    unfolding b by (rule SortFunc_head [OF prefer_weak_order]) (use that set in auto)
qed

lemma step_valid:
  assumes "manager_step st s s'" and "inv s" and "validated (bound s)"
  shows "inv s' \<and> validated (bound s')"
  using assms(1)
proof cases
  case (step_apply c now uuid rq r)
  note d = apply_directory [OF assms(2) step_apply]
  have "validated (applied rq r (bound s))"
  proof (cases r)
    case (Inr b)
    then have "requested now rq b" if "0 < rq_Expires rq"
      using apply_requested [of c now uuid rq s s' b] step_apply that by simp
    then show ?thesis using Inr assms(3)
      by (auto simp: applied_def validated_def requested_def without_aor_def)
  qed (use assms(3) in \<open>simp add: applied_def\<close>)
  with d show ?thesis by simp
next
  case (step_expire c now r)
  then show ?thesis using expire_directory [OF assms(2) step_expire] assms(3)
    by (auto split: sum.splits)
qed

lemma reach_valid:
  assumes "(manager_step st)\<^sup>*\<^sup>* s s'" and "inv s" and "validated (bound s)"
  shows "inv s' \<and> validated (bound s')"
  using assms(1) by induction (use assms(2,3) step_valid in auto)

end

text \<open>A store whose reads fail only when their context is done.\<close>

locale answering_contract = registration_contract +
  assumes list_answers: "ctx_Err c = None \<Longrightarrow> \<exists>bs. st_ListActive st c t a now s = Inr bs"
begin

lemma resolve_answers:
  assumes "inv s" and "ctx_Err c = None"
  shows "(\<exists>b. manager_Resolve st c now t a s = Inr b) \<longleftrightarrow> bindings_of (bound s) t a now \<noteq> {}"
    and "manager_Resolve st c now t a s = Inl ErrNotFound \<longleftrightarrow> bindings_of (bound s) t a now = {}"
proof -
  obtain bs where l: "st_ListActive st c t a now s = Inr bs" using list_answers [OF assms(2)] by blast
  then have "set bs = bindings_of (bound s) t a now" using list_active [OF assms(1)] by simp
  with l show "(\<exists>b. manager_Resolve st c now t a s = Inr b) \<longleftrightarrow> bindings_of (bound s) t a now \<noteq> {}"
    and "manager_Resolve st c now t a s = Inl ErrNotFound \<longleftrightarrow> bindings_of (bound s) t a now = {}"
    by (cases bs; auto simp: manager_Resolve_def manager_List_def)+
qed

lemma register_resolve:
  assumes "inv s" and "manager_Apply st c now uuid rq s = (s', Inr b)" and "0 < rq_Expires rq"
    and "ctx_Err c' = None" and "now' < bi_ExpiresAt b"
  shows "\<exists>b'. manager_Resolve st c' now' (rq_TenantID rq) (rq_AoR rq) s' = Inr b' \<and>
     b' \<in> bindings_of (bound s') (rq_TenantID rq) (rq_AoR rq) now'"
proof -
  have d: "inv s' \<and> bound s' = (bound s)(key_of b \<mapsto> b)"
    using apply_directory [OF assms(1,2)] assms(3) by (simp add: applied_def)
  have "key_of b = (rq_TenantID rq, rq_AoR rq, rq_Contact rq)"
    using apply_requested [OF assms(2,3)] by (simp add: requested_def)
  then have "b \<in> bindings_of (bound s') (rq_TenantID rq) (rq_AoR rq) now'"
    using d assms(5) by (auto simp: bindings_of_def active_def)
  then obtain b' where "manager_Resolve st c' now' (rq_TenantID rq) (rq_AoR rq) s' = Inr b'"
    using resolve_answers(1) [of s' c'] d assms(4) by blast
  then show ?thesis using resolve_preferred(1) d by blast
qed

lemma unregister_resolve:
  assumes "inv s" and "manager_Apply st c now uuid rq s = (s', Inr b)" and "rq_Expires rq = 0"
    and "rq_Contact rq = ''*''" and "ctx_Err c' = None"
  shows "manager_Resolve st c' now' (rq_TenantID rq) (rq_AoR rq) s' = Inl ErrNotFound"
proof -
  have d: "inv s' \<and> bound s' = without_aor (rq_TenantID rq) (rq_AoR rq) (bound s)"
    using apply_directory [OF assms(1,2)] assms(3,4) by (simp add: applied_def)
  then have "bindings_of (bound s') (rq_TenantID rq) (rq_AoR rq) now' = {}"
    by (auto simp: bindings_of_def without_aor_def)
  then show ?thesis using resolve_answers(2) d assms(5) by blast
qed

end

end
