(* ===== verification/Memory_Store.thy ===== *)
theory Memory_Store
  imports Registration
begin

text \<open>
  \<open>internal/platform/memory/registration_store.go\<close>: the in-process registration store. Its map is
  an association list with one entry per key; every operation holds the store's lock, so it is one
  step. Go visits a map in an order it picks anew at every \<open>range\<close>: \<open>visit\<close> turns a list of picks
  into that order, and \<open>picks\<close> is a parameter of the one operation whose result shows it.
\<close>

subsection \<open>Operations\<close>

type_synonym memory = "(binding_key \<times> binding) list"

fun visit :: "nat list \<Rightarrow> 'a list \<Rightarrow> 'a list" where
  "visit ks [] = []"
| "visit [] xs = xs"
| "visit (k # ks) (x # xs) =
     (let i = k mod length (x # xs)
      in ((x # xs) ! i) # visit ks (take i (x # xs) @ drop (Suc i) (x # xs)))"

type_synonym picks = "memory \<Rightarrow> time \<Rightarrow> nat list"

definition of_aor :: "string \<Rightarrow> string \<Rightarrow> binding_key \<Rightarrow> bool" where
  "of_aor tenantID aor k \<longleftrightarrow> fst k = tenantID \<and> fst (snd k) = aor"

definition NewRegistrationStore :: memory where
  "NewRegistrationStore = []"

definition memory_Upsert :: "ctx \<Rightarrow> binding \<Rightarrow> int \<Rightarrow> memory \<Rightarrow> memory \<times> go_error option" where
  "memory_Upsert c b maxBindings s =
     (case ctx_Err c of
        Some e \<Rightarrow> (s, Some e)
      | None \<Rightarrow>
          (let key = (bi_TenantID b, bi_AoR b, bi_Contact b);
               activeCount = length (filter (\<lambda>(k, stored).
                 of_aor (bi_TenantID b) (bi_AoR b) k \<and> active (bi_UpdatedAt b) stored) s)
           in if map_of s key = None \<and> maxBindings \<le> int activeCount
              then (s, Some ErrBindingLimit)
              else (AList.update key b s, None)))"

definition memory_Delete :: "ctx \<Rightarrow> string \<Rightarrow> string \<Rightarrow> string \<Rightarrow> memory \<Rightarrow> memory \<times> go_error option" where
  "memory_Delete c tenantID aor contact s =
     (case ctx_Err c of
        Some e \<Rightarrow> (s, Some e)
      | None \<Rightarrow> (AList.delete (tenantID, aor, contact) s, None))"

definition memory_DeleteAll :: "ctx \<Rightarrow> string \<Rightarrow> string \<Rightarrow> memory \<Rightarrow> memory \<times> go_error option" where
  "memory_DeleteAll c tenantID aor s =
     (case ctx_Err c of
        Some e \<Rightarrow> (s, Some e)
      | None \<Rightarrow> (filter (\<lambda>(k, _). \<not> of_aor tenantID aor k) s, None))"

definition memory_ListActive ::
  "picks \<Rightarrow> ctx \<Rightarrow> string \<Rightarrow> string \<Rightarrow> time \<Rightarrow> memory \<Rightarrow> binding list result" where
  "memory_ListActive picks c tenantID aor now s =
     (case ctx_Err c of
        Some e \<Rightarrow> Inl e
      | None \<Rightarrow>
          Inr (map snd (filter (\<lambda>(k, b). of_aor tenantID aor k \<and> active now b) (visit (picks s now) s))))"

definition memory_DeleteExpired :: "ctx \<Rightarrow> time \<Rightarrow> memory \<Rightarrow> memory \<times> int result" where
  "memory_DeleteExpired c now s =
     (case ctx_Err c of
        Some e \<Rightarrow> (s, Inl e)
      | None \<Rightarrow> (filter (\<lambda>(_, b). active now b) s,
                Inr (int (length (filter (\<lambda>(_, b). \<not> active now b) s)))))"

definition memory_store :: "picks \<Rightarrow> memory registration_store" where
  "memory_store picks =
     \<lparr>st_Upsert = memory_Upsert, st_Delete = memory_Delete, st_DeleteAll = memory_DeleteAll,
      st_ListActive = memory_ListActive picks, st_DeleteExpired = memory_DeleteExpired\<rparr>"

subsection \<open>The store fulfils its contract\<close>

definition memory_inv :: "memory \<Rightarrow> bool" where
  "memory_inv s \<longleftrightarrow> distinct (map fst s) \<and> (\<forall>(k, b) \<in> set s. key_of b = k)"

lemma memory_store_sel [simp]:
  "st_Upsert (memory_store p) = memory_Upsert" "st_Delete (memory_store p) = memory_Delete"
  "st_DeleteAll (memory_store p) = memory_DeleteAll"
  "st_ListActive (memory_store p) = memory_ListActive p"
  "st_DeleteExpired (memory_store p) = memory_DeleteExpired"
  by (simp_all add: memory_store_def)

lemma mset_visit [simp]: "mset (visit ks xs) = mset xs"
proof (induction ks xs rule: visit.induct)
  case (3 k ks x xs)
  define i where "i = k mod length (x # xs)"
  then have i: "i < length (x # xs)" by simp
  then have "mset (x # xs) = add_mset ((x # xs) ! i) (mset (take i (x # xs) @ drop (Suc i) (x # xs)))"
    by (metis id_take_nth_drop mset.simps(2) mset_append union_mset_add_mset_right)
  then show ?case using 3 [OF i_def] by (simp add: Let_def i_def)
qed simp_all

lemma set_visit [simp]: "set (visit ks xs) = set xs"
  using mset_visit by (metis set_mset_mset)

lemma distinct_visit [simp]: "distinct (map f (visit ks xs)) = distinct (map f xs)"
  using mset_visit by (metis mset_map mset_eq_imp_distinct_iff)

lemma memory_inv_filter: "memory_inv s \<Longrightarrow> memory_inv (filter P s)"
  by (auto simp: memory_inv_def distinct_map_filter)

lemma memory_inv_update: "memory_inv s \<Longrightarrow> memory_inv (AList.update (key_of b) b s)"
  using set_update_subset by (fastforce simp: memory_inv_def distinct_update)

lemma memory_lookup:
  "memory_inv s \<Longrightarrow> map_of s k = Some b \<longleftrightarrow> (k, b) \<in> set s"
  by (simp add: memory_inv_def)

lemma memory_distinct:
  assumes "memory_inv s"
  shows "distinct (map snd s)"
proof -
  have "map fst s = map key_of (map snd s)" using assms by (auto simp: memory_inv_def)
  then show ?thesis using assms unfolding memory_inv_def by (metis distinct_map)
qed

lemma memory_bindings:
  assumes "memory_inv s"
  shows "bindings_of (map_of s) t a now = set (map snd (filter (\<lambda>(k, b). of_aor t a k \<and> active now b) s))"
  by (force simp: bindings_of_def memory_lookup [OF assms] of_aor_def)

lemma memory_bindings_card:
  assumes "memory_inv s"
  shows "card (bindings_of (map_of s) t a now) =
     length (filter (\<lambda>(k, b). of_aor t a k \<and> active now b) s)"
  unfolding memory_bindings [OF assms]
  using distinct_card [OF distinct_map_filter [OF memory_distinct [OF assms]]] by (simp only: length_map)

lemma memory_delete_filter: "AList.delete k s = filter (\<lambda>(k', _). k' \<noteq> k) s"
  by (auto simp: AList.delete_eq intro: filter_cong)

lemma map_of_filter_key: "map_of (filter (\<lambda>(k, _). P k) s) = (\<lambda>k. if P k then map_of s k else None)"
  by (induction s) auto

lemma memory_without_expired:
  assumes "memory_inv s"
  shows "map_of (filter (\<lambda>(_, b). active now b) s) = without_expired now (map_of s)"
proof
  fix k
  have inv: "memory_inv (filter (\<lambda>(_, b). active now b) s)" by (rule memory_inv_filter [OF assms])
  show "map_of (filter (\<lambda>(_, b). active now b) s) k = without_expired now (map_of s) k"
  proof (cases "map_of s k")
    case None
    then have "map_of (filter (\<lambda>(_, b). active now b) s) k = None"
      by (auto simp: map_of_eq_None_iff)
    then show ?thesis using None by (simp add: without_expired_def)
  next
    case (Some b)
    then have kb: "(k, b) \<in> set s" by (simp add: memory_lookup [OF assms])
    show ?thesis
    proof (cases "active now b")
      case True
      then have "map_of (filter (\<lambda>(_, b). active now b) s) k = Some b"
        using kb by (simp add: memory_lookup [OF inv])
      then show ?thesis using Some True by (simp add: without_expired_def)
    next
      case False
      have "map_of (filter (\<lambda>(_, b). active now b) s) k \<noteq> Some b'" for b'
        using memory_lookup [OF assms, of k b'] Some False by (auto simp: memory_lookup [OF inv])
      then show ?thesis using Some False by (auto simp: without_expired_def)
    qed
  qed
qed

lemma memory_expired_count:
  assumes "memory_inv s"
  shows "length (filter (\<lambda>(_, b). \<not> active now b) s) =
     card (dom (map_of s) - dom (without_expired now (map_of s)))"
proof -
  have "dom (map_of s) - dom (without_expired now (map_of s)) =
      set (map fst (filter (\<lambda>(_, b). \<not> active now b) s))"
    by (auto simp: without_expired_def memory_lookup [OF assms] dom_def split: option.splits if_splits)
      (force simp: memory_lookup [OF assms, symmetric])+
  moreover have "distinct (map fst (filter (\<lambda>(_, b). \<not> active now b) s))"
    using memory_inv_filter [OF assms] by (simp add: memory_inv_def)
  ultimately show ?thesis by (metis distinct_card length_map)
qed

interpretation memory: registration_contract "memory_store picks" map_of memory_inv for picks
proof
  fix s k b
  assume "memory_inv s" and "map_of s k = Some b"
  then show "key_of b = k" by (auto simp: memory_lookup memory_inv_def)
next
  fix s c b n s' r
  assume "memory_inv s" and "st_Upsert (memory_store picks) c b n s = (s', r)"
  then show "memory_inv s' \<and> map_of s' = (if r = None then (map_of s)(key_of b \<mapsto> b) else map_of s)"
    using memory_inv_update [of s b]
    by (auto simp: memory_Upsert_def update_conv' key_of_def Let_def split: option.splits if_splits)
next
  fix s c b n s'
  assume "memory_inv s" and "st_Upsert (memory_store picks) c b n s = (s', None)"
    and "map_of s (key_of b) = None"
  then show "int (card (bindings_of (map_of s) (bi_TenantID b) (bi_AoR b) (bi_UpdatedAt b))) < n"
    by (auto simp: memory_Upsert_def memory_bindings_card key_of_def Let_def split: option.splits if_splits)
next
  fix s c t a ct s' r
  assume "memory_inv s" and "st_Delete (memory_store picks) c t a ct s = (s', r)"
  then show "memory_inv s' \<and> map_of s' = (if r = None then (map_of s)((t, a, ct) := None) else map_of s)"
    using memory_inv_filter
    by (auto simp: memory_Delete_def memory_delete_filter map_of_filter_key split: option.splits)
next
  fix s c t a s' r
  assume "memory_inv s" and "st_DeleteAll (memory_store picks) c t a s = (s', r)"
  then show "memory_inv s' \<and> map_of s' = (if r = None then without_aor t a (map_of s) else map_of s)"
    using memory_inv_filter
    by (auto simp: memory_DeleteAll_def map_of_filter_key without_aor_def of_aor_def split: option.splits)
next
  fix s c t a now bs
  assume s: "memory_inv s" and "st_ListActive (memory_store picks) c t a now s = Inr bs"
  then have bs: "bs = map snd (filter (\<lambda>(k, b). of_aor t a k \<and> active now b) (visit (picks s now) s))"
    by (auto simp: memory_ListActive_def split: option.splits)
  have "distinct (map snd (visit (picks s now) s))" using memory_distinct [OF s] by simp
  then show "set bs = bindings_of (map_of s) t a now \<and> distinct bs"
    by (simp add: bs memory_bindings [OF s] distinct_map_filter)
next
  fix s c now s' r
  assume "memory_inv s" and "st_DeleteExpired (memory_store picks) c now s = (s', r)"
  then show "memory_inv s' \<and>
      map_of s' = (case r of Inl _ \<Rightarrow> map_of s | Inr _ \<Rightarrow> without_expired now (map_of s))"
    using memory_inv_filter memory_without_expired
    by (auto simp: memory_DeleteExpired_def split: option.splits)
next
  fix s c now s' n
  assume "memory_inv s" and "st_DeleteExpired (memory_store picks) c now s = (s', Inr n)"
  then show "n = int (card (dom (map_of s) - dom (map_of s')))"
    by (auto simp: memory_DeleteExpired_def memory_without_expired memory_expired_count split: option.splits)
qed

interpretation memory_reads: answering_contract "memory_store picks" map_of memory_inv for picks
  by unfold_locales (simp add: memory_ListActive_def)

subsection \<open>Properties of registration over the in-process store\<close>

lemma memory_reached:
  assumes "(manager_step (memory_store p))\<^sup>*\<^sup>* NewRegistrationStore s"
  shows "memory_inv s" and "validated (map_of s)"
  using memory.reach_valid [OF assms]
  by (simp_all add: NewRegistrationStore_def memory_inv_def validated_def)

text \<open>C23: after any sequence of registrations, removals and expiries, a request that registers a
  contact and succeeds makes its address of record resolvable until the binding expires: the
  binding stored is the one requested, and \<open>Resolve\<close> returns an unexpired binding of that address
  which no other unexpired binding of it is preferred to (unless a stored \<open>q\<close> is not a number).\<close>

theorem register_then_resolve:
  assumes "(manager_step (memory_store p))\<^sup>*\<^sup>* NewRegistrationStore s"
    and "manager_Apply (memory_store p) c now uuid rq s = (s', Inr b)" and "0 < rq_Expires rq"
    and "ctx_Err c' = None" and "now' < now + rq_Expires rq"
  shows "requested now rq b \<and>
     (\<exists>b'. manager_Resolve (memory_store p) c' now' (rq_TenantID rq) (rq_AoR rq) s' = Inr b' \<and>
        b' \<in> bindings_of (map_of s') (rq_TenantID rq) (rq_AoR rq) now' \<and>
        ((\<forall>x \<in> bindings_of (map_of s') (rq_TenantID rq) (rq_AoR rq) now'. bi_Q x \<noteq> NaN) \<longrightarrow>
         (\<forall>x \<in> bindings_of (map_of s') (rq_TenantID rq) (rq_AoR rq) now'. \<not> prefer_cmp x b' < 0)))"
proof -
  note inv = memory_reached(1) [OF assms(1)]
  have rq: "requested now rq b" using memory.apply_requested [OF assms(2,3)] by simp
  then have "now' < bi_ExpiresAt b" using assms(5) by (simp add: requested_def)
  then obtain b' where b': "manager_Resolve (memory_store p) c' now' (rq_TenantID rq) (rq_AoR rq) s' = Inr b'"
    "b' \<in> bindings_of (map_of s') (rq_TenantID rq) (rq_AoR rq) now'"
    using memory_reads.register_resolve [OF inv assms(2-4)] by blast
  have "memory_inv s'" using memory.apply_directory [OF inv assms(2)] by simp
  from memory.resolve_preferred(2) [OF this b'(1)] rq b' show ?thesis by blast
qed

text \<open>A request with \<open>Expires\<close> zero and contact \<open>*\<close> that succeeds leaves no binding of its
  address of record: resolving it reports \<open>ErrNotFound\<close> at every later time.\<close>

theorem unregister_all_then_resolve:
  assumes "(manager_step (memory_store p))\<^sup>*\<^sup>* NewRegistrationStore s"
    and "manager_Apply (memory_store p) c now uuid rq s = (s', Inr b)"
    and "rq_Expires rq = 0" and "rq_Contact rq = ''*''" and "ctx_Err c' = None"
  shows "manager_Resolve (memory_store p) c' now' (rq_TenantID rq) (rq_AoR rq) s' = Inl ErrNotFound"
  using memory_reads.unregister_resolve [OF memory_reached(1) [OF assms(1)] assms(2-5)] .

text \<open>A request touches only its own address of record: whatever it does, the bindings of every
  other tenant or address stay as they were, and every stored binding has passed validation.\<close>

theorem registration_isolated:
  assumes "(manager_step (memory_store p))\<^sup>*\<^sup>* NewRegistrationStore s"
    and "manager_Apply (memory_store p) c now uuid rq s = (s', r)"
    and "(t, a) \<noteq> (rq_TenantID rq, rq_AoR rq)"
  shows "bindings_of (map_of s') t a now' = bindings_of (map_of s) t a now' \<and> validated (map_of s')"
proof -
  note inv = memory_reached [OF assms(1)]
  have d: "map_of s' = applied rq r (map_of s)" using memory.apply_directory [OF inv(1) assms(2)] by simp
  have "map_of s' (t, a, ct) = map_of s (t, a, ct)" for ct
  proof (cases r)
    case (Inr b)
    then have "key_of b = (rq_TenantID rq, rq_AoR rq, rq_Contact rq)" if "0 < rq_Expires rq"
      using memory.apply_requested assms(2) that by (fastforce simp: requested_def)
    then show ?thesis using Inr assms(3) d by (auto simp: applied_def without_aor_def)
  qed (use d in \<open>simp add: applied_def\<close>)
  then have "bindings_of (map_of s') t a now' = bindings_of (map_of s) t a now'"
    by (simp add: bindings_of_def)
  moreover have "validated (map_of s')"
    using memory.step_valid [OF step_apply [OF assms(2)] inv] by simp
  ultimately show ?thesis by simp
qed

text \<open>Expiring removes exactly the bindings whose expiration is not after the clock's reading:
  it reports how many entries went, keeps every other one, and no resolution from then on can
  tell the difference.\<close>

theorem expire_unobservable:
  assumes "(manager_step (memory_store p))\<^sup>*\<^sup>* NewRegistrationStore s"
    and "manager_Expire (memory_store p) c now s = (s', Inr n)" and "now \<le> now'"
  shows "(\<forall>(k, b) \<in> set s'. active now b) \<and> int (length s) = int (length s') + n \<and>
     bindings_of (map_of s') t a now' = bindings_of (map_of s) t a now'"
proof -
  have s': "s' = filter (\<lambda>(_, b). active now b) s" "n = int (length (filter (\<lambda>(_, b). \<not> active now b) s))"
    using assms(2) by (auto simp: manager_Expire_def memory_DeleteExpired_def split: option.splits)
  have "int (length s) = int (length s') + n"
    using sum_length_filter_compl [of "\<lambda>(_, b). active now b" s] by (simp add: s' split_def)
  moreover have "bindings_of (map_of s') t a now' = bindings_of (map_of s) t a now'"
    using memory_without_expired [OF memory_reached(1) [OF assms(1)]] assms(3)
    by (auto simp: s'(1) bindings_of_def without_expired_def active_def split: option.splits if_splits)
  ultimately show ?thesis by (auto simp: s'(1))
qed

text \<open>The device limit. With a live context, storing a binding of a contact that has no entry
  yet succeeds exactly when fewer than \<open>maxBindings\<close> bindings of its address are unexpired, and
  otherwise reports \<open>ErrBindingLimit\<close> and changes nothing; a contact that has an entry is always
  refreshed.\<close>

theorem upsert_limit:
  assumes "(manager_step (memory_store p))\<^sup>*\<^sup>* NewRegistrationStore s" and "ctx_Err c = None"
  shows "memory_Upsert c b n s =
     (if map_of s (key_of b) = None \<and>
         n \<le> int (card (bindings_of (map_of s) (bi_TenantID b) (bi_AoR b) (bi_UpdatedAt b)))
      then (s, Some ErrBindingLimit) else (AList.update (key_of b) b s, None))"
  using assms(2)
  by (simp add: memory_Upsert_def memory_bindings_card [OF memory_reached(1) [OF assms(1)]] key_of_def Let_def)

subsection \<open>A concrete directory\<close>

definition sample_request :: request where
  "sample_request =
     \<lparr>rq_TenantID = ''t'', rq_AoR = ''sip:bob@pbx'', rq_Contact = ''sip:bob@h1'', rq_RouteTarget = ''h1:5060'',
      rq_Transport = ''udp'', rq_Received = AddrPortFrom (Addr4 1) 5060, rq_UserAgent = '''',
      rq_Q = Fin 1, rq_Expires = 60, rq_MaxBindings = 1\<rparr>"

definition sample_binding :: binding where
  "sample_binding =
     \<lparr>bi_ID = ''id'', bi_TenantID = ''t'', bi_AoR = ''sip:bob@pbx'', bi_Contact = ''sip:bob@h1'',
      bi_RouteTarget = ''h1:5060'', bi_Transport = ''udp'', bi_Received = AddrPortFrom (Addr4 1) 5060,
      bi_UserAgent = '''', bi_Q = Fin 1, bi_ExpiresAt = 160, bi_UpdatedAt = 100\<rparr>"

definition sample_memory :: memory where
  "sample_memory = [((''t'', ''sip:bob@pbx'', ''sip:bob@h1''), sample_binding)]"

definition sample_picks :: picks where
  "sample_picks s now = []"

lemma sample_Apply:
  "manager_Apply (memory_store sample_picks) context_Background 100 (Inr ''id'') sample_request NewRegistrationStore =
     (sample_memory, Inr sample_binding)"
  by (simp add: manager_Apply_def binding_Validate_def memory_Upsert_def context_Background_def
      sample_request_def sample_binding_def sample_memory_def NewRegistrationStore_def
      TransportUDP_def ap_IsValid_def Let_def)

lemma sample_directory:
  "(manager_step (memory_store sample_picks))\<^sup>*\<^sup>* NewRegistrationStore sample_memory"
  using step_apply [OF sample_Apply] by simp

definition sample_clear :: request where
  "sample_clear = sample_request\<lparr>rq_Contact := ''*'', rq_Expires := 0\<rparr>"

lemma sample_Clear:
  "manager_Apply (memory_store sample_picks) context_Background 120 (Inr ''id'') sample_clear sample_memory =
     ([], Inr binding_zero)"
  by (simp add: manager_Apply_def memory_DeleteAll_def removal_def of_aor_def context_Background_def
      sample_request_def sample_clear_def sample_memory_def)

theorem register_then_resolve_witness:
  "requested 100 sample_request sample_binding \<and>
   (\<exists>b'. manager_Resolve (memory_store sample_picks) context_Background 120 ''t'' ''sip:bob@pbx'' sample_memory = Inr b' \<and>
      b' \<in> bindings_of (map_of sample_memory) ''t'' ''sip:bob@pbx'' 120)"
  using register_then_resolve [OF rtranclp.rtrancl_refl sample_Apply, of context_Background 120]
  by (auto simp: context_Background_def sample_request_def)

theorem unregister_all_then_resolve_witness:
  "manager_Resolve (memory_store sample_picks) context_Background 130 ''t'' ''sip:bob@pbx'' [] = Inl ErrNotFound"
  using unregister_all_then_resolve [OF sample_directory sample_Clear, of context_Background 130]
  by (simp add: context_Background_def sample_request_def sample_clear_def)

theorem registration_isolated_witness:
  "bindings_of (map_of ([] :: memory)) ''u'' ''sip:bob@pbx'' 120 = bindings_of (map_of sample_memory) ''u'' ''sip:bob@pbx'' 120 \<and>
   validated (map_of ([] :: memory))"
  using registration_isolated [OF sample_directory sample_Clear, of "''u''" "''sip:bob@pbx''" 120]
  by (simp add: sample_request_def sample_clear_def)

lemma sample_Expire:
  "manager_Expire (memory_store sample_picks) context_Background 200 sample_memory = ([], Inr 1)"
  by (simp add: manager_Expire_def memory_DeleteExpired_def active_def context_Background_def
      sample_memory_def sample_binding_def)

theorem expire_unobservable_witness:
  "int (length sample_memory) = int (length ([] :: memory)) + 1 \<and>
   bindings_of (map_of ([] :: memory)) ''t'' ''sip:bob@pbx'' 200 =
     bindings_of (map_of sample_memory) ''t'' ''sip:bob@pbx'' 200"
  using expire_unobservable [OF sample_directory sample_Expire, of 200 "''t''" "''sip:bob@pbx''"] by simp

theorem upsert_limit_witness:
  "memory_Upsert context_Background (sample_binding\<lparr>bi_Contact := ''sip:bob@h2''\<rparr>) 1 sample_memory =
     (sample_memory, Some ErrBindingLimit)"
proof -
  let ?b = "sample_binding\<lparr>bi_Contact := ''sip:bob@h2''\<rparr>"
  have none: "map_of sample_memory (key_of ?b) = None"
    by (simp add: sample_memory_def key_of_def sample_binding_def)
  have one: "bindings_of (map_of sample_memory) (bi_TenantID ?b) (bi_AoR ?b) (bi_UpdatedAt ?b) = {sample_binding}"
    by (auto simp: bindings_of_def sample_memory_def sample_binding_def active_def split: if_splits)
  show ?thesis
    using upsert_limit [OF sample_directory, of context_Background ?b 1] none one
    by (simp add: context_Background_def)
qed


end
