(* ===== verification/Go_Crypto.thy ===== *)
theory Go_Crypto
  imports Go_Strings
begin

unbundle bit_operations_syntax

text \<open>
  The encodings and digests of Go's standard library that the SIP authenticator calls:
  \<open>encoding/binary\<close> (big-endian 64-bit integers), \<open>encoding/base64\<close> (\<open>RawURLEncoding\<close>),
  \<open>encoding/hex\<close>, \<open>crypto/sha256\<close>, \<open>crypto/hmac\<close> and \<open>crypto/md5\<close>, all executable over lists of
  bytes. What the proofs use of them is that decoding inverts encoding and the lengths of the
  results; no cryptographic strength is assumed anywhere.
\<close>

type_synonym byte = "8 word"
type_synonym word32 = "32 word"

subsection \<open>Strings as bytes\<close>

definition char_byte :: "char \<Rightarrow> byte" where
  "char_byte c = of_nat (of_char c)"

definition string_bytes :: "string \<Rightarrow> byte list" where
  "string_bytes = map char_byte"

subsection \<open>Big-endian integers\<close>

fun be_bytes :: "nat \<Rightarrow> nat \<Rightarrow> byte list" where
  "be_bytes 0 n = []"
| "be_bytes (Suc k) n = be_bytes k (n div 256) @ [of_nat (n mod 256)]"

definition be_value :: "byte list \<Rightarrow> nat" where
  "be_value bs = foldl (\<lambda>n b. 256 * n + unat b) 0 bs"

definition PutUint64 :: "64 word \<Rightarrow> byte list" where
  "PutUint64 w = be_bytes 8 (unat w)"

definition Uint64 :: "byte list \<Rightarrow> 64 word" where
  "Uint64 bs = of_nat (be_value bs)"

subsection \<open>Base 64 without padding\<close>

definition b64_alphabet :: string where
  "b64_alphabet = ''ABCDEFGHIJKLMNOPQRSTUVWXYZabcdefghijklmnopqrstuvwxyz0123456789-_''"

fun b64_sextets :: "byte list \<Rightarrow> nat list" where
  "b64_sextets [] = []"
| "b64_sextets [a] = [unat a div 4, unat a mod 4 * 16]"
| "b64_sextets [a, b] = [unat a div 4, unat a mod 4 * 16 + unat b div 16, unat b mod 16 * 4]"
| "b64_sextets (a # b # c # r) =
     unat a div 4 # (unat a mod 4 * 16 + unat b div 16) # (unat b mod 16 * 4 + unat c div 64)
       # unat c mod 64 # b64_sextets r"

definition EncodeToString :: "byte list \<Rightarrow> string" where
  "EncodeToString bs = map (\<lambda>n. b64_alphabet ! n) (b64_sextets bs)"

fun index_of :: "'a \<Rightarrow> 'a list \<Rightarrow> nat option" where
  "index_of x [] = None"
| "index_of x (y # ys) = (if x = y then Some 0 else map_option Suc (index_of x ys))"

fun b64_bytes :: "nat list \<Rightarrow> byte list option" where
  "b64_bytes [] = Some []"
| "b64_bytes [a] = None"
| "b64_bytes [a, b] = Some [of_nat (a * 4 + b div 16)]"
| "b64_bytes [a, b, c] = Some [of_nat (a * 4 + b div 16), of_nat (b mod 16 * 16 + c div 4)]"
| "b64_bytes (a # b # c # d # r) =
     map_option (\<lambda>bs. of_nat (a * 4 + b div 16) # of_nat (b mod 16 * 16 + c div 4)
                        # of_nat (c mod 4 * 64 + d) # bs) (b64_bytes r)"

text \<open>
  The decoder skips carriage returns and newlines, refuses every other character outside the
  alphabet and a final quantum of one character, and ignores the unused low bits of the last one.
\<close>

definition DecodeString :: "string \<Rightarrow> byte list option" where
  "DecodeString s =
     (let cs = filter (\<lambda>c. c \<noteq> CHR 0x0D \<and> c \<noteq> CHR 0x0A) s;
          ds = map (\<lambda>c. index_of c b64_alphabet) cs
      in if None \<in> set ds then None else b64_bytes (map the ds))"

subsection \<open>Hexadecimal\<close>

definition hex_digit :: "nat \<Rightarrow> char" where
  "hex_digit n = ''0123456789abcdef'' ! n"

definition hex_EncodeToString :: "byte list \<Rightarrow> string" where
  "hex_EncodeToString bs = concat (map (\<lambda>b. [hex_digit (unat b div 16), hex_digit (unat b mod 16)]) bs)"

subsection \<open>SHA-256 and HMAC\<close>

definition sha256_K :: "word32 list" where
  "sha256_K =
     [0x428A2F98, 0x71374491, 0xB5C0FBCF, 0xE9B5DBA5, 0x3956C25B, 0x59F111F1, 0x923F82A4,
      0xAB1C5ED5, 0xD807AA98, 0x12835B01, 0x243185BE, 0x550C7DC3, 0x72BE5D74, 0x80DEB1FE,
      0x9BDC06A7, 0xC19BF174, 0xE49B69C1, 0xEFBE4786, 0x0FC19DC6, 0x240CA1CC, 0x2DE92C6F,
      0x4A7484AA, 0x5CB0A9DC, 0x76F988DA, 0x983E5152, 0xA831C66D, 0xB00327C8, 0xBF597FC7,
      0xC6E00BF3, 0xD5A79147, 0x06CA6351, 0x14292967, 0x27B70A85, 0x2E1B2138, 0x4D2C6DFC,
      0x53380D13, 0x650A7354, 0x766A0ABB, 0x81C2C92E, 0x92722C85, 0xA2BFE8A1, 0xA81A664B,
      0xC24B8B70, 0xC76C51A3, 0xD192E819, 0xD6990624, 0xF40E3585, 0x106AA070, 0x19A4C116,
      0x1E376C08, 0x2748774C, 0x34B0BCB5, 0x391C0CB3, 0x4ED8AA4A, 0x5B9CCA4F, 0x682E6FF3,
      0x748F82EE, 0x78A5636F, 0x84C87814, 0x8CC70208, 0x90BEFFFA, 0xA4506CEB, 0xBEF9A3F7,
      0xC67178F2]"

definition sha256_init :: "word32 list" where
  "sha256_init =
     [0x6A09E667, 0xBB67AE85, 0x3C6EF372, 0xA54FF53A,
      0x510E527F, 0x9B05688C, 0x1F83D9AB, 0x5BE0CD19]"

text \<open>
  The padding of a message of \<open>n\<close> bytes: a bit one, zeros up to 56 modulo 64, and the bit length as
  a 64-bit integer.
\<close>

definition md_zeros :: "nat \<Rightarrow> nat" where
  "md_zeros n = (119 - n mod 64) mod 64"

definition sha256_pad :: "byte list \<Rightarrow> byte list" where
  "sha256_pad m = m @ 0x80 # replicate (md_zeros (length m)) 0 @ be_bytes 8 (8 * length m mod 2 ^ 64)"

fun chunks :: "nat \<Rightarrow> nat \<Rightarrow> 'a list \<Rightarrow> 'a list list" where
  "chunks k 0 xs = []"
| "chunks k (Suc n) xs = take k xs # chunks k n (drop k xs)"

definition be_word :: "byte list \<Rightarrow> word32" where
  "be_word bs = of_nat (be_value bs)"

definition sha256_extend :: "word32 list \<Rightarrow> nat \<Rightarrow> word32 list" where
  "sha256_extend w i =
     (let x = w ! (i - 15); y = w ! (i - 2);
          s0 = word_rotr 7 x XOR word_rotr 18 x XOR drop_bit 3 x;
          s1 = word_rotr 17 y XOR word_rotr 19 y XOR drop_bit 10 y
      in w @ [w ! (i - 16) + s0 + w ! (i - 7) + s1])"

definition sha256_round :: "word32 list \<Rightarrow> word32 list \<Rightarrow> nat \<Rightarrow> word32 list" where
  "sha256_round w st i =
     (let a = st ! 0; b = st ! 1; c = st ! 2; d = st ! 3; e = st ! 4; f = st ! 5; g = st ! 6; h = st ! 7;
          t1 = h + (word_rotr 6 e XOR word_rotr 11 e XOR word_rotr 25 e)
                 + ((e AND f) XOR (NOT e AND g)) + sha256_K ! i + w ! i;
          t2 = (word_rotr 2 a XOR word_rotr 13 a XOR word_rotr 22 a)
                 + ((a AND b) XOR (a AND c) XOR (b AND c))
      in [t1 + t2, a, b, c, d + t1, e, f, g])"

definition sha256_block :: "word32 list \<Rightarrow> byte list \<Rightarrow> word32 list" where
  "sha256_block st blk =
     (let w = foldl sha256_extend (map be_word (chunks 4 16 blk)) [16..<64]
      in map2 (+) st (foldl (sha256_round w) st [0..<64]))"

definition sha256_Sum :: "byte list \<Rightarrow> byte list" where
  "sha256_Sum m =
     (let p = sha256_pad m
      in concat (map (\<lambda>w. be_bytes 4 (unat w))
           (foldl sha256_block sha256_init (chunks 64 (length p div 64) p))))"

definition hmac_sha256 :: "byte list \<Rightarrow> byte list \<Rightarrow> byte list" where
  "hmac_sha256 key m =
     (let k = (if 64 < length key then sha256_Sum key else key);
          k' = k @ replicate (64 - length k) 0
      in sha256_Sum (map (\<lambda>b. b XOR 0x5C) k' @ sha256_Sum (map (\<lambda>b. b XOR 0x36) k' @ m)))"

subsection \<open>MD5\<close>

definition md5_T :: "word32 list" where
  "md5_T =
     [0xD76AA478, 0xE8C7B756, 0x242070DB, 0xC1BDCEEE, 0xF57C0FAF, 0x4787C62A, 0xA8304613,
      0xFD469501, 0x698098D8, 0x8B44F7AF, 0xFFFF5BB1, 0x895CD7BE, 0x6B901122, 0xFD987193,
      0xA679438E, 0x49B40821, 0xF61E2562, 0xC040B340, 0x265E5A51, 0xE9B6C7AA, 0xD62F105D,
      0x02441453, 0xD8A1E681, 0xE7D3FBC8, 0x21E1CDE6, 0xC33707D6, 0xF4D50D87, 0x455A14ED,
      0xA9E3E905, 0xFCEFA3F8, 0x676F02D9, 0x8D2A4C8A, 0xFFFA3942, 0x8771F681, 0x6D9D6122,
      0xFDE5380C, 0xA4BEEA44, 0x4BDECFA9, 0xF6BB4B60, 0xBEBFBC70, 0x289B7EC6, 0xEAA127FA,
      0xD4EF3085, 0x04881D05, 0xD9D4D039, 0xE6DB99E5, 0x1FA27CF8, 0xC4AC5665, 0xF4292244,
      0x432AFF97, 0xAB9423A7, 0xFC93A039, 0x655B59C3, 0x8F0CCC92, 0xFFEFF47D, 0x85845DD1,
      0x6FA87E4F, 0xFE2CE6E0, 0xA3014314, 0x4E0811A1, 0xF7537E82, 0xBD3AF235, 0x2AD7D2BB,
      0xEB86D391]"

definition md5_shift :: "nat \<Rightarrow> nat" where
  "md5_shift i =
     [[7, 12, 17, 22], [5, 9, 14, 20], [4, 11, 16, 23], [6, 10, 15, 21]] ! (i div 16) ! (i mod 4)"

definition md5_pad :: "byte list \<Rightarrow> byte list" where
  "md5_pad m =
     m @ 0x80 # replicate (md_zeros (length m)) 0 @ rev (be_bytes 8 (8 * length m mod 2 ^ 64))"

definition md5_round :: "word32 list \<Rightarrow> word32 list \<Rightarrow> nat \<Rightarrow> word32 list" where
  "md5_round x st i =
     (let a = st ! 0; b = st ! 1; c = st ! 2; d = st ! 3;
          fg = (if i < 16 then ((b AND c) OR (NOT b AND d), i)
                else if i < 32 then ((d AND b) OR (NOT d AND c), (5 * i + 1) mod 16)
                else if i < 48 then (b XOR c XOR d, (3 * i + 5) mod 16)
                else (c XOR (b OR NOT d), 7 * i mod 16))
      in [d, b + word_rotl (md5_shift i) (a + fst fg + md5_T ! i + x ! snd fg), b, c])"

definition md5_block :: "word32 list \<Rightarrow> byte list \<Rightarrow> word32 list" where
  "md5_block st blk =
     map2 (+) st (foldl (md5_round (map (be_word \<circ> rev) (chunks 4 16 blk))) st [0..<64])"

definition md5_Sum :: "byte list \<Rightarrow> byte list" where
  "md5_Sum m =
     (let p = md5_pad m
      in concat (map (\<lambda>w. rev (be_bytes 4 (unat w)))
           (foldl md5_block [0x67452301, 0xEFCDAB89, 0x98BADCFE, 0x10325476]
              (chunks 64 (length p div 64) p))))"

subsection \<open>Round trips and lengths\<close>

lemma length_be_bytes [simp]: "length (be_bytes k n) = k"
  by (induction k arbitrary: n) simp_all

lemma be_value_snoc: "be_value (bs @ [b]) = 256 * be_value bs + unat b"
  by (simp add: be_value_def)

lemma be_value_bytes: "n < 256 ^ k \<Longrightarrow> be_value (be_bytes k n) = n"
proof (induction k arbitrary: n)
  case 0
  then show ?case by (simp add: be_value_def)
next
  case (Suc k)
  then have "n div 256 < 256 ^ k" by (simp add: less_mult_imp_div_less mult.commute)
  moreover have "unat (of_nat (n mod 256) :: byte) = n mod 256" by (simp add: unat_of_nat)
  ultimately show ?case using Suc.IH by (simp add: be_value_snoc)
qed

lemma Uint64_PutUint64 [simp]: "Uint64 (PutUint64 w) = w"
proof -
  have "unat w < 256 ^ 8" using unsigned_less [of w] by simp
  then show ?thesis by (simp add: Uint64_def PutUint64_def be_value_bytes)
qed

lemma length_PutUint64 [simp]: "length (PutUint64 w) = 8"
  by (simp add: PutUint64_def)

lemma unat_byte: "unat (b :: byte) < 256"
  using unsigned_less [of b] by simp

lemma b64_sextets_bound: "n \<in> set (b64_sextets bs) \<Longrightarrow> n < 64"
proof (induction bs rule: b64_sextets.induct)
  case (2 a)
  then show ?case using unat_byte [of a] by auto
next
  case (3 a b)
  then show ?case using unat_byte [of a] unat_byte [of b] by auto
next
  case (4 a b c r)
  then show ?case using unat_byte [of a] unat_byte [of b] unat_byte [of c] by auto
qed simp

lemma b64_first: "of_nat (unat a div 4 * 4 + (unat (a :: byte) mod 4 * 16 + unat (b :: byte) div 16) div 16) = a"
proof -
  have "unat b div 16 < 16" using unat_byte [of b] by linarith
  then have "unat a div 4 * 4 + (unat a mod 4 * 16 + unat b div 16) div 16 = unat a" by simp
  then show ?thesis by simp
qed

lemma b64_second:
  "of_nat ((unat (a :: byte) mod 4 * 16 + unat (b :: byte) div 16) mod 16 * 16
             + (unat b mod 16 * 4 + unat (c :: byte) div 64) div 4) = b"
proof -
  have "unat b div 16 < 16" "unat c div 64 < 4" using unat_byte [of b] unat_byte [of c] by linarith+
  then have "(unat a mod 4 * 16 + unat b div 16) mod 16 * 16 + (unat b mod 16 * 4 + unat c div 64) div 4 = unat b"
    by simp
  then show ?thesis by simp
qed

lemma b64_third:
  "of_nat ((unat (b :: byte) mod 16 * 4 + unat (c :: byte) div 64) mod 4 * 64 + unat c mod 64) = c"
proof -
  have "unat c div 64 < 4" using unat_byte [of c] by linarith
  then have "(unat b mod 16 * 4 + unat c div 64) mod 4 * 64 + unat c mod 64 = unat c" by simp
  then show ?thesis by simp
qed

lemma b64_bytes_sextets: "b64_bytes (b64_sextets bs) = Some bs"
proof (induction bs rule: b64_sextets.induct)
  case (2 a)
  then show ?case using b64_first [of a 0] by simp
next
  case (3 a b)
  then show ?case using b64_first [of a b] b64_second [of a b 0] by simp
next
  case (4 a b c r)
  then show ?case
    by (simp only: b64_sextets.simps b64_bytes.simps option.map b64_first b64_second b64_third)
qed simp

lemma index_of_nth: "distinct xs \<Longrightarrow> n < length xs \<Longrightarrow> index_of (xs ! n) xs = Some n"
  by (induction xs arbitrary: n) (auto simp: nth_Cons split: nat.splits)

lemma b64_alphabet_facts:
  "distinct b64_alphabet" "length b64_alphabet = 64"
  "CHR 0x0D \<notin> set b64_alphabet" "CHR 0x0A \<notin> set b64_alphabet"
  by (simp_all add: b64_alphabet_def)

lemma DecodeString_EncodeToString [simp]: "DecodeString (EncodeToString bs) = Some bs"
proof -
  let ?cs = "map (\<lambda>n. b64_alphabet ! n) (b64_sextets bs)"
  have mem: "c \<in> set b64_alphabet" if "c \<in> set ?cs" for c
    using that b64_sextets_bound b64_alphabet_facts(2) by auto
  have "filter (\<lambda>c. c \<noteq> CHR 0x0D \<and> c \<noteq> CHR 0x0A) ?cs = ?cs"
    by (rule filter_True) (use mem b64_alphabet_facts(3,4) in blast)
  moreover have "map (\<lambda>c. index_of c b64_alphabet) ?cs = map Some (b64_sextets bs)"
    by (simp add: b64_sextets_bound index_of_nth b64_alphabet_facts)
  moreover have "None \<notin> set (map Some (b64_sextets bs))" "map the (map Some (b64_sextets bs)) = b64_sextets bs"
    by (auto simp: comp_def)
  ultimately show ?thesis
    by (simp only: DecodeString_def EncodeToString_def Let_def b64_bytes_sextets if_False)
qed

lemma length_foldl_step:
  "(\<And>st x. length st = n \<Longrightarrow> length (f st x) = n) \<Longrightarrow> length st = n \<Longrightarrow> length (foldl f st xs) = n"
  by (induction xs arbitrary: st) simp_all

lemma length_concat_blocks: "(\<And>x. length (f x) = k) \<Longrightarrow> length (concat (map f xs)) = k * length xs"
  by (induction xs) simp_all

lemma length_four: "length [a, b, c, d] = 4" and length_eight: "length [a, b, c, d, e, f, g, h] = 8"
  by simp_all

lemma length_sha256_round: "length (sha256_round w st i) = 8"
  unfolding sha256_round_def Let_def by (rule length_eight)

lemma length_md5_round: "length (md5_round x st i) = 4"
  unfolding md5_round_def Let_def by (rule length_four)

lemma length_sha256_block: "length st = 8 \<Longrightarrow> length (sha256_block st blk) = 8"
  unfolding sha256_block_def Let_def
  by (simp only: length_map length_zip length_foldl_step [where n = 8, OF length_sha256_round] min.idem)

lemma length_sha256_state: "length (foldl sha256_block sha256_init bs) = 8"
  by (rule length_foldl_step [OF length_sha256_block]) (simp_all add: sha256_init_def)

lemma length_sha256 [simp]: "length (sha256_Sum m) = 32"
  unfolding sha256_Sum_def Let_def
  by (simp only: length_concat_blocks [where k = 4, OF length_be_bytes] length_sha256_state)

lemma length_hmac [simp]: "length (hmac_sha256 key m) = 32"
  by (simp add: hmac_sha256_def Let_def)

lemma length_md5_block: "length st = 4 \<Longrightarrow> length (md5_block st blk) = 4"
  unfolding md5_block_def
  by (simp only: length_map length_zip length_foldl_step [where n = 4, OF length_md5_round] min.idem)

lemma length_md5_state:
  "length (foldl md5_block [0x67452301, 0xEFCDAB89, 0x98BADCFE, 0x10325476] bs) = 4"
  by (rule length_foldl_step [OF length_md5_block]) simp_all

lemma length_md5 [simp]: "length (md5_Sum m) = 16"
proof -
  have "length (rev (be_bytes 4 (unat w))) = 4" for w :: word32 by simp
  then show ?thesis
    unfolding md5_Sum_def Let_def
    by (simp only: length_concat_blocks [where k = 4] length_md5_state)
qed

lemma length_hex [simp]: "length (hex_EncodeToString bs) = 2 * length bs"
  by (simp add: hex_EncodeToString_def length_concat_blocks [where k = 2])

end
