(* ===== verification/Digest_Auth.thy ===== *)
theory Digest_Auth
  imports Go_Crypto
begin

text \<open>
  The SIP Digest authenticator (\<open>src/internal/sip/auth/digest.go\<close>) and the in-memory credential
  store (\<open>src/internal/platform/memory/credential_store.go\<close>). A nonce is a time stamp and sixteen
  random bytes under an HMAC; the authenticator keeps no record of the nonces it hands out, only a
  bounded cache of the highest nonce count it accepted per nonce and user.

  The package \<open>github.com/icholy/digest\<close> is a parameter (\<open>digest_pkg\<close>): how a header is parsed and
  printed and how a response is computed. A clock reading is an argument of the operation that makes
  it; \<open>crypto/rand\<close> is the bytes it returns, or its error.
\<close>

subsection \<open>Data\<close>

definition nonceRandomBytes :: nat where "nonceRandomBytes = 16"
definition nonceMACBytes :: nat where "nonceMACBytes = 32"
definition nonceTimeBytes :: nat where "nonceTimeBytes = 8"

definition ErrMissingCredentials :: go_error where
  "ErrMissingCredentials = Sentinel ''digest credentials missing''"

definition ErrInvalidCredentials :: go_error where
  "ErrInvalidCredentials = Sentinel ''digest credentials invalid''"

definition ErrStaleNonce :: go_error where
  "ErrStaleNonce = Sentinel ''digest nonce stale''"

definition ErrReplay :: go_error where
  "ErrReplay = Sentinel ''digest nonce replay detected''"

definition ErrReplayCapacity :: go_error where
  "ErrReplayCapacity = Sentinel ''digest replay cache capacity reached''"

record credential =
  cred_TenantID :: string
  cred_Username :: string
  cred_Realm :: string
  cred_HA1 :: string
  cred_MaxBindings :: int

type_synonym lookup_credential = "ctx \<Rightarrow> string \<Rightarrow> string \<Rightarrow> credential result"

record auth_config =
  ac_Realm :: string
  ac_NonceSecret :: "byte list"
  ac_NonceTTL :: duration
  ac_MaxReplayEntries :: int

type_synonym replay_key = "string \<times> string"

record replay_entry =
  maxNonceCount :: int
  re_expiresAt :: time

type_synonym replay_cache = "(replay_key \<times> replay_entry) list"

record authenticator =
  auth_cfg :: auth_config
  auth_replay :: replay_cache

subsection \<open>The digest package\<close>

record digest_challenge =
  dch_Realm :: string
  dch_Nonce :: string
  dch_Algorithm :: string
  dch_QOP :: "string list"
  dch_Stale :: bool

record digest_options =
  do_Method :: string
  do_URI :: string
  do_Username :: string
  do_A1 :: string
  do_Count :: int
  do_Cnonce :: string

record digest_credentials =
  dc_Username :: string
  dc_Realm :: string
  dc_Nonce :: string
  dc_URI :: string
  dc_Response :: string
  dc_Algorithm :: string
  dc_Cnonce :: string
  dc_QOP :: string
  dc_Nc :: int

record digest_pkg =
  ParseCredentials :: "string \<Rightarrow> digest_credentials result"
  Digest :: "digest_challenge \<Rightarrow> digest_options \<Rightarrow> digest_credentials result"
  challenge_String :: "digest_challenge \<Rightarrow> string"

subsection \<open>Construction and challenges\<close>

definition auth_New :: "auth_config \<Rightarrow> 's option \<Rightarrow> 'c option \<Rightarrow> authenticator result" where
  "auth_New cfg store clock =
     (if ac_Realm cfg = [] then Inl (Errorf ''digest realm is required'')
      else if length (ac_NonceSecret cfg) < 32 then Inl (Errorf ''nonce secret must contain at least 32 bytes'')
      else if ac_NonceTTL cfg \<le> 0 then Inl (Errorf ''nonce TTL must be positive'')
      else if ac_MaxReplayEntries cfg \<le> 0 then Inl (Errorf ''max replay entries must be positive'')
      else if store = None then Inl (Errorf ''credential store is required'')
      else if clock = None then Inl (Errorf ''clock is required'')
      else Inr \<lparr>auth_cfg = cfg, auth_replay = []\<rparr>)"

text \<open>Unix seconds as the \<open>uint64\<close> that is written, and the instant an \<open>int64\<close> of seconds names.\<close>

definition time_to_unix :: "time \<Rightarrow> 64 word" where
  "time_to_unix t = word_of_int (t div Second) - 62135596800"

definition time_Unix :: "64 word \<Rightarrow> time" where
  "time_Unix w = sint (w + 62135596800) * Second"

definition issueNonce :: "auth_config \<Rightarrow> time \<Rightarrow> go_error + (nat \<Rightarrow> byte) \<Rightarrow> string result" where
  "issueNonce cfg now random =
     (case random of
        Inl err \<Rightarrow> Inl (Wrapf ''generate nonce randomness: %w'' err)
      | Inr rnd \<Rightarrow>
          let payload = PutUint64 (time_to_unix now) @ map rnd [0..<nonceRandomBytes]
          in Inr (EncodeToString (payload @ hmac_sha256 (ac_NonceSecret cfg) payload)))"

definition Challenge ::
  "digest_pkg \<Rightarrow> authenticator \<Rightarrow> time \<Rightarrow> go_error + (nat \<Rightarrow> byte) \<Rightarrow> bool \<Rightarrow> string result" where
  "Challenge pkg a now random stale =
     (case issueNonce (auth_cfg a) now random of
        Inl err \<Rightarrow> Inl err
      | Inr nonce \<Rightarrow>
          Inr (challenge_String pkg
                 \<lparr>dch_Realm = ac_Realm (auth_cfg a), dch_Nonce = nonce, dch_Algorithm = ''MD5'',
                  dch_QOP = [''auth''], dch_Stale = stale\<rparr>))"

definition validateNonce :: "auth_config \<Rightarrow> time \<Rightarrow> string \<Rightarrow> time result" where
  "validateNonce cfg now encoded =
     (case DecodeString encoded of
        None \<Rightarrow> Inl ErrInvalidCredentials
      | Some payload \<Rightarrow>
          if length payload \<noteq> nonceTimeBytes + nonceRandomBytes + nonceMACBytes
          then Inl ErrInvalidCredentials
          else
            let message = take (nonceTimeBytes + nonceRandomBytes) payload;
                providedMAC = drop (nonceTimeBytes + nonceRandomBytes) payload
            in if providedMAC \<noteq> hmac_sha256 (ac_NonceSecret cfg) message then Inl ErrInvalidCredentials
               else
                 let issuedAt = time_Unix (Uint64 (take nonceTimeBytes message));
                     expiresAt = issuedAt + ac_NonceTTL cfg
                 in if now + Minute < issuedAt then Inl ErrInvalidCredentials
                    else if expiresAt \<le> now then Inl ErrStaleNonce
                    else Inr expiresAt)"

subsection \<open>The replay cache\<close>

definition purge :: "time \<Rightarrow> replay_cache \<Rightarrow> replay_cache" where
  "purge now replay = filter (\<lambda>(k, entry). now < re_expiresAt entry) replay"

definition recordNonceCount ::
  "auth_config \<Rightarrow> time \<Rightarrow> string \<Rightarrow> string \<Rightarrow> int \<Rightarrow> time \<Rightarrow> replay_cache
     \<Rightarrow> replay_cache \<times> go_error option" where
  "recordNonceCount cfg now nonce username nonceCount expiresAt replay =
     (let key = (nonce, username);
          fresh = \<lparr>maxNonceCount = nonceCount, re_expiresAt = expiresAt\<rparr>
      in case map_of replay key of
           Some entry \<Rightarrow>
             if nonceCount \<le> maxNonceCount entry then (replay, Some ErrReplay)
             else (AList.update key fresh replay, None)
         | None \<Rightarrow>
             let kept = (if ac_MaxReplayEntries cfg \<le> int (length replay) then purge now replay else replay)
             in if ac_MaxReplayEntries cfg \<le> int (length kept) then (kept, Some ErrReplayCapacity)
                else (AList.update key fresh kept, None))"

subsection \<open>Verification\<close>

text \<open>
  \<open>verify_check\<close> is the part of \<open>Verify\<close> that reads no shared state, up to the call of
  \<open>recordNonceCount\<close>, which is atomic: it holds the authenticator's mutex throughout.
\<close>

definition verify_check ::
  "digest_pkg \<Rightarrow> lookup_credential \<Rightarrow> auth_config \<Rightarrow> ctx \<Rightarrow> time \<Rightarrow> string \<Rightarrow> string \<Rightarrow> string
     \<Rightarrow> (credential \<times> digest_credentials \<times> time) result" where
  "verify_check pkg LookupCredential cfg cx now sip_method requestURI authorization =
     (if authorization = [] then Inl ErrMissingCredentials
      else case ParseCredentials pkg authorization of
        Inl err \<Rightarrow> Inl (Joined [ErrInvalidCredentials, err])
      | Inr cr \<Rightarrow>
          if dc_Realm cr \<noteq> ac_Realm cfg \<or> dc_URI cr \<noteq> requestURI
             \<or> \<not> strings_EqualFold (dc_Algorithm cr) ''MD5'' \<or> dc_QOP cr \<noteq> ''auth''
             \<or> dc_Cnonce cr = [] \<or> dc_Nc cr \<le> 0
          then Inl ErrInvalidCredentials
          else case validateNonce cfg now (dc_Nonce cr) of
            Inl err \<Rightarrow> Inl err
          | Inr expiresAt \<Rightarrow>
              (case LookupCredential cx (dc_Realm cr) (dc_Username cr) of
                 Inl err \<Rightarrow> Inl (Joined [ErrInvalidCredentials, err])
               | Inr cred \<Rightarrow>
                   if cred_Realm cred \<noteq> dc_Realm cr \<or> cred_Username cred \<noteq> dc_Username cr
                      \<or> length (cred_HA1 cred) \<noteq> 32
                   then Inl ErrInvalidCredentials
                   else case Digest pkg
                        \<lparr>dch_Realm = ac_Realm cfg, dch_Nonce = dc_Nonce cr, dch_Algorithm = ''MD5'',
                         dch_QOP = [''auth''], dch_Stale = False\<rparr>
                        \<lparr>do_Method = sip_method, do_URI = requestURI, do_Username = dc_Username cr,
                         do_A1 = cred_HA1 cred, do_Count = dc_Nc cr, do_Cnonce = dc_Cnonce cr\<rparr> of
                     Inl err \<Rightarrow> Inl (Joined [ErrInvalidCredentials, err])
                   | Inr expected \<Rightarrow>
                       if strings_ToLower (dc_Response cr) \<noteq> strings_ToLower (dc_Response expected)
                       then Inl ErrInvalidCredentials
                       else Inr (cred, cr, expiresAt)))"

definition Verify ::
  "digest_pkg \<Rightarrow> lookup_credential \<Rightarrow> ctx \<Rightarrow> time \<Rightarrow> time \<Rightarrow> string \<Rightarrow> string \<Rightarrow> string
     \<Rightarrow> authenticator \<Rightarrow> authenticator \<times> credential result" where
  "Verify pkg LookupCredential cx now now' sip_method requestURI authorization a =
     (case verify_check pkg LookupCredential (auth_cfg a) cx now sip_method requestURI authorization of
        Inl err \<Rightarrow> (a, Inl err)
      | Inr (cred, cr, expiresAt) \<Rightarrow>
          (case recordNonceCount (auth_cfg a) now' (dc_Nonce cr) (dc_Username cr) (dc_Nc cr) expiresAt
                  (auth_replay a) of
             (replay, Some err) \<Rightarrow> (a\<lparr>auth_replay := replay\<rparr>, Inl err)
           | (replay, None) \<Rightarrow> (a\<lparr>auth_replay := replay\<rparr>, Inr cred)))"

definition ComputeHA1 :: "string \<Rightarrow> string \<Rightarrow> string \<Rightarrow> string" where
  "ComputeHA1 username realm password =
     hex_EncodeToString (md5_Sum (string_bytes (username @ '':'' @ realm @ '':'' @ password)))"

subsection \<open>The in-memory credential store\<close>

definition ErrCredentialNotFound :: go_error where
  "ErrCredentialNotFound = Sentinel ''credential not found''"

text \<open>A store is the Go map from a realm and a user name to the credential, filled once.\<close>

type_synonym credential_store = "((string \<times> string) \<times> credential) list"

definition NewCredentialStore :: "credential list \<Rightarrow> credential_store" where
  "NewCredentialStore credentials =
     fold (\<lambda>cred. AList.update (cred_Realm cred, cred_Username cred) cred) credentials []"

definition memory_LookupCredential :: "credential_store \<Rightarrow> lookup_credential" where
  "memory_LookupCredential store cx realm username =
     (case ctx_Err cx of
        Some err \<Rightarrow> Inl err
      | None \<Rightarrow>
          (case map_of store (realm, username) of
             None \<Rightarrow> Inl ErrCredentialNotFound
           | Some cred \<Rightarrow> Inr cred))"

subsection \<open>Nonces\<close>

definition clock_range :: "time \<Rightarrow> bool" where
  "clock_range t = (- (2 ^ 63) \<le> t div Second \<and> t div Second < 2 ^ 63)"

lemma time_Unix_to_unix: "clock_range t \<Longrightarrow> time_Unix (time_to_unix t) = t div Second * Second"
  by (simp add: time_Unix_def time_to_unix_def clock_range_def int_word_sint)

lemmas nonce_sizes = nonceTimeBytes_def nonceRandomBytes_def nonceMACBytes_def

text \<open>The instant at which a nonce that carries a valid time stamp expires.\<close>

definition nonce_expiry :: "auth_config \<Rightarrow> string \<Rightarrow> time" where
  "nonce_expiry cfg encoded =
     (case DecodeString encoded of
        None \<Rightarrow> 0
      | Some payload \<Rightarrow> time_Unix (Uint64 (take nonceTimeBytes payload)) + ac_NonceTTL cfg)"

lemma validateNonce_expiry:
  "validateNonce cfg now nonce = Inr expiresAt \<Longrightarrow> expiresAt = nonce_expiry cfg nonce \<and> now < expiresAt"
  by (auto simp: validateNonce_def nonce_expiry_def Let_def nonce_sizes split: option.splits if_splits)

lemma validate_issued:
  assumes "issueNonce cfg issued random = Inr nonce" and "clock_range issued"
  shows "validateNonce cfg now nonce =
           (let at_second = issued div Second * Second
            in if now + Minute < at_second then Inl ErrInvalidCredentials
               else if at_second + ac_NonceTTL cfg \<le> now then Inl ErrStaleNonce
               else Inr (at_second + ac_NonceTTL cfg))"
proof -
  obtain rnd where "random = Inr rnd" using assms(1) by (cases random) (simp_all add: issueNonce_def)
  with assms(1) have "nonce =
      EncodeToString (PutUint64 (time_to_unix issued) @ map rnd [0..<16]
        @ hmac_sha256 (ac_NonceSecret cfg) (PutUint64 (time_to_unix issued) @ map rnd [0..<16]))"
    by (simp add: issueNonce_def nonce_sizes Let_def)
  then show ?thesis
    by (simp add: validateNonce_def nonce_sizes Let_def time_Unix_to_unix [OF assms(2)])
qed

subsection \<open>The replay cache over a history of verifications\<close>

text \<open>
  The invariant of the cache: its keys are distinct, there are at most \<open>MaxReplayEntries\<close> of them,
  and an entry expires with its nonce.
\<close>

definition cache_ok :: "auth_config \<Rightarrow> replay_cache \<Rightarrow> bool" where
  "cache_ok cfg replay =
     (distinct (map fst replay) \<and> int (length replay) \<le> ac_MaxReplayEntries cfg
      \<and> (\<forall>(k, entry) \<in> set replay. re_expiresAt entry = nonce_expiry cfg (fst k)))"



lemma purge_keeps:
  "distinct (map fst replay) \<Longrightarrow> map_of replay k = Some e \<Longrightarrow> now < re_expiresAt e \<Longrightarrow>
   map_of (purge now replay) k = Some e"
  by (induction replay) (auto simp: purge_def split: if_splits)

lemma cache_ok_purge: "cache_ok cfg replay \<Longrightarrow> cache_ok cfg (purge now replay)"
  using length_filter_le [of "\<lambda>(k, entry). now < re_expiresAt entry" replay]
  by (auto simp: cache_ok_def purge_def distinct_map_filter simp del: length_filter_le)

lemma cache_ok_update:
  assumes "cache_ok cfg replay"
    and "k \<in> fst ` set replay \<or> int (length replay) < ac_MaxReplayEntries cfg"
    and "re_expiresAt e = nonce_expiry cfg (fst k)"
  shows "cache_ok cfg (AList.update k e replay)"
proof -
  have "int (length (AList.update k e replay)) \<le> ac_MaxReplayEntries cfg"
    using assms(1,2) length_update_old [of k replay e] length_update_le [of k e replay]
    unfolding cache_ok_def by linarith
  then show ?thesis
    using assms(1,3) set_update_subset [of k e replay] by (auto simp: cache_ok_def distinct_update)
qed

lemma recordNonceCount_ok:
  assumes "cache_ok cfg replay" and "expiresAt = nonce_expiry cfg nonce"
  shows "cache_ok cfg (fst (recordNonceCount cfg now nonce username nc expiresAt replay))"
proof (cases "map_of replay (nonce, username)")
  case None
  then show ?thesis using assms
    by (simp add: recordNonceCount_def Let_def cache_ok_update cache_ok_purge)
next
  case (Some e)
  then have "(nonce, username) \<in> fst ` set replay" by (force dest: map_of_SomeD)
  with Some show ?thesis using assms by (simp add: recordNonceCount_def Let_def cache_ok_update)
qed

lemma recordNonceCount_accepted:
  assumes "recordNonceCount cfg now nonce username nc expiresAt replay = (replay', None)"
  shows "map_of replay' (nonce, username) = Some \<lparr>maxNonceCount = nc, re_expiresAt = expiresAt\<rparr>"
    and "map_of replay (nonce, username) = Some e \<Longrightarrow> maxNonceCount e < nc"
  using assms
  by (auto simp: recordNonceCount_def Let_def update_conv' split: option.splits if_splits)

lemma recordNonceCount_keeps:
  assumes "distinct (map fst replay)" and "map_of replay k = Some e" and "now < re_expiresAt e"
  shows "\<exists>e'. map_of (fst (recordNonceCount cfg now nonce username nc expiresAt replay)) k = Some e'
           \<and> maxNonceCount e \<le> maxNonceCount e'"
proof (cases "k = (nonce, username)")
  case True
  with assms(2) show ?thesis
    by (auto simp: recordNonceCount_def Let_def update_conv')
next
  case False
  with assms show ?thesis
    by (auto simp: recordNonceCount_def Let_def update_conv' purge_keeps split: option.splits)
qed

text \<open>
  A history of verifications in the order in which they took the authenticator's lock, with the two
  clock readings of each: in \<open>validateNonce\<close> and in \<open>recordNonceCount\<close>.
\<close>

record verify_call =
  vc_lookup :: lookup_credential
  vc_ctx :: ctx
  vc_now :: time
  vc_now' :: time
  vc_method :: string
  vc_uri :: string
  vc_authorization :: string

definition verify_step :: "digest_pkg \<Rightarrow> verify_call \<Rightarrow> authenticator \<Rightarrow> authenticator \<times> credential result" where
  "verify_step pkg vc =
     Verify pkg (vc_lookup vc) (vc_ctx vc) (vc_now vc) (vc_now' vc) (vc_method vc) (vc_uri vc)
       (vc_authorization vc)"

fun verify_run :: "digest_pkg \<Rightarrow> verify_call list \<Rightarrow> authenticator \<Rightarrow> authenticator \<times> credential result list" where
  "verify_run pkg [] a = (a, [])"
| "verify_run pkg (vc # vcs) a =
     (let (a', r) = verify_step pkg vc a; (a'', rs) = verify_run pkg vcs a' in (a'', r # rs))"

definition readings :: "verify_call list \<Rightarrow> time list" where
  "readings vcs = concat (map (\<lambda>vc. [vc_now vc, vc_now' vc]) vcs)"

text \<open>
  At time \<open>t\<close> the cache remembers that count \<open>c\<close> was accepted for a nonce and a user: while the
  nonce is valid there is an entry that covers \<open>c\<close>.
\<close>

definition remembers :: "auth_config \<Rightarrow> time \<Rightarrow> replay_cache \<Rightarrow> string \<Rightarrow> string \<Rightarrow> int \<Rightarrow> bool" where
  "remembers cfg t replay n u c =
     (t < nonce_expiry cfg n \<longrightarrow> (\<exists>e. map_of replay (n, u) = Some e \<and> c \<le> maxNonceCount e))"

lemma verify_check_Inr:
  assumes "verify_check pkg lookup cfg cx now sip_method uri authz = Inr (cred, cr, expiresAt)"
  shows "ParseCredentials pkg authz = Inr cr" "validateNonce cfg now (dc_Nonce cr) = Inr expiresAt"
    "lookup cx (ac_Realm cfg) (dc_Username cr) = Inr cred" "dc_Username cr = cred_Username cred"
    "cred_Realm cred = ac_Realm cfg"
  using assms by (simp_all add: verify_check_def split: if_splits sum.splits)

lemma Verify_cases:
  obtains (refused) e where "Verify pkg lookup cx now now' sip_method uri authz a = (a, Inl e)"
  | (recorded) cred cr replay err where
      "verify_check pkg lookup (auth_cfg a) cx now sip_method uri authz =
         Inr (cred, cr, nonce_expiry (auth_cfg a) (dc_Nonce cr))"
      "now < nonce_expiry (auth_cfg a) (dc_Nonce cr)" "ParseCredentials pkg authz = Inr cr"
      "recordNonceCount (auth_cfg a) now' (dc_Nonce cr) (dc_Username cr) (dc_Nc cr)
         (nonce_expiry (auth_cfg a) (dc_Nonce cr)) (auth_replay a) = (replay, err)"
      "Verify pkg lookup cx now now' sip_method uri authz a =
         (a\<lparr>auth_replay := replay\<rparr>, case err of None \<Rightarrow> Inr cred | Some e \<Rightarrow> Inl e)"
proof (cases "verify_check pkg lookup (auth_cfg a) cx now sip_method uri authz")
  case (Inl e)
  then show ?thesis by (intro refused [of e]) (simp add: Verify_def)
next
  case (Inr v)
  obtain cred cr t where v: "v = (cred, cr, t)" by (cases v)
  with Inr have "validateNonce (auth_cfg a) now (dc_Nonce cr) = Inr t"
    and parsed: "ParseCredentials pkg authz = Inr cr" by (auto dest: verify_check_Inr)
  then have t: "t = nonce_expiry (auth_cfg a) (dc_Nonce cr)" "now < nonce_expiry (auth_cfg a) (dc_Nonce cr)"
    using validateNonce_expiry by blast+
  obtain replay err where
    r: "recordNonceCount (auth_cfg a) now' (dc_Nonce cr) (dc_Username cr) (dc_Nc cr)
          (nonce_expiry (auth_cfg a) (dc_Nonce cr)) (auth_replay a) = (replay, err)"
    by (cases "recordNonceCount (auth_cfg a) now' (dc_Nonce cr) (dc_Username cr) (dc_Nc cr)
          (nonce_expiry (auth_cfg a) (dc_Nonce cr)) (auth_replay a)")
  show ?thesis
    by (rule recorded [where cred = cred, OF _ t(2) parsed r])
      (use Inr v t r in \<open>simp_all add: Verify_def split: option.splits\<close>)
qed

lemma Verify_cfg [simp]: "auth_cfg (fst (Verify pkg lookup cx now now' sip_method uri authz a)) = auth_cfg a"
  by (rule Verify_cases [of pkg lookup cx now now' sip_method uri authz a]) simp_all

lemma Verify_cache_ok:
  assumes "cache_ok (auth_cfg a) (auth_replay a)"
  shows "cache_ok (auth_cfg a) (auth_replay (fst (Verify pkg lookup cx now now' sip_method uri authz a)))"
proof (cases rule: Verify_cases [of pkg lookup cx now now' sip_method uri authz a])
  case (recorded cred cr replay err)
  with recordNonceCount_ok [OF assms refl, of now' "dc_Nonce cr" "dc_Username cr" "dc_Nc cr"]
  show ?thesis by simp
qed (simp add: assms)

lemma Verify_remembers:
  assumes "cache_ok (auth_cfg a) (auth_replay a)" and "remembers (auth_cfg a) t (auth_replay a) n u c"
    and "t \<le> now'"
  shows "remembers (auth_cfg a) now' (auth_replay (fst (Verify pkg lookup cx now now' sip_method uri authz a))) n u c"
proof (cases rule: Verify_cases [of pkg lookup cx now now' sip_method uri authz a])
  case refused
  then show ?thesis using assms by (auto simp: remembers_def)
next
  case (recorded cred cr replay err)
  show ?thesis unfolding remembers_def
  proof
    assume live: "now' < nonce_expiry (auth_cfg a) n"
    with assms(2,3) obtain e where e: "map_of (auth_replay a) (n, u) = Some e" "c \<le> maxNonceCount e"
      by (auto simp: remembers_def)
    then have "re_expiresAt e = nonce_expiry (auth_cfg a) n"
      using assms(1) by (auto simp: cache_ok_def dest!: map_of_SomeD)
    then have "\<exists>e'. map_of replay (n, u) = Some e' \<and> maxNonceCount e \<le> maxNonceCount e'"
      using recordNonceCount_keeps [OF _ e(1), of now' "auth_cfg a" "dc_Nonce cr" "dc_Username cr" "dc_Nc cr"
          "nonce_expiry (auth_cfg a) (dc_Nonce cr)"] recorded(4) assms(1) live
      by (simp add: cache_ok_def)
    with e(2) recorded(5) show "\<exists>e. map_of (auth_replay (fst (Verify pkg lookup cx now now' sip_method uri authz a)))
        (n, u) = Some e \<and> c \<le> maxNonceCount e" by auto
  qed
qed

lemma Verify_accepted:
  assumes "snd (Verify pkg lookup cx now now' sip_method uri authz a) = Inr cred"
    and "ParseCredentials pkg authz = Inr cr"
  shows "now < nonce_expiry (auth_cfg a) (dc_Nonce cr)"
    and "remembers cfg t (auth_replay (fst (Verify pkg lookup cx now now' sip_method uri authz a)))
           (dc_Nonce cr) (dc_Username cr) (dc_Nc cr)"
    and "remembers (auth_cfg a) t (auth_replay a) (dc_Nonce cr) (dc_Username cr) c \<Longrightarrow> t \<le> now
           \<Longrightarrow> c < dc_Nc cr"
proof -
  obtain replay where
    "recordNonceCount (auth_cfg a) now' (dc_Nonce cr) (dc_Username cr) (dc_Nc cr)
       (nonce_expiry (auth_cfg a) (dc_Nonce cr)) (auth_replay a) = (replay, None)"
    and fst: "fst (Verify pkg lookup cx now now' sip_method uri authz a) = a\<lparr>auth_replay := replay\<rparr>"
    and live: "now < nonce_expiry (auth_cfg a) (dc_Nonce cr)"
    by (rule Verify_cases [of pkg lookup cx now now' sip_method uri authz a])
      (use assms in \<open>auto split: option.splits\<close>)
  note rec = recordNonceCount_accepted [OF this(1)]
  show "now < nonce_expiry (auth_cfg a) (dc_Nonce cr)" by (rule live)
  show "remembers cfg t (auth_replay (fst (Verify pkg lookup cx now now' sip_method uri authz a)))
           (dc_Nonce cr) (dc_Username cr) (dc_Nc cr)"
    using rec(1) by (simp add: remembers_def fst)
  show "remembers (auth_cfg a) t (auth_replay a) (dc_Nonce cr) (dc_Username cr) c \<Longrightarrow> t \<le> now
           \<Longrightarrow> c < dc_Nc cr"
    using rec(2) live by (fastforce simp: remembers_def)
qed

lemma verify_run_Cons:
  "fst (verify_run pkg (vc # vcs) a) = fst (verify_run pkg vcs (fst (verify_step pkg vc a)))"
  "snd (verify_run pkg (vc # vcs) a) = snd (verify_step pkg vc a) # snd (verify_run pkg vcs (fst (verify_step pkg vc a)))"
  by (simp_all add: split_beta Let_def)

lemma verify_step_cfg [simp]: "auth_cfg (fst (verify_step pkg vc a)) = auth_cfg a"
  by (simp add: verify_step_def)

lemma verify_step_cache_ok:
  "cache_ok (auth_cfg a) (auth_replay a) \<Longrightarrow> cache_ok (auth_cfg a) (auth_replay (fst (verify_step pkg vc a)))"
  by (simp add: verify_step_def Verify_cache_ok)

lemma verify_run_cache_ok:
  "cache_ok (auth_cfg a) (auth_replay a) \<Longrightarrow>
   auth_cfg (fst (verify_run pkg vcs a)) = auth_cfg a
   \<and> cache_ok (auth_cfg a) (auth_replay (fst (verify_run pkg vcs a)))"
proof (induction vcs arbitrary: a)
  case (Cons vc vcs)
  then show ?case
    using Cons.IH [of "fst (verify_step pkg vc a)"] verify_step_cache_ok [OF Cons.prems]
    by (simp only: verify_run_Cons verify_step_cfg)
qed simp

lemma auth_New_cache_ok:
  "auth_New cfg store clock = Inr a \<Longrightarrow> auth_cfg a = cfg \<and> cache_ok cfg (auth_replay a)"
  by (auto simp: auth_New_def cache_ok_def split: if_splits)

text \<open>What was accepted once bounds every later acceptance from below.\<close>

lemma verify_run_above:
  assumes "cache_ok (auth_cfg a) (auth_replay a)" and "remembers (auth_cfg a) t (auth_replay a) n u c"
    and "sorted (t # readings vcs)" and "j < length vcs"
    and "snd (verify_run pkg vcs a) ! j = Inr cred"
    and "ParseCredentials pkg (vc_authorization (vcs ! j)) = Inr cr" and "dc_Nonce cr = n" and "dc_Username cr = u"
  shows "c < dc_Nc cr"
  using assms
proof (induction vcs arbitrary: a t j)
  case (Cons vc vcs)
  let ?a' = "fst (verify_step pkg vc a)"
  from Cons.prems(3) have times: "t \<le> vc_now vc" "t \<le> vc_now' vc" "sorted (vc_now' vc # readings vcs)"
    by (auto simp: readings_def)
  show ?case
  proof (cases j)
    case 0
    with Cons.prems have "snd (verify_step pkg vc a) = Inr cred" by (simp only: verify_run_Cons nth_Cons_0)
    then show ?thesis
      using Verify_accepted(3) [where a = a and t = t and c = c] Cons.prems(2,6,7,8) times(1) 0
      by (auto simp: verify_step_def)
  next
    case (Suc j')
    have "remembers (auth_cfg ?a') (vc_now' vc) (auth_replay ?a') n u c"
      using Verify_remembers [OF Cons.prems(1,2) times(2)] by (simp add: verify_step_def)
    moreover have "snd (verify_run pkg vcs ?a') ! j' = Inr cred"
      using Cons.prems(5) Suc by (simp only: verify_run_Cons nth_Cons_Suc)
    ultimately show ?thesis
      using Cons.IH [of ?a' "vc_now' vc" j'] Cons.prems Suc times(3) verify_step_cache_ok by simp
  qed
qed simp

lemma verify_run_increasing:
  assumes "cache_ok (auth_cfg a) (auth_replay a)" and "sorted (readings vcs)" and "i < j" and "j < length vcs"
    and "snd (verify_run pkg vcs a) ! i = Inr cred" and "snd (verify_run pkg vcs a) ! j = Inr cred'"
    and "ParseCredentials pkg (vc_authorization (vcs ! i)) = Inr cr"
    and "ParseCredentials pkg (vc_authorization (vcs ! j)) = Inr cr'"
    and "dc_Nonce cr' = dc_Nonce cr" and "dc_Username cr' = dc_Username cr"
  shows "dc_Nc cr < dc_Nc cr'"
  using assms
proof (induction vcs arbitrary: a i j)
  case (Cons vc vcs)
  let ?a' = "fst (verify_step pkg vc a)"
  obtain j' where j: "j = Suc j'" using Cons.prems(3) by (cases j) auto
  have ok: "cache_ok (auth_cfg ?a') (auth_replay ?a')" using verify_step_cache_ok [OF Cons.prems(1)] by simp
  have times: "sorted (vc_now' vc # readings vcs)" using Cons.prems(2) by (simp add: readings_def)
  have later: "snd (verify_run pkg vcs ?a') ! j' = Inr cred'"
    using Cons.prems(6) j by (simp only: verify_run_Cons nth_Cons_Suc)
  show ?case
  proof (cases i)
    case 0
    with Cons.prems(5) have "snd (verify_step pkg vc a) = Inr cred" by (simp only: verify_run_Cons nth_Cons_0)
    then have "remembers (auth_cfg ?a') (vc_now' vc) (auth_replay ?a') (dc_Nonce cr) (dc_Username cr) (dc_Nc cr)"
      using Verify_accepted(2) Cons.prems(7) 0 by (simp add: verify_step_def)
    then show ?thesis
      using verify_run_above [OF ok _ times _ later] Cons.prems(4,8,9,10) j by simp
  next
    case (Suc i')
    with Cons.prems(5) have "snd (verify_run pkg vcs ?a') ! i' = Inr cred" by (simp only: verify_run_Cons nth_Cons_Suc)
    then show ?thesis using Cons.IH [OF ok _ _ _ _ later] Cons.prems times j Suc by simp
  qed
qed simp

subsection \<open>The credential store\<close>

lemma map_of_fold_update:
  "map_of (fold (\<lambda>x. AList.update (f x) x) xs acc) k =
     (case find (\<lambda>x. f x = k) (rev xs) of None \<Rightarrow> map_of acc k | Some x \<Rightarrow> Some x)"
proof (induction xs arbitrary: acc)
  case (Cons x xs)
  have "find P (xs @ ys) = (case find P xs of None \<Rightarrow> find P ys | Some y \<Rightarrow> Some y)" for P and xs ys :: "'a list"
    by (induction xs) auto
  with Cons show ?case by (simp add: update_conv' split: option.splits)
qed simp

lemma find_distinct:
  "x \<in> set xs \<Longrightarrow> distinct (map f xs) \<Longrightarrow> find (\<lambda>y. f y = f x) xs = Some x"
  by (induction xs) (auto simp: image_iff)

lemma LookupCredential_provisioned:
  assumes "cred \<in> set creds" and "distinct (map (\<lambda>c. (cred_Realm c, cred_Username c)) creds)"
    and "ctx_Err cx = None"
  shows "memory_LookupCredential (NewCredentialStore creds) cx (cred_Realm cred) (cred_Username cred) = Inr cred"
proof -
  have "find (\<lambda>c. (cred_Realm c, cred_Username c) = (cred_Realm cred, cred_Username cred)) (rev creds) = Some cred"
    using find_distinct [of cred "rev creds" "\<lambda>c. (cred_Realm c, cred_Username c)"] assms(1,2)
    by (simp add: rev_map [symmetric])
  then show ?thesis
    using map_of_fold_update [of "\<lambda>c. (cred_Realm c, cred_Username c)" creds "[]" "(cred_Realm cred, cred_Username cred)"]
    by (simp add: memory_LookupCredential_def NewCredentialStore_def assms(3))
qed

lemma length_ComputeHA1 [simp]: "length (ComputeHA1 username realm password) = 32"
  by (simp add: ComputeHA1_def)

subsection \<open>Properties\<close>

text \<open>A nonce handed out in a challenge is accepted by \<open>validateNonce\<close> of the same configuration
  from one minute before the second in which it was issued until its lifetime ends, reported as stale
  from then on, and refused when it comes from further in the future; the expiry it returns is the
  second of issue plus the configured lifetime.\<close>
theorem nonce_lifetime:
  assumes "issueNonce cfg issued random = Inr nonce" and "clock_range issued"
  shows "validateNonce cfg now nonce =
           (let at_second = issued div Second * Second
            in if now + Minute < at_second then Inl ErrInvalidCredentials
               else if at_second + ac_NonceTTL cfg \<le> now then Inl ErrStaleNonce
               else Inr (at_second + ac_NonceTTL cfg))"
  using assms by (rule validate_issued)

definition sample_cfg :: auth_config where
  "sample_cfg = \<lparr>ac_Realm = ''pbx'', ac_NonceSecret = replicate 32 7, ac_NonceTTL = Minute, ac_MaxReplayEntries = 4\<rparr>"

definition sample_issued :: time where "sample_issued = 63900000000 * Second + 5"

definition sample_nonce :: string where
  "sample_nonce = (case issueNonce sample_cfg sample_issued (Inr (\<lambda>_. 0)) of Inr n \<Rightarrow> n | Inl _ \<Rightarrow> [])"

lemma sample_nonce_issued: "issueNonce sample_cfg sample_issued (Inr (\<lambda>_. 0)) = Inr sample_nonce"
  by (simp add: sample_nonce_def issueNonce_def Let_def)

lemma sample_range: "clock_range sample_issued"
  by (simp add: clock_range_def sample_issued_def Second_def)

theorem nonce_lifetime_witness:
  "issueNonce sample_cfg sample_issued (Inr (\<lambda>_. 0)) = Inr sample_nonce
   \<and> validateNonce sample_cfg (sample_issued + 7) sample_nonce = Inr (63900000060 * Second)
   \<and> validateNonce sample_cfg (63900000060 * Second) sample_nonce = Inl ErrStaleNonce"
  using sample_nonce_issued nonce_lifetime [OF sample_nonce_issued sample_range, of "sample_issued + 7"]
    nonce_lifetime [OF sample_nonce_issued sample_range, of "63900000060 * Second"]
  by (simp add: sample_cfg_def sample_issued_def Second_def Minute_def Let_def)

text \<open>C6: No replay. In every history of \<open>Verify\<close> calls on one authenticator whose clock readings do
  not decrease, whatever the contexts, stores, methods and headers, two accepted calls for the same
  nonce and user carry strictly increasing nonce counts: a captured Authorization header is accepted
  at most once, also when the cache was full and purged in between.\<close>
theorem no_replay:
  assumes "auth_New cfg store clock = Inr a" and "sorted (readings vcs)" and "i < j" and "j < length vcs"
    and "snd (verify_run pkg vcs a) ! i = Inr cred" and "snd (verify_run pkg vcs a) ! j = Inr cred'"
    and "ParseCredentials pkg (vc_authorization (vcs ! i)) = Inr cr"
    and "ParseCredentials pkg (vc_authorization (vcs ! j)) = Inr cr'"
    and "dc_Nonce cr' = dc_Nonce cr" and "dc_Username cr' = dc_Username cr"
  shows "dc_Nc cr < dc_Nc cr'"
  using assms auth_New_cache_ok [OF assms(1)] verify_run_increasing by blast

text \<open>A digest package whose headers are a nonce count in unary, and two calls with counts one and two.\<close>

definition sample_credential :: credential where
  "sample_credential =
     \<lparr>cred_TenantID = ''t'', cred_Username = ''1001'', cred_Realm = ''pbx'',
      cred_HA1 = ComputeHA1 ''1001'' ''pbx'' ''secret'', cred_MaxBindings = 2\<rparr>"

definition sample_presented :: "string \<Rightarrow> string \<Rightarrow> digest_credentials" where
  "sample_presented nonce authz =
     \<lparr>dc_Username = ''1001'', dc_Realm = ''pbx'', dc_Nonce = nonce, dc_URI = ''pbx'',
      dc_Response = ''ok'', dc_Algorithm = ''MD5'', dc_Cnonce = ''c'', dc_QOP = ''auth'', dc_Nc = int (length authz)\<rparr>"

definition sample_pkg :: digest_pkg where
  "sample_pkg =
     \<lparr>ParseCredentials = \<lambda>authz. Inr (sample_presented sample_nonce authz),
      Digest = \<lambda>ch opt. Inr (sample_presented (dch_Nonce ch) (replicate (nat (do_Count opt)) CHR ''x'')),
      challenge_String = dch_Nonce\<rparr>"

definition sample_call :: "duration \<Rightarrow> string \<Rightarrow> verify_call" where
  "sample_call d authz =
     \<lparr>vc_lookup = memory_LookupCredential (NewCredentialStore [sample_credential]), vc_ctx = context_Background,
      vc_now = sample_issued + d, vc_now' = sample_issued + d, vc_method = ''REGISTER'', vc_uri = ''pbx'',
      vc_authorization = authz\<rparr>"

definition sample_auth :: authenticator where
  "sample_auth = \<lparr>auth_cfg = sample_cfg, auth_replay = []\<rparr>"

lemma sample_auth_New: "auth_New sample_cfg (Some ()) (Some ()) = Inr sample_auth"
  by (simp add: auth_New_def sample_cfg_def sample_auth_def Minute_def Second_def)

lemma sample_validate: "0 \<le> d \<Longrightarrow> d < 59 * Second \<Longrightarrow>
    validateNonce sample_cfg (sample_issued + d) sample_nonce = Inr (63900000060 * Second)"
  by (subst validate_issued [OF sample_nonce_issued sample_range])
    (simp add: sample_cfg_def sample_issued_def Second_def Minute_def Let_def)

lemma sample_lookup:
  "memory_LookupCredential (NewCredentialStore [sample_credential]) context_Background ''pbx'' ''1001''
     = Inr sample_credential"
  by (simp add: memory_LookupCredential_def NewCredentialStore_def context_Background_def sample_credential_def)

lemma sample_check:
  assumes "0 \<le> d" and "d < 59 * Second" and "authz \<noteq> []"
  shows "verify_check sample_pkg (memory_LookupCredential (NewCredentialStore [sample_credential])) sample_cfg
           context_Background (sample_issued + d) sip_method ''pbx'' authz
         = Inr (sample_credential, sample_presented sample_nonce authz, 63900000060 * Second)"
proof -
  have "ac_Realm sample_cfg = ''pbx''" by (simp add: sample_cfg_def)
  moreover have "cred_Realm sample_credential = ''pbx''" "cred_Username sample_credential = ''1001''"
    "length (cred_HA1 sample_credential) = 32" by (simp_all add: sample_credential_def)
  ultimately show ?thesis
    using assms sample_validate [OF assms(1,2)]
    by (simp add: verify_check_def sample_pkg_def sample_presented_def sample_lookup strings_EqualFold_def)
qed

lemma sample_run:
  "snd (verify_run sample_pkg [sample_call 0 ''x'', sample_call 1 ''xx''] sample_auth)
     = [Inr sample_credential, Inr sample_credential]"
proof -
  have one: "sample_issued + 0 = sample_issued" by simp
  show ?thesis
    using sample_check [of 0 "''x''"] sample_check [of 1 "''xx''"]
    by (simp add: verify_step_def Verify_def sample_call_def sample_auth_def recordNonceCount_def Let_def
        sample_presented_def Second_def) (simp add: sample_cfg_def)
qed

theorem no_replay_witness:
  "auth_New sample_cfg (Some ()) (Some ()) = Inr sample_auth
   \<and> snd (verify_run sample_pkg [sample_call 0 ''x'', sample_call 1 ''xx''] sample_auth)
       = [Inr sample_credential, Inr sample_credential]
   \<and> dc_Nc (sample_presented sample_nonce ''x'') < dc_Nc (sample_presented sample_nonce ''xx'')"
proof -
  have "dc_Nc (sample_presented sample_nonce ''x'') < dc_Nc (sample_presented sample_nonce ''xx'')"
    by (rule no_replay [OF sample_auth_New, where i = 0 and j = 1
          and vcs = "[sample_call 0 ''x'', sample_call 1 ''xx'']" and pkg = sample_pkg
          and cred = sample_credential and cred' = sample_credential])
      (simp_all only: sample_run, simp_all add: readings_def sample_call_def sample_pkg_def sample_presented_def)
  then show ?thesis using sample_auth_New sample_run by blast
qed

text \<open>C38: The replay cache never holds more than \<open>MaxReplayEntries\<close> entries, one per nonce and user,
  however many calls of \<open>Verify\<close> are served and whatever they carry.\<close>
theorem replay_cache_bounded:
  assumes "auth_New cfg store clock = Inr a"
  shows "int (length (auth_replay (fst (verify_run pkg vcs a)))) \<le> ac_MaxReplayEntries cfg
    \<and> distinct (map fst (auth_replay (fst (verify_run pkg vcs a))))"
  using auth_New_cache_ok [OF assms] verify_run_cache_ok [of a pkg vcs] by (simp add: cache_ok_def)

theorem replay_cache_bounded_witness:
  "auth_New sample_cfg (Some ()) (Some ()) = Inr sample_auth
   \<and> int (length (auth_replay (fst (verify_run sample_pkg
         [sample_call 0 ''x'', sample_call 1 ''xx''] sample_auth)))) \<le> 4"
  using sample_auth_New
    replay_cache_bounded [OF sample_auth_New, of sample_pkg "[sample_call 0 ''x'', sample_call 1 ''xx'']"]
  by (simp add: sample_cfg_def del: verify_run.simps)

text \<open>
  What a conforming client presents: the realm, the nonce and the request's URI, and the response the
  digest package computes from the provisioned hash of the password.
\<close>

definition answers ::
  "digest_pkg \<Rightarrow> auth_config \<Rightarrow> credential \<Rightarrow> string \<Rightarrow> string \<Rightarrow> string \<Rightarrow> digest_credentials \<Rightarrow> bool" where
  "answers pkg cfg cred nonce sip_method uri cr =
     (dc_Realm cr = ac_Realm cfg \<and> dc_Username cr = cred_Username cred \<and> dc_Nonce cr = nonce \<and> dc_URI cr = uri
      \<and> dc_Algorithm cr = ''MD5'' \<and> dc_QOP cr = ''auth'' \<and> dc_Cnonce cr \<noteq> [] \<and> 0 < dc_Nc cr
      \<and> map_sum (\<lambda>_. ()) dc_Response (Digest pkg
          \<lparr>dch_Realm = ac_Realm cfg, dch_Nonce = nonce, dch_Algorithm = ''MD5'', dch_QOP = [''auth''], dch_Stale = False\<rparr>
          \<lparr>do_Method = sip_method, do_URI = uri, do_Username = cred_Username cred, do_A1 = cred_HA1 cred,
           do_Count = dc_Nc cr, do_Cnonce = dc_Cnonce cr\<rparr>) = Inr (dc_Response cr))"

text \<open>C29: A user who is provisioned in the credential store with the hash \<open>ComputeHA1\<close> of their
  password and answers a challenge of this authenticator within its lifetime is accepted, when the
  nonce was not used yet and the replay cache has room; presenting the same header a second time
  within the lifetime is refused with \<open>ErrReplay\<close>.\<close>
theorem challenge_answer_accepted:
  assumes "issueNonce (auth_cfg a) issued random = Inr nonce" and "clock_range issued"
    and "issued \<le> now" and "now' < issued div Second * Second + ac_NonceTTL (auth_cfg a)" and "now \<le> now'"
    and "cred \<in> set creds" and "distinct (map (\<lambda>c. (cred_Realm c, cred_Username c)) creds)"
    and "cred_Realm cred = ac_Realm (auth_cfg a)"
    and "cred_HA1 cred = ComputeHA1 (cred_Username cred) (cred_Realm cred) password"
    and "authz \<noteq> []" and "ParseCredentials pkg authz = Inr cr" and "answers pkg (auth_cfg a) cred nonce sip_method uri cr"
    and "map_of (auth_replay a) (nonce, cred_Username cred) = None"
    and "int (length (auth_replay a)) < ac_MaxReplayEntries (auth_cfg a)"
  shows "\<exists>a'. Verify pkg (memory_LookupCredential (NewCredentialStore creds)) context_Background now now
               sip_method uri authz a = (a', Inr cred)
    \<and> Verify pkg (memory_LookupCredential (NewCredentialStore creds)) context_Background now' now'
        sip_method uri authz a' = (a', Inl ErrReplay)"
proof -
  let ?exp = "issued div Second * Second + ac_NonceTTL (auth_cfg a)"
  have sec: "issued div Second * Second \<le> issued"
    by (simp add: minus_mod_eq_div_mult [symmetric])
  have valid: "validateNonce (auth_cfg a) t nonce = Inr ?exp" if "now \<le> t" "t \<le> now'" for t
    using validate_issued [OF assms(1,2), of t] that assms(3,4,5) sec
    by (simp add: Let_def Minute_def Second_def)
  have lookup: "memory_LookupCredential (NewCredentialStore creds) context_Background
      (ac_Realm (auth_cfg a)) (cred_Username cred) = Inr cred"
    using LookupCredential_provisioned [OF assms(6,7), of context_Background] assms(8)
    by (simp add: context_Background_def)
  have check: "verify_check pkg (memory_LookupCredential (NewCredentialStore creds)) (auth_cfg a)
      context_Background t sip_method uri authz = Inr (cred, cr, ?exp)" if "now \<le> t" "t \<le> now'" for t
    using valid [OF that] assms(8-12) lookup
    by (auto simp: verify_check_def answers_def strings_EqualFold_def split: sum.splits)
  define a' where "a' = a\<lparr>auth_replay := AList.update (nonce, cred_Username cred)
    \<lparr>maxNonceCount = dc_Nc cr, re_expiresAt = ?exp\<rparr> (auth_replay a)\<rparr>"
  have who: "dc_Nonce cr = nonce" "dc_Username cr = cred_Username cred" using assms(12) by (simp_all add: answers_def)
  have "Verify pkg (memory_LookupCredential (NewCredentialStore creds)) context_Background now now
      sip_method uri authz a = (a', Inr cred)"
    using check [of now] assms(5,13,14) who by (simp add: Verify_def recordNonceCount_def Let_def a'_def)
  moreover have "Verify pkg (memory_LookupCredential (NewCredentialStore creds)) context_Background now' now'
      sip_method uri authz a' = (a', Inl ErrReplay)"
    using check [of now'] assms(5) who by (simp add: Verify_def recordNonceCount_def Let_def a'_def update_conv')
  ultimately show ?thesis by blast
qed

theorem challenge_answer_accepted_witness:
  "\<exists>a'. Verify sample_pkg (memory_LookupCredential (NewCredentialStore [sample_credential])) context_Background
       (sample_issued + 1) (sample_issued + 1) ''REGISTER'' ''pbx'' ''x'' sample_auth = (a', Inr sample_credential)"
proof -
  have "answers sample_pkg sample_cfg sample_credential sample_nonce ''REGISTER'' ''pbx''
      (sample_presented sample_nonce ''x'')"
    by (simp add: answers_def sample_pkg_def sample_presented_def sample_credential_def sample_cfg_def)
  then show ?thesis
    using challenge_answer_accepted [where a = sample_auth and issued = sample_issued and now = "sample_issued + 1"
        and now' = "sample_issued + 1" and creds = "[sample_credential]" and cred = sample_credential
        and authz = "''x''" and pkg = sample_pkg and cr = "sample_presented sample_nonce ''x''"
        and nonce = sample_nonce and random = "Inr (\<lambda>_. 0)" and password = "''secret''"
        and sip_method = "''REGISTER''" and uri = "''pbx''"]
      sample_nonce_issued sample_range
    by (fastforce simp: sample_auth_def sample_pkg_def sample_credential_def sample_cfg_def Minute_def
        sample_issued_def Second_def)
qed

end
