(* ===== verification/Go_Channels.thy ===== *)
theory Go_Channels
  imports Prelude
begin

text \<open>
  Buffered Go channels and the two \<open>select\<close> statements the PBX uses on them: a send, and a
  receive, each against \<open>ctx.Done()\<close>. An operation that would block is \<open>None\<close>. When both arms of a
  \<open>select\<close> are ready the run time picks one of them: that pick is \<open>ctx_pick\<close>, true for the
  channel arm.
\<close>

record 'a chan =
  ch_cap :: nat
  ch_buf :: "'a list"

definition chan_make :: "nat \<Rightarrow> 'a chan" where
  "chan_make n = \<lparr>ch_cap = n, ch_buf = []\<rparr>"

definition chan_send :: "'a \<Rightarrow> 'a chan \<Rightarrow> 'a chan option" where
  "chan_send v ch =
     (if length (ch_buf ch) < ch_cap ch then Some (ch\<lparr>ch_buf := ch_buf ch @ [v]\<rparr>) else None)"

definition chan_recv :: "'a chan \<Rightarrow> ('a \<times> 'a chan) option" where
  "chan_recv ch = (case ch_buf ch of [] \<Rightarrow> None | v # vs \<Rightarrow> Some (v, ch\<lparr>ch_buf := vs\<rparr>))"

definition select_send :: "ctx \<Rightarrow> 'a \<Rightarrow> 'a chan \<Rightarrow> ('a chan \<times> go_error option) option" where
  "select_send c v ch =
     (case (chan_send v ch, ctx_Err c) of
        (None, None) \<Rightarrow> None
      | (None, Some e) \<Rightarrow> Some (ch, Some e)
      | (Some ch', None) \<Rightarrow> Some (ch', None)
      | (Some ch', Some e) \<Rightarrow> if ctx_pick c then Some (ch', None) else Some (ch, Some e))"

datatype 'a received = Received 'a | ContextDone

definition select_recv :: "ctx \<Rightarrow> 'a chan \<Rightarrow> ('a received \<times> 'a chan) option" where
  "select_recv c ch =
     (case (chan_recv ch, ctx_Err c) of
        (None, None) \<Rightarrow> None
      | (None, Some e) \<Rightarrow> Some (ContextDone, ch)
      | (Some (v, ch'), None) \<Rightarrow> Some (Received v, ch')
      | (Some (v, ch'), Some e) \<Rightarrow>
          if ctx_pick c then Some (Received v, ch') else Some (ContextDone, ch))"

definition chan_ok :: "'a chan \<Rightarrow> bool" where
  "chan_ok ch \<longleftrightarrow> length (ch_buf ch) \<le> ch_cap ch"

lemma chan_make_ok [simp]: "chan_ok (chan_make n)" "ch_buf (chan_make n) = []" "ch_cap (chan_make n) = n"
  by (simp_all add: chan_ok_def chan_make_def)

lemma chan_send_Some:
  "chan_send v ch = Some ch' \<longleftrightarrow>
     length (ch_buf ch) < ch_cap ch \<and> ch' = ch\<lparr>ch_buf := ch_buf ch @ [v]\<rparr>"
  by (auto simp: chan_send_def)

lemma chan_recv_Some:
  "chan_recv ch = Some (v, ch') \<longleftrightarrow> (\<exists>vs. ch_buf ch = v # vs \<and> ch' = ch\<lparr>ch_buf := vs\<rparr>)"
  by (auto simp: chan_recv_def split: list.splits)

lemma select_send_accepted:
  "select_send c v ch = Some (ch', None) \<Longrightarrow>
     length (ch_buf ch) < ch_cap ch \<and> ch' = ch\<lparr>ch_buf := ch_buf ch @ [v]\<rparr>"
  by (auto simp: select_send_def chan_send_def split: option.splits if_splits)

lemma select_send_refused:
  "select_send c v ch = Some (ch', Some e) \<Longrightarrow> ch' = ch \<and> ctx_Err c = Some e"
  by (auto simp: select_send_def split: option.splits if_splits)

lemma select_recv_Received:
  "select_recv c ch = Some (Received v, ch') \<Longrightarrow> \<exists>vs. ch_buf ch = v # vs \<and> ch' = ch\<lparr>ch_buf := vs\<rparr>"
  by (auto simp: select_recv_def chan_recv_Some split: option.splits if_splits prod.splits)

lemma select_recv_ContextDone:
  "select_recv c ch = Some (ContextDone, ch') \<Longrightarrow> ch' = ch \<and> ctx_Err c \<noteq> None"
  by (auto simp: select_recv_def split: option.splits if_splits prod.splits)

lemma select_send_Background:
  "ctx_Err c = None \<Longrightarrow> length (ch_buf ch) < ch_cap ch \<Longrightarrow>
     select_send c v ch = Some (ch\<lparr>ch_buf := ch_buf ch @ [v]\<rparr>, None)"
  by (simp add: select_send_def chan_send_def)

end
