(* ===== verification/Port_Pool.thy ===== *)
theory Port_Pool
  imports Go_Channels
begin

text \<open>
  \<open>internal/media/portalloc\<close>: the pool of RTP/RTCP port pairs. Binding and closing sockets is the
  operating system's part: the operations of a record \<open>udp\<close> over its state \<open>'o\<close>, with connections
  of a type \<open>'c\<close>. Goroutines that acquire and release leases interleave: the operations are also
  cut at every access to the state they share (\<open>task\<close>, \<open>pool_step\<close>).
\<close>

subsection \<open>Data\<close>

record pool_config =
  cfg_BindIP :: netip_addr
  cfg_StartPort :: "16 word"
  cfg_EndPort :: "16 word"

record ('o, 'c) udp =
  ListenUDP :: "string \<Rightarrow> addr_port \<Rightarrow> 'o \<Rightarrow> 'o \<times> 'c result"
  conn_Close :: "'c \<Rightarrow> 'o \<Rightarrow> 'o \<times> go_error option"

record 'c lease =
  le_rtpPort :: "16 word"
  le_rtpConn :: 'c
  le_rtcpConn :: 'c
  le_once :: bool
  le_released :: bool

text \<open>A pool and the leases it has handed out; a lease is referred to by its position.\<close>

record 'c pool =
  pool_bindIP :: netip_addr
  pool_available :: "16 word chan"
  pool_inUse :: int
  pool_leases :: "'c lease list"

definition ErrExhausted :: go_error where "ErrExhausted = Sentinel ''RTP port pool exhausted''"
definition ErrLeaseReleased :: go_error where "ErrLeaseReleased = Sentinel ''RTP port lease released''"

subsection \<open>Construction\<close>

function port_range :: "nat \<Rightarrow> nat \<Rightarrow> nat list" where
  "port_range port end = (if port + 1 \<le> end then port # port_range (port + 2) end else [])"
  by pat_completeness auto
termination by (relation "measure (\<lambda>(port, end). end + 1 - port)") auto

declare port_range.simps [simp del]

fun send_all :: "'a list \<Rightarrow> 'a chan \<Rightarrow> 'a chan option" where
  "send_all [] ch = Some ch"
| "send_all (v # vs) ch = (case chan_send v ch of None \<Rightarrow> None | Some ch' \<Rightarrow> send_all vs ch')"

definition pool_New :: "pool_config \<Rightarrow> 'c pool result option" where
  "pool_New cfg =
     (if \<not> addr_IsValid (cfg_BindIP cfg) \<or> addr_IsUnspecified (cfg_BindIP cfg)
      then Some (Inl (Errorf ''media bind IP must be a specified address''))
      else if cfg_StartPort cfg < 1024 \<or> cfg_StartPort cfg mod 2 \<noteq> 0
      then Some (Inl (Errorf ''RTP start port must be an even port at or above 1024''))
      else if cfg_EndPort cfg \<le> cfg_StartPort cfg \<or> cfg_EndPort cfg mod 2 = 0
      then Some (Inl (Errorf ''RTCP end port must be odd and above the RTP start port''))
      else
        let pairCount = go_div (uint (cfg_EndPort cfg) - uint (cfg_StartPort cfg) + 1) 2
        in if pairCount \<le> 0 then Some (Inl (Errorf ''RTP port range contains no pairs''))
           else case send_all (map of_nat (port_range (unat (cfg_StartPort cfg)) (unat (cfg_EndPort cfg))))
                       (chan_make (nat pairCount)) of
                  None \<Rightarrow> None
                | Some ch \<Rightarrow> Some (Inr \<lparr>pool_bindIP = cfg_BindIP cfg, pool_available = ch,
                                         pool_inUse = 0, pool_leases = []\<rparr>))"

subsection \<open>Acquiring\<close>

definition pool_bind :: "('o, 'c) udp \<Rightarrow> netip_addr \<Rightarrow> 16 word \<Rightarrow> 'o \<Rightarrow> 'o \<times> ('c \<times> 'c) result" where
  "pool_bind u bindIP port os =
     (let network = (if addr_Is6 bindIP then ''udp6'' else ''udp4'')
      in case ListenUDP u network (AddrPortFrom bindIP port) os of
           (os1, Inl e) \<Rightarrow> (os1, Inl (Wrapf ''bind RTP port %d: %w'' e))
         | (os1, Inr rtpConn) \<Rightarrow>
             (case ListenUDP u network (AddrPortFrom bindIP (port + 1)) os1 of
                (os2, Inl e) \<Rightarrow> (fst (conn_Close u rtpConn os2), Inl (Wrapf ''bind RTCP port %d: %w'' e))
              | (os2, Inr rtcpConn) \<Rightarrow> (os2, Inr (rtpConn, rtcpConn))))"

text \<open>The \<open>select\<close> of \<open>Acquire\<close>, with its \<open>default\<close> arm.\<close>

definition acquire_select :: "ctx \<Rightarrow> 16 word chan \<Rightarrow> 16 word result \<times> 16 word chan" where
  "acquire_select c ch =
     (case (chan_recv ch, ctx_Err c) of
        (None, None) \<Rightarrow> (Inl ErrExhausted, ch)
      | (None, Some e) \<Rightarrow> (Inl e, ch)
      | (Some (port, ch'), None) \<Rightarrow> (Inr port, ch')
      | (Some (port, ch'), Some e) \<Rightarrow> if ctx_pick c then (Inr port, ch') else (Inl e, ch))"

definition new_lease :: "16 word \<Rightarrow> 'c \<times> 'c \<Rightarrow> 'c lease" where
  "new_lease port conns =
     \<lparr>le_rtpPort = port, le_rtpConn = fst conns, le_rtcpConn = snd conns,
      le_once = False, le_released = False\<rparr>"

text \<open>
  The loop of \<open>Acquire\<close>. The context is given per iteration, since it may be cancelled in between;
  the result carries the ports that could not be bound.
\<close>

fun acquire_loop ::
  "('o, 'c) udp \<Rightarrow> (nat \<Rightarrow> ctx) \<Rightarrow> nat \<Rightarrow> 16 word list \<Rightarrow> 'c pool \<Rightarrow> 'o \<Rightarrow>
     16 word list \<times> 'c pool \<times> 'o \<times> nat result" where
  "acquire_loop u cs 0 failed p os = (failed, p, os, Inl ErrExhausted)"
| "acquire_loop u cs (Suc n) failed p os =
     (case acquire_select (cs n) (pool_available p) of
        (Inl e, ch) \<Rightarrow> (failed, p, os, Inl e)
      | (Inr port, ch) \<Rightarrow>
          (let p1 = p\<lparr>pool_available := ch\<rparr>
           in case pool_bind u (pool_bindIP p1) port os of
                (os', Inl _) \<Rightarrow> acquire_loop u cs n (failed @ [port]) p1 os'
              | (os', Inr conns) \<Rightarrow>
                  (failed, p1\<lparr>pool_inUse := pool_inUse p1 + 1,
                              pool_leases := pool_leases p1 @ [new_lease port conns]\<rparr>,
                   os', Inr (length (pool_leases p1)))))"

text \<open>\<open>Acquire\<close> on a pool, with its deferred sends; \<open>None\<close> if one of them blocks.\<close>

definition acquire_pool ::
  "('o, 'c) udp \<Rightarrow> (nat \<Rightarrow> ctx) \<Rightarrow> 'c pool \<Rightarrow> 'o \<Rightarrow> ('c pool \<times> 'o \<times> nat result) option" where
  "acquire_pool u cs p os =
     (case acquire_loop u cs (ch_cap (pool_available p)) [] p os of
        (failed, p', os', r) \<Rightarrow>
          (case send_all failed (pool_available p') of
             None \<Rightarrow> None
           | Some ch \<Rightarrow> Some (p'\<lparr>pool_available := ch\<rparr>, os', r)))"

text \<open>\<open>None\<close> for the pool is the \<open>nil\<close> receiver.\<close>

definition pool_Acquire ::
  "('o, 'c) udp \<Rightarrow> (nat \<Rightarrow> ctx) \<Rightarrow> 'c pool option \<Rightarrow> 'o \<Rightarrow> ('c pool option \<times> 'o \<times> nat result) option" where
  "pool_Acquire u cs q os =
     (case q of
        None \<Rightarrow> Some (None, os, Inl (Errorf ''RTP port pool is required''))
      | Some p \<Rightarrow> map_option (\<lambda>(p', os', r). (Some p', os', r)) (acquire_pool u cs p os))"

subsection \<open>Leases\<close>

definition lease_RTPPort :: "'c lease \<Rightarrow> 16 word" where "lease_RTPPort l = le_rtpPort l"

definition lease_RTCPPort :: "'c lease \<Rightarrow> 16 word" where "lease_RTCPPort l = le_rtpPort l + 1"

definition lease_RTPConn :: "'c lease option \<Rightarrow> 'c result" where
  "lease_RTPConn l =
     (case l of
        None \<Rightarrow> Inl ErrLeaseReleased
      | Some x \<Rightarrow> if le_released x then Inl ErrLeaseReleased else Inr (le_rtpConn x))"

definition lease_RTCPConn :: "'c lease option \<Rightarrow> 'c result" where
  "lease_RTCPConn l =
     (case l of
        None \<Rightarrow> Inl ErrLeaseReleased
      | Some x \<Rightarrow> if le_released x then Inl ErrLeaseReleased else Inr (le_rtcpConn x))"

definition close_both :: "('o, 'c) udp \<Rightarrow> 'c lease \<Rightarrow> 'o \<Rightarrow> 'o \<times> go_error option" where
  "close_both u l os =
     (let (os1, e1) = conn_Close u (le_rtpConn l) os;
          (os2, e2) = conn_Close u (le_rtcpConn l) os1
      in (os2, errors_Join [e1, e2]))"

text \<open>\<open>None\<close> for the lease is the \<open>nil\<close> receiver.\<close>

definition lease_Release ::
  "('o, 'c) udp \<Rightarrow> nat option \<Rightarrow> 'c pool \<Rightarrow> 'o \<Rightarrow> ('c pool \<times> 'o \<times> go_error option) option" where
  "lease_Release u h p os =
     (case h of
        None \<Rightarrow> Some (p, os, None)
      | Some i \<Rightarrow>
          (let l = pool_leases p ! i
           in if le_once l then Some (p, os, None)
              else
                let (os', err) = close_both u l os
                in case chan_send (le_rtpPort l) (pool_available p) of
                     None \<Rightarrow> None
                   | Some ch \<Rightarrow>
                       Some (p\<lparr>pool_leases := (pool_leases p)[i := l\<lparr>le_once := True, le_released := True\<rparr>],
                               pool_inUse := pool_inUse p - 1, pool_available := ch\<rparr>, os', err)))"

definition pool_Capacity :: "'c pool \<Rightarrow> nat" where "pool_Capacity p = ch_cap (pool_available p)"

definition pool_InUse :: "'c pool \<Rightarrow> int" where "pool_InUse p = pool_inUse p"

subsection \<open>Interleaved goroutines\<close>

text \<open>
  The program points of a goroutine in \<open>Acquire\<close> (the first four) and in \<open>Release\<close> (the next
  three), between its accesses to the channel, the counter, the sockets and the leases.
\<close>

datatype task =
    Trying nat "16 word list"
  | Binding "16 word" nat "16 word list"
  | Counting nat "16 word list"
  | Restoring "16 word list" "nat result"
  | Closing nat
  | Uncounting nat
  | Returning nat
  | Finished

fun task_step ::
  "('o, 'c) udp \<Rightarrow> ctx \<Rightarrow> task \<Rightarrow> 'c pool \<Rightarrow> 'o \<Rightarrow> (task \<times> 'c pool \<times> 'o) option" where
  "task_step u c (Trying 0 failed) p os = Some (Restoring failed (Inl ErrExhausted), p, os)"
| "task_step u c (Trying (Suc n) failed) p os =
     (case acquire_select c (pool_available p) of
        (Inl e, ch) \<Rightarrow> Some (Restoring failed (Inl e), p, os)
      | (Inr port, ch) \<Rightarrow> Some (Binding port n failed, p\<lparr>pool_available := ch\<rparr>, os))"
| "task_step u c (Binding port n failed) p os =
     (case pool_bind u (pool_bindIP p) port os of
        (os', Inl _) \<Rightarrow> Some (Trying n (failed @ [port]), p, os')
      | (os', Inr conns) \<Rightarrow>
          Some (Counting (length (pool_leases p)) failed,
                p\<lparr>pool_leases := pool_leases p @ [new_lease port conns]\<rparr>, os'))"
| "task_step u c (Counting h failed) p os =
     Some (Restoring failed (Inr h), p\<lparr>pool_inUse := pool_inUse p + 1\<rparr>, os)"
| "task_step u c (Restoring [] r) p os = Some (Finished, p, os)"
| "task_step u c (Restoring (port # ports) r) p os =
     map_option (\<lambda>ch. (Restoring ports r, p\<lparr>pool_available := ch\<rparr>, os)) (chan_send port (pool_available p))"
| "task_step u c (Closing h) p os = Some (Uncounting h, p, fst (close_both u (pool_leases p ! h) os))"
| "task_step u c (Uncounting h) p os = Some (Returning h, p\<lparr>pool_inUse := pool_inUse p - 1\<rparr>, os)"
| "task_step u c (Returning h) p os =
     map_option (\<lambda>ch. (Finished, p\<lparr>pool_available := ch\<rparr>, os))
       (chan_send (le_rtpPort (pool_leases p ! h)) (pool_available p))"
| "task_step u c Finished p os = None"

text \<open>The goroutine is still about to return the lease to its caller.\<close>

fun delivers :: "nat \<Rightarrow> task \<Rightarrow> bool" where
  "delivers h (Counting h' failed) = (h' = h)"
| "delivers h (Restoring failed r) = (r = Inr h)"
| "delivers h _ = False"

text \<open>
  A call of \<open>Release\<close> on a lease its caller has been given and that enters \<open>once.Do\<close> marks the
  lease; any other call does nothing.
\<close>

inductive pool_step ::
  "('o, 'c) udp \<Rightarrow> task list \<times> 'c pool \<times> 'o \<Rightarrow> task list \<times> 'c pool \<times> 'o \<Rightarrow> bool" for u where
  call_acquire: "pool_step u (ts, p, os) (ts @ [Trying (ch_cap (pool_available p)) []], p, os)"
| call_release: "pool_leases p = ls @ l # ls' \<Longrightarrow> \<not> le_once l \<Longrightarrow> \<not> list_ex (delivers (length ls)) ts \<Longrightarrow>
    pool_step u (ts, p, os)
      (ts @ [Closing (length ls)],
       p\<lparr>pool_leases := ls @ l\<lparr>le_once := True, le_released := True\<rparr> # ls'\<rparr>, os)"
| run_task: "task_step u c t p os = Some (t', p', os') \<Longrightarrow>
    pool_step u (ts @ t # ts', p, os) (ts @ t' # ts', p', os')"

subsection \<open>Invariant: every port has one owner\<close>

text \<open>The ports a goroutine holds, given the ports of the leases.\<close>

fun held :: "16 word list \<Rightarrow> task \<Rightarrow> 16 word multiset" where
  "held ps (Trying n failed) = mset failed"
| "held ps (Binding port n failed) = add_mset port (mset failed)"
| "held ps (Counting h failed) = mset failed"
| "held ps (Restoring failed r) = mset failed"
| "held ps (Closing h) = {#ps ! h#}"
| "held ps (Uncounting h) = {#ps ! h#}"
| "held ps (Returning h) = {#ps ! h#}"
| "held ps Finished = {#}"

fun task_ok :: "nat \<Rightarrow> task \<Rightarrow> bool" where
  "task_ok n (Counting h failed) = (h < n)"
| "task_ok n (Closing h) = (h < n)"
| "task_ok n (Uncounting h) = (h < n)"
| "task_ok n (Returning h) = (h < n)"
| "task_ok n _ = True"



text \<open>By how much a goroutine's lease is missing from, or still counted in, \<open>inUse\<close>.\<close>

fun uncounted :: "task \<Rightarrow> int" where
  "uncounted (Counting h failed) = 1"
| "uncounted (Closing h) = - 1"
| "uncounted (Uncounting h) = - 1"
| "uncounted _ = 0"

definition open_leases :: "'c pool \<Rightarrow> 'c lease list" where
  "open_leases p = filter (\<lambda>l. \<not> le_once l) (pool_leases p)"

definition lease_ports :: "'c pool \<Rightarrow> 16 word list" where
  "lease_ports p = map le_rtpPort (pool_leases p)"

definition pool_inv :: "16 word list \<Rightarrow> task list \<times> 'c pool \<times> 'o \<Rightarrow> bool" where
  "pool_inv ports s \<longleftrightarrow>
     (case s of (ts, p, os) \<Rightarrow>
        mset (ch_buf (pool_available p)) + sum_list (map (held (lease_ports p)) ts) +
          mset (map le_rtpPort (open_leases p)) = mset ports \<and>
        ch_cap (pool_available p) = length ports \<and>
        list_all (task_ok (length (pool_leases p))) ts \<and>
        list_all (\<lambda>l. le_released l = le_once l) (pool_leases p) \<and>
        pool_inUse p + sum_list (map uncounted ts) = int (length (open_leases p)))"

lemma held_append: "task_ok (length ps) t \<Longrightarrow> held (ps @ qs) t = held ps t"
  by (cases "(ps, t)" rule: held.cases) (auto simp: nth_append)

lemma held_all_append:
  "list_all (task_ok (length ps)) ts \<Longrightarrow>
     sum_list (map (held (ps @ qs)) ts) = sum_list (map (held ps) ts)"
  by (induction ts) (auto simp: held_append)

lemma task_ok_mono: "task_ok n t \<Longrightarrow> n \<le> m \<Longrightarrow> task_ok m t"
  by (cases "(n, t)" rule: task_ok.cases) auto

lemma tasks_ok_mono: "list_all (task_ok n) ts \<Longrightarrow> n \<le> m \<Longrightarrow> list_all (task_ok m) ts"
  by (auto simp: list_all_iff intro: task_ok_mono)

lemma acquire_select_taken:
  "acquire_select c ch = (Inr port, ch') \<Longrightarrow>
     ch_buf ch = port # ch_buf ch' \<and> ch_cap ch' = ch_cap ch"
  by (auto simp: acquire_select_def chan_recv_Some split: option.splits if_splits prod.splits)

lemma pool_frame [simp]:
  "lease_ports (p\<lparr>pool_available := ch\<rparr>) = lease_ports p"
  "lease_ports (p\<lparr>pool_inUse := n\<rparr>) = lease_ports p"
  "open_leases (p\<lparr>pool_available := ch\<rparr>) = open_leases p"
  "open_leases (p\<lparr>pool_inUse := n\<rparr>) = open_leases p"
  "length (lease_ports p) = length (pool_leases p)"
  by (simp_all add: lease_ports_def open_leases_def)

lemma lease_ports_nth: "h < length (pool_leases p) \<Longrightarrow> lease_ports p ! h = le_rtpPort (pool_leases p ! h)"
  by (simp add: lease_ports_def)

lemma pool_new_lease:
  "lease_ports (p\<lparr>pool_leases := pool_leases p @ [new_lease port conns]\<rparr>) = lease_ports p @ [port]"
  "open_leases (p\<lparr>pool_leases := pool_leases p @ [new_lease port conns]\<rparr>) = open_leases p @ [new_lease port conns]"
  "le_rtpPort (new_lease port conns) = port" "le_released (new_lease port conns) = le_once (new_lease port conns)"
  by (simp_all add: lease_ports_def open_leases_def new_lease_def)

lemma task_step_inv:
  assumes "task_step u c t p os = Some (t', p', os')" and "pool_inv ports (ts @ t # ts', p, os)"
  shows "pool_inv ports (ts @ t' # ts', p', os')"
  using assms
proof (cases "(u, c, t, p, os)" rule: task_step.cases)
  case (2 u c n failed p os)
  then show ?thesis using assms acquire_select_taken [of c "pool_available p"]
    by (auto simp: pool_inv_def split: sum.splits prod.splits)
next
  case (3 u c port n failed p os)
  obtain os1 r where b: "pool_bind u (pool_bindIP p) port os = (os1, r)" by fastforce
  show ?thesis
  proof (cases r)
    case (Inl e)
    then show ?thesis using 3 b assms by (auto simp: pool_inv_def)
  next
    case (Inr conns)
    have ok: "list_all (task_ok (length (lease_ports p))) (ts @ ts')" using 3 assms(2) by (simp add: pool_inv_def)
    have "sum_list (map (held (lease_ports p @ [port])) ts) = sum_list (map (held (lease_ports p)) ts)"
      "sum_list (map (held (lease_ports p @ [port])) ts') = sum_list (map (held (lease_ports p)) ts')"
      using ok by (auto intro!: held_all_append)
    moreover have "list_all (task_ok (Suc (length (pool_leases p)))) (ts @ ts')"
      using ok by (auto intro: tasks_ok_mono)
    ultimately show ?thesis using 3 b Inr assms by (auto simp: pool_inv_def pool_new_lease)
  qed
next
  case (6 u c port ports r p os)
  then show ?thesis using assms by (auto simp: pool_inv_def chan_send_Some)
next
  case (9 u c h p os)
  then show ?thesis using assms by (auto simp: pool_inv_def chan_send_Some lease_ports_nth)
qed (auto simp: pool_inv_def)

lemma pool_step_inv:
  assumes "pool_step u s s'" and "pool_inv ports s"
  shows "pool_inv ports s'"
  using assms(1)
proof cases
  case (call_acquire ts p os)
  then show ?thesis using assms(2) by (simp add: pool_inv_def)
next
  case (call_release p ls l ls' ts os)
  let ?p = "p\<lparr>pool_leases := ls @ l\<lparr>le_once := True, le_released := True\<rparr> # ls'\<rparr>"
  have "lease_ports ?p = lease_ports p" using call_release by (simp add: lease_ports_def)
  moreover have "lease_ports p ! length ls = le_rtpPort l" using call_release by (simp add: lease_ports_def nth_append)
  ultimately show ?thesis using call_release assms(2)
    by (auto simp: pool_inv_def open_leases_def)
next
  case (run_task c t p os t' p' os' ts ts')
  then show ?thesis using task_step_inv [OF run_task(3)] assms(2) by simp
qed

lemma pool_reach_inv:
  assumes "(pool_step u)\<^sup>*\<^sup>* s s'" and "pool_inv ports s"
  shows "pool_inv ports s'"
  using assms by induction (auto intro: pool_step_inv)

subsection \<open>The ports of a pool\<close>

lemma port_range_set: "set (port_range a b) = {k. a \<le> k \<and> k + 1 \<le> b \<and> even (k - a)}"
proof (induction a b rule: port_range.induct)
  case (1 a b)
  show ?case
  proof (cases "a + 1 \<le> b")
    case True
    have "set (port_range a b) = insert a {k. a + 2 \<le> k \<and> k + 1 \<le> b \<and> even (k - (a + 2))}"
      using 1 [OF True] True by (subst port_range.simps) simp
    also have "\<dots> = {k. a \<le> k \<and> k + 1 \<le> b \<and> even (k - a)}"
    proof (rule set_eqI)
      fix k
      have "a \<le> k \<and> even (k - a) \<longleftrightarrow> k = a \<or> a + 2 \<le> k \<and> even (k - (a + 2))"
        by presburger
      then show "k \<in> insert a {k. a + 2 \<le> k \<and> k + 1 \<le> b \<and> even (k - (a + 2))} \<longleftrightarrow>
          k \<in> {k. a \<le> k \<and> k + 1 \<le> b \<and> even (k - a)}"
        using True by auto
    qed
    finally show ?thesis .
  next
    case False
    then show ?thesis by (subst port_range.simps) auto
  qed
qed

lemma port_range_distinct: "distinct (port_range a b)"
proof (induction a b rule: port_range.induct)
  case (1 a b)
  then show ?case by (subst port_range.simps) (auto simp: port_range_set)
qed

lemma port_range_length: "length (port_range a b) = (b + 1 - a) div 2"
proof (induction a b rule: port_range.induct)
  case (1 a b)
  then show ?case by (subst port_range.simps) auto
qed

definition pool_ports :: "pool_config \<Rightarrow> 16 word list" where
  "pool_ports cfg = map of_nat (port_range (unat (cfg_StartPort cfg)) (unat (cfg_EndPort cfg)))"

lemma unat_bound16: "unat (w :: 16 word) < 65536"
  using unsigned_less [of w] by simp

lemma pool_ports_distinct: "distinct (pool_ports cfg)"
proof -
  have "inj_on (of_nat :: nat \<Rightarrow> 16 word) (set (port_range (unat (cfg_StartPort cfg)) (unat (cfg_EndPort cfg))))"
  proof (rule inj_onI)
    fix i j
    assume ij: "i \<in> set (port_range (unat (cfg_StartPort cfg)) (unat (cfg_EndPort cfg)))"
      "j \<in> set (port_range (unat (cfg_StartPort cfg)) (unat (cfg_EndPort cfg)))"
      and eq: "(of_nat i :: 16 word) = of_nat j"
    have "i < 65536" "j < 65536" using ij unat_bound16 [of "cfg_EndPort cfg"] by (auto simp: port_range_set)
    then show "i = j" using arg_cong [OF eq, of unat] by (simp add: unat_of_nat)
  qed
  then show ?thesis by (simp add: pool_ports_def distinct_map port_range_distinct)
qed

lemma pool_ports_even:
  assumes "w \<in> set (pool_ports cfg)" and "even (unat (cfg_StartPort cfg))"
  shows "even (unat w)" and "unat (w + 1) = unat w + 1"
    and "unat (cfg_StartPort cfg) \<le> unat w" and "unat w + 1 \<le> unat (cfg_EndPort cfg)"
proof -
  from assms(1) obtain k where k: "w = of_nat k" "unat (cfg_StartPort cfg) \<le> k"
    "k + 1 \<le> unat (cfg_EndPort cfg)" "even (k - unat (cfg_StartPort cfg))"
    by (auto simp: pool_ports_def port_range_set)
  then have lt: "k + 1 < 65536" using unat_bound16 [of "cfg_EndPort cfg"] by simp
  then have w: "unat w = k" using k(1) by (simp add: unat_of_nat)
  show "even (unat w)" using assms(2) k w by presburger
  show "unat (w + 1) = unat w + 1" using lt w by (simp add: unat_word_ariths)
  show "unat (cfg_StartPort cfg) \<le> unat w" "unat w + 1 \<le> unat (cfg_EndPort cfg)" using k w by simp_all
qed

lemma send_all_room:
  "length (ch_buf ch) + length vs \<le> ch_cap ch \<Longrightarrow> send_all vs ch = Some (ch\<lparr>ch_buf := ch_buf ch @ vs\<rparr>)"
  by (induction vs arbitrary: ch) (auto simp: chan_send_def)

lemma word_even: "even (w :: 16 word) \<longleftrightarrow> even (unat w)"
proof -
  have "unat (w mod 2) = unat w mod 2" by (simp add: unat_mod)
  then show ?thesis by (metis even_iff_mod_2_eq_zero unat_eq_zero)
qed

lemma pool_New_Inr:
  assumes "pool_New cfg = Some (Inr p)"
  shows "pool_inv (pool_ports cfg) ([], p, os)" and "even (unat (cfg_StartPort cfg))"
    and "1024 \<le> unat (cfg_StartPort cfg)" and "pool_leases p = []"
proof -
  let ?s = "cfg_StartPort cfg" and ?e = "cfg_EndPort cfg"
  have g: "\<not> ?s < 1024" "\<not> odd (unat ?s)" "\<not> ?e \<le> ?s"
    using assms by (auto simp: pool_New_def word_even Let_def split: if_splits option.splits)
  then have lt: "unat ?s < unat ?e" by (simp add: word_less_nat_alt word_le_nat_alt)
  then have "uint ?e - uint ?s + 1 = int (unat ?e + 1 - unat ?s)"
    unfolding uint_nat by linarith
  then have "go_div (uint ?e - uint ?s + 1) 2 = int ((unat ?e + 1 - unat ?s) div 2)"
    by (simp only: go_div_nonneg of_nat_0_le_iff zero_less_numeral zdiv_int of_nat_numeral)
  then have n: "nat (go_div (uint ?e - uint ?s + 1) 2) = length (pool_ports cfg)"
    by (simp add: pool_ports_def port_range_length)
  have "send_all (pool_ports cfg) (chan_make (length (pool_ports cfg))) =
      Some \<lparr>ch_cap = length (pool_ports cfg), ch_buf = pool_ports cfg\<rparr>"
    by (subst send_all_room) (simp_all add: chan_make_def)
  then have "p = \<lparr>pool_bindIP = cfg_BindIP cfg,
      pool_available = \<lparr>ch_cap = length (pool_ports cfg), ch_buf = pool_ports cfg\<rparr>,
      pool_inUse = 0, pool_leases = []\<rparr>"
    using assms n unfolding pool_New_def Let_def pool_ports_def by (auto split: if_splits)
  then show "pool_inv (pool_ports cfg) ([], p, os)" "pool_leases p = []"
    by (simp_all add: pool_inv_def open_leases_def)
  show "even (unat ?s)" using g(2) by simp
  show "1024 \<le> unat ?s" using g(1) by (simp add: word_less_nat_alt)
qed

lemma pool_reached:
  assumes "pool_New cfg = Some (Inr p0)" and "(pool_step u)\<^sup>*\<^sup>* ([], p0, os0) (ts, p, os)"
  shows "pool_inv (pool_ports cfg) (ts, p, os)"
  using pool_reach_inv [OF assms(2) pool_New_Inr(1) [OF assms(1)]] .

lemma pool_inv_owners:
  assumes "pool_inv ports (ts, p, os)"
  shows "mset ports = mset (ch_buf (pool_available p)) + sum_list (map (held (lease_ports p)) ts) +
     mset (map le_rtpPort (open_leases p))"
    and "ch_cap (pool_available p) = length ports"
  using assms by (simp_all add: pool_inv_def)

lemma open_lease_port:
  assumes "pool_inv ports (ts, p, os)" and "l \<in> set (open_leases p)"
  shows "le_rtpPort l \<in> set ports"
proof -
  have "le_rtpPort l \<in># mset ports"
    unfolding pool_inv_owners(1) [OF assms(1)] using assms(2) by simp
  then show ?thesis by simp
qed

lemma open_ports_distinct:
  assumes "pool_inv ports (ts, p, os)" and "distinct ports"
  shows "distinct (map le_rtpPort (open_leases p))"
proof -
  obtain zs where "mset zs = mset (ch_buf (pool_available p)) + sum_list (map (held (lease_ports p)) ts)"
    using ex_mset by blast
  then have "mset ports = mset (zs @ map le_rtpPort (open_leases p))"
    using pool_inv_owners(1) [OF assms(1)] by simp
  from mset_eq_imp_distinct_iff [OF this] show ?thesis using assms(2) by simp
qed

fun task_steps_left :: "task \<Rightarrow> nat" where
  "task_steps_left (Trying n failed) = 4 * n + length failed + 3"
| "task_steps_left (Binding port n failed) = 4 * n + length failed + 6"
| "task_steps_left (Counting h failed) = length failed + 3"
| "task_steps_left (Restoring failed r) = length failed + 1"
| "task_steps_left (Closing h) = 3"
| "task_steps_left (Uncounting h) = 2"
| "task_steps_left (Returning h) = 1"
| "task_steps_left Finished = 0"

lemma task_step_decreases:
  "task_step u c t p os = Some (t', p', os') \<Longrightarrow> task_steps_left t' < task_steps_left t"
  by (cases "(u, c, t, p, os)" rule: task_step.cases) (auto split: sum.splits prod.splits)

lemma holder_has_room:
  assumes "pool_inv ports (ts, p, os)" and "t \<in> set ts" and "held (lease_ports p) t \<noteq> {#}"
  shows "length (ch_buf (pool_available p)) < ch_cap (pool_available p)"
proof -
  obtain xs ys where ts: "ts = xs @ t # ys" using assms(2) by (meson split_list)
  have "length ports = size (mset (ch_buf (pool_available p)) + sum_list (map (held (lease_ports p)) ts) +
      mset (map le_rtpPort (open_leases p)))"
    unfolding pool_inv_owners(1) [OF assms(1), symmetric] by simp
  moreover have "0 < size (held (lease_ports p) t)" using assms(3) by (simp add: nonempty_has_size)
  ultimately show ?thesis using ts pool_inv_owners(2) [OF assms(1)] by simp
qed

lemma task_not_blocked:
  assumes "pool_inv ports (ts, p, os)" and "t \<in> set ts" and "t \<noteq> Finished"
  shows "task_step u c t p os \<noteq> None"
proof (cases "held (lease_ports p) t = {#}")
  case False
  from holder_has_room [OF assms(1,2) False] show ?thesis using assms(3)
    by (cases "(u, c, t, p, os)" rule: task_step.cases)
      (auto simp: chan_send_def split: sum.splits prod.splits)
next
  case True
  then show ?thesis using assms(3)
    by (cases "(u, c, t, p, os)" rule: task_step.cases) (auto split: sum.splits prod.splits)
qed

text \<open>C10: however the goroutines that acquire and release leases interleave, and whatever binding a
  socket does, leases that have not been released never share a port: their RTP ports are distinct
  even ports of the configured range, and each RTCP port is the odd one above, within the range and
  different from every port of any other lease.\<close>

theorem pool_exclusive:
  assumes "pool_New cfg = Some (Inr p0)" and "(pool_step u)\<^sup>*\<^sup>* ([], p0, os0) (ts, p, os)"
    and "i < j" and "j < length (open_leases p)"
  shows "let a = open_leases p ! i; b = open_leases p ! j in
     even (unat (lease_RTPPort a)) \<and> unat (lease_RTCPPort a) = unat (lease_RTPPort a) + 1 \<and>
     unat (cfg_StartPort cfg) \<le> unat (lease_RTPPort a) \<and> unat (lease_RTCPPort a) \<le> unat (cfg_EndPort cfg) \<and>
     distinct [lease_RTPPort a, lease_RTCPPort a, lease_RTPPort b, lease_RTCPPort b]"
proof -
  note inv = pool_reached [OF assms(1,2)]
  let ?a = "le_rtpPort (open_leases p ! i)" and ?b = "le_rtpPort (open_leases p ! j)"
  have in_pool: "?a \<in> set (pool_ports cfg)" "?b \<in> set (pool_ports cfg)"
    using open_lease_port [OF inv] assms(3,4) nth_mem by auto
  note pa = pool_ports_even [OF in_pool(1) pool_New_Inr(2) [OF assms(1)]]
  note pb = pool_ports_even [OF in_pool(2) pool_New_Inr(2) [OF assms(1)]]
  have ne: "?a \<noteq> ?b"
    using open_ports_distinct [OF inv pool_ports_distinct] assms(3,4)
    by (simp add: distinct_conv_nth)
  have "?a + 1 \<noteq> ?b" "?b + 1 \<noteq> ?a" "?a + 1 \<noteq> ?a" "?b + 1 \<noteq> ?b" using pa(1,2) pb(1,2) by (metis even_plus_one_iff)+
  then show ?thesis using ne pa by (auto simp: Let_def lease_RTPPort_def lease_RTCPPort_def)
qed

text \<open>C35: no send to the pool's channel ever blocks, neither the deferred sends of \<open>Acquire\<close> nor the
  one of \<open>Release\<close>: in every reachable state every goroutine that has not returned can take its next
  step, and each step brings it nearer to its return.\<close>

theorem pool_never_blocks:
  assumes "pool_New cfg = Some (Inr p0)" and "(pool_step u)\<^sup>*\<^sup>* ([], p0, os0) (ts, p, os)"
    and "t \<in> set ts" and "t \<noteq> Finished"
  shows "\<exists>t' p' os'. task_step u c t p os = Some (t', p', os') \<and> task_steps_left t' < task_steps_left t"
proof -
  obtain t' p' os' where "task_step u c t p os = Some (t', p', os')"
    using task_not_blocked [OF pool_reached [OF assms(1,2)] assms(3,4)] by fastforce
  from this task_step_decreases [OF this] show ?thesis by (intro exI conjI)
qed

text \<open>When no goroutine is inside \<open>Acquire\<close> or \<open>Release\<close>, \<open>InUse\<close> is the number of leases that
  have not been released, and the ports of those leases together with the available ones are
  exactly the ports the pool was configured with.\<close>

theorem pool_accounting:
  assumes "pool_New cfg = Some (Inr p0)" and "(pool_step u)\<^sup>*\<^sup>* ([], p0, os0) (ts, p, os)"
    and "set ts \<subseteq> {Finished}"
  shows "pool_InUse p = int (length (open_leases p)) \<and>
     mset (ch_buf (pool_available p)) + mset (map le_rtpPort (open_leases p)) = mset (pool_ports cfg) \<and>
     pool_InUse p + int (length (ch_buf (pool_available p))) = int (pool_Capacity p)"
proof -
  have fin: "\<forall>t \<in> set ts. t = Finished" using assms(3) by blast
  then have "sum_list (map (held (lease_ports p)) ts) = {#}" "sum_list (map uncounted ts) = 0"
    by (induction ts) auto
  then have m: "mset (ch_buf (pool_available p)) + mset (map le_rtpPort (open_leases p)) = mset (pool_ports cfg)"
    and n: "pool_inUse p = int (length (open_leases p))" "ch_cap (pool_available p) = length (pool_ports cfg)"
    using pool_reached [OF assms(1,2)] by (simp_all add: pool_inv_def)
  have "length (ch_buf (pool_available p)) + length (open_leases p) = length (pool_ports cfg)"
    using arg_cong [OF m, of size] by simp
  then show ?thesis using m n by (simp add: pool_InUse_def pool_Capacity_def)
qed

subsection \<open>One operation at a time\<close>

lemma pool_inv_finished:
  "set ts \<subseteq> {Finished} \<Longrightarrow> pool_inv ports (ts, p, os) \<Longrightarrow> pool_inv ports ([], p, os')"
proof -
  assume "set ts \<subseteq> {Finished}" and inv: "pool_inv ports (ts, p, os)"
  then have "\<forall>t \<in> set ts. t = Finished" by blast
  then have "sum_list (map (held (lease_ports p)) ts) = {#}" "sum_list (map uncounted ts) = 0"
    by (induction ts) auto
  then show ?thesis using inv by (simp add: pool_inv_def)
qed

text \<open>What an attempt to acquire leaves of the leases.\<close>

definition leased :: "'c pool \<Rightarrow> nat result \<Rightarrow> 'c pool \<Rightarrow> bool" where
  "leased p r p' \<longleftrightarrow>
     (case r of
        Inl _ \<Rightarrow> pool_leases p' = pool_leases p
      | Inr h \<Rightarrow> h = length (pool_leases p) \<and>
          (\<exists>port conns. pool_leases p' = pool_leases p @ [new_lease port conns]))"

lemma acquire_loop_inv:
  assumes "pool_inv ports ([Trying n failed], p, os)"
    and "acquire_loop u cs n failed p os = (failed', p', os', r)"
  shows "pool_inv ports ([Restoring failed' r], p', os') \<and> leased p r p' \<and> pool_bindIP p' = pool_bindIP p"
  using assms
proof (induction n arbitrary: failed p os)
  case 0
  then show ?case by (auto simp: pool_inv_def leased_def)
next
  case (Suc n)
  obtain r1 ch where s: "acquire_select (cs n) (pool_available p) = (r1, ch)" by fastforce
  show ?case
  proof (cases r1)
    case (Inl e)
    then show ?thesis using Suc.prems s by (auto simp: pool_inv_def leased_def)
  next
    case (Inr port)
    let ?p = "p\<lparr>pool_available := ch\<rparr>"
    have step: "task_step u (cs n) (Trying (Suc n) failed) p os = Some (Binding port n failed, ?p, os)"
      using s Inr by simp
    have inv: "pool_inv ports ([] @ Binding port n failed # [], ?p, os)"
      by (rule task_step_inv [OF step]) (use Suc.prems in simp)
    obtain os1 b where b: "pool_bind u (pool_bindIP ?p) port os = (os1, b)" by fastforce
    show ?thesis
    proof (cases b)
      case (Inl e)
      have "pool_inv ports ([] @ Trying n (failed @ [port]) # [], ?p, os1)"
        by (rule task_step_inv [OF _ inv, of u "cs n"]) (use b Inl in simp)
      moreover have "acquire_loop u cs n (failed @ [port]) ?p os1 = (failed', p', os', r)"
        using Suc.prems(2) s Inr b Inl by simp
      ultimately show ?thesis using Suc.IH [of "failed @ [port]" ?p os1]
        by (auto simp: leased_def split: sum.splits)
    next
      case (Inr conns)
      let ?p1 = "?p\<lparr>pool_leases := pool_leases p @ [new_lease port conns]\<rparr>"
      have "pool_inv ports ([] @ Counting (length (pool_leases p)) failed # [], ?p1, os1)"
        by (rule task_step_inv [OF _ inv, of u "cs n"]) (use b Inr in simp)
      from task_step_inv [OF task_step.simps(4) this]
      have "pool_inv ports ([Restoring failed (Inr (length (pool_leases p)))],
          ?p1\<lparr>pool_inUse := pool_inUse p + 1\<rparr>, os1)" by simp
      moreover have "failed' = failed" "os' = os1" "r = Inr (length (pool_leases p))"
        "p' = ?p1\<lparr>pool_inUse := pool_inUse p + 1\<rparr>"
        using Suc.prems(2) s \<open>r1 = Inr port\<close> b Inr by (auto simp: Let_def)
      ultimately show ?thesis by (cases conns) (auto simp: leased_def)
    qed
  qed
qed

lemma acquire_pool_inv:
  assumes "pool_inv ports ([], p, os)"
  obtains p' os' r where "acquire_pool u cs p os = Some (p', os', r)" "pool_inv ports ([], p', os')"
    "leased p r p'" "pool_bindIP p' = pool_bindIP p"
proof -
  obtain failed p1 os1 r where loop:
    "acquire_loop u cs (ch_cap (pool_available p)) [] p os = (failed, p1, os1, r)"
    by (metis prod_cases4)
  have "pool_inv ports ([Trying (ch_cap (pool_available p)) []], p, os)" using assms by (simp add: pool_inv_def)
  note inv = acquire_loop_inv [OF this loop]
  then have "mset (ch_buf (pool_available p1)) + mset failed + mset (map le_rtpPort (open_leases p1)) = mset ports"
    "ch_cap (pool_available p1) = length ports" by (simp_all add: pool_inv_def)
  then have room: "length (ch_buf (pool_available p1)) + length failed \<le> ch_cap (pool_available p1)"
    by (metis le_add1 size_mset size_union)
  let ?p = "p1\<lparr>pool_available := (pool_available p1)\<lparr>ch_buf := ch_buf (pool_available p1) @ failed\<rparr>\<rparr>"
  have "acquire_pool u cs p os = Some (?p, os1, r)"
    using loop send_all_room [OF room] by (simp add: acquire_pool_def)
  moreover have "pool_inv ports ([], ?p, os1)" using inv by (simp add: pool_inv_def)
  moreover have "leased p r ?p" "pool_bindIP ?p = pool_bindIP p" using inv by (auto simp: leased_def split: sum.splits)
  ultimately show ?thesis using that by blast
qed

lemma lease_Release_inv:
  assumes "pool_inv ports ([], p, os)" and "h < length (pool_leases p)" and "\<not> le_once (pool_leases p ! h)"
  obtains p' os' e where "lease_Release u (Some h) p os = Some (p', os', e)" "pool_inv ports ([], p', os')"
    "pool_leases p' = (pool_leases p)[h := (pool_leases p ! h)\<lparr>le_once := True, le_released := True\<rparr>]"
    "pool_inUse p' = pool_inUse p - 1" "pool_bindIP p' = pool_bindIP p"
    "ch_buf (pool_available p') = ch_buf (pool_available p) @ [le_rtpPort (pool_leases p ! h)]"
proof -
  let ?l = "pool_leases p ! h"
  let ?l' = "?l\<lparr>le_once := True, le_released := True\<rparr>"
  obtain xs ys where ls: "pool_leases p = xs @ ?l # ys" "length xs = h"
    using assms(2) by (metis id_take_nth_drop length_take min.absorb4)
  have owners: "mset (ch_buf (pool_available p)) + mset (map le_rtpPort (open_leases p)) = mset ports"
    "ch_cap (pool_available p) = length ports" "pool_inUse p = int (length (open_leases p))"
    using assms(1) by (simp_all add: pool_inv_def)
  have op: "open_leases p = filter (\<lambda>l. \<not> le_once l) xs @ ?l # filter (\<lambda>l. \<not> le_once l) ys"
    unfolding open_leases_def by (subst ls(1)) (use assms(3) in simp)
  have "length (ch_buf (pool_available p)) + length (open_leases p) = length ports"
    using arg_cong [OF owners(1), of size] by simp
  then have room: "length (ch_buf (pool_available p)) < ch_cap (pool_available p)" using owners(2) op by simp
  define p' where "p' = p\<lparr>pool_leases := (pool_leases p)[h := ?l'], pool_inUse := pool_inUse p - 1,
      pool_available := (pool_available p)\<lparr>ch_buf := ch_buf (pool_available p) @ [le_rtpPort ?l]\<rparr>\<rparr>"
  have upd: "(pool_leases p)[h := ?l'] = xs @ ?l' # ys" using ls by (metis list_update_length)
  have "open_leases p' = filter (\<lambda>l. \<not> le_once l) xs @ filter (\<lambda>l. \<not> le_once l) ys"
    by (simp add: p'_def open_leases_def upd)
  moreover have "list_all (\<lambda>l. le_released l = le_once l) (xs @ ?l # ys)"
    using assms(1) ls(1) by (simp add: pool_inv_def)
  moreover obtain os1 e where cl: "close_both u ?l os = (os1, e)" by fastforce
  ultimately have "pool_inv ports ([], p', os1)"
    using owners op by (simp add: pool_inv_def p'_def upd add.commute)
  moreover from cl have "lease_Release u (Some h) p os = Some (p', os1, e)"
    using assms(3) room by (simp add: lease_Release_def chan_send_def p'_def Let_def)
  ultimately show ?thesis using that [of p' os1 e] by (simp add: p'_def)
qed

text \<open>With no other goroutine at work, \<open>Acquire\<close> returns; when it fails, the leases, \<open>InUse\<close> and
  the available ports are what they were (the ports that could not be bound are back, behind the
  others); when it succeeds there is one more lease, unreleased, and \<open>InUse\<close> has grown by one.\<close>

theorem acquire_outcome:
  assumes "pool_New cfg = Some (Inr p0)" and "(pool_step u)\<^sup>*\<^sup>* ([], p0, os0) (ts, p, os)"
    and "set ts \<subseteq> {Finished}"
  shows "\<exists>p' os' r. pool_Acquire u cs (Some p) os = Some (Some p', os', r) \<and>
     (case r of
        Inl _ \<Rightarrow> pool_leases p' = pool_leases p \<and> pool_InUse p' = pool_InUse p \<and>
          mset (ch_buf (pool_available p')) = mset (ch_buf (pool_available p))
      | Inr h \<Rightarrow> h = length (pool_leases p) \<and> pool_InUse p' = pool_InUse p + 1 \<and>
          (\<exists>l. pool_leases p' = pool_leases p @ [l] \<and> lease_RTPConn (Some l) = Inr (le_rtpConn l) \<and>
             lease_RTPPort l \<in># mset (ch_buf (pool_available p))))"
proof -
  have inv: "pool_inv (pool_ports cfg) ([], p, os)"
    by (rule pool_inv_finished [OF assms(3) pool_reached [OF assms(1,2)]])
  obtain p' os' r where a: "acquire_pool u cs p os = Some (p', os', r)"
    and inv': "pool_inv (pool_ports cfg) ([], p', os')" and l: "leased p r p'"
    by (rule acquire_pool_inv [OF inv])
  have eq: "mset (ch_buf (pool_available p)) + mset (map le_rtpPort (open_leases p)) =
      mset (ch_buf (pool_available p')) + mset (map le_rtpPort (open_leases p'))"
    "pool_inUse p = int (length (open_leases p))" "pool_inUse p' = int (length (open_leases p'))"
    using inv inv' by (simp_all add: pool_inv_def)
  show ?thesis
  proof (cases r)
    case (Inl e)
    then have "open_leases p' = open_leases p" using l by (simp add: leased_def open_leases_def)
    then show ?thesis using Inl a l eq by (simp add: pool_Acquire_def leased_def pool_InUse_def)
  next
    case (Inr h)
    then obtain port conns where p': "pool_leases p' = pool_leases p @ [new_lease port conns]"
      and h: "h = length (pool_leases p)" using l by (auto simp: leased_def)
    then have op: "open_leases p' = open_leases p @ [new_lease port conns]"
      by (simp add: open_leases_def new_lease_def)
    then have "mset (ch_buf (pool_available p)) = add_mset port (mset (ch_buf (pool_available p')))"
      using eq(1) by (simp add: pool_new_lease)
    then show ?thesis using Inr a p' h op eq
      by (simp add: pool_Acquire_def pool_InUse_def lease_RTPConn_def lease_RTPPort_def new_lease_def)
  qed
qed

text \<open>\<open>Release\<close> takes effect exactly once: the first call closes the lease, lowers \<open>InUse\<close> by one
  and puts the port behind the available ones, after which the lease gives out no socket; a second
  call changes nothing and reports no error.\<close>

theorem release_once:
  assumes "pool_New cfg = Some (Inr p0)" and "(pool_step u)\<^sup>*\<^sup>* ([], p0, os0) (ts, p, os)"
    and "set ts \<subseteq> {Finished}" and "h < length (pool_leases p)" and "\<not> le_released (pool_leases p ! h)"
  shows "\<exists>p' os' e. lease_Release u (Some h) p os = Some (p', os', e) \<and>
     pool_InUse p' = pool_InUse p - 1 \<and>
     ch_buf (pool_available p') = ch_buf (pool_available p) @ [lease_RTPPort (pool_leases p ! h)] \<and>
     lease_RTPConn (Some (pool_leases p' ! h)) = Inl ErrLeaseReleased \<and>
     lease_RTCPConn (Some (pool_leases p' ! h)) = Inl ErrLeaseReleased \<and>
     lease_Release u (Some h) p' os' = Some (p', os', None)"
proof -
  have inv: "pool_inv (pool_ports cfg) ([], p, os)"
    by (rule pool_inv_finished [OF assms(3) pool_reached [OF assms(1,2)]])
  then have "\<not> le_once (pool_leases p ! h)" using assms(4,5) by (auto simp: pool_inv_def list_all_length)
  then obtain p' os' e where "lease_Release u (Some h) p os = Some (p', os', e)"
    "pool_leases p' = (pool_leases p)[h := (pool_leases p ! h)\<lparr>le_once := True, le_released := True\<rparr>]"
    "pool_inUse p' = pool_inUse p - 1"
    "ch_buf (pool_available p') = ch_buf (pool_available p) @ [le_rtpPort (pool_leases p ! h)]"
    by (rule lease_Release_inv [OF inv assms(4)])
  moreover from this assms(4) have "le_once (pool_leases p' ! h)" "le_released (pool_leases p' ! h)" by simp_all
  ultimately show ?thesis
    by (simp add: pool_InUse_def lease_RTPConn_def lease_RTCPConn_def lease_RTPPort_def lease_Release_def)
qed

subsection \<open>A concrete pool\<close>

definition sample_cfg :: pool_config where
  "sample_cfg = \<lparr>cfg_BindIP = Addr4 2130706433, cfg_StartPort = 20000, cfg_EndPort = 20003\<rparr>"

definition sample_udp :: "(nat, nat) udp" where
  "sample_udp = \<lparr>ListenUDP = (\<lambda>net addr os. (Suc os, Inr os)), conn_Close = (\<lambda>c os. (os, None))\<rparr>"

definition sample_pool :: "nat lease list \<Rightarrow> 16 word list \<Rightarrow> int \<Rightarrow> nat pool" where
  "sample_pool ls ports n =
     \<lparr>pool_bindIP = Addr4 2130706433, pool_available = \<lparr>ch_cap = 2, ch_buf = ports\<rparr>,
      pool_inUse = n, pool_leases = ls\<rparr>"

lemma sample_pool_New: "pool_New sample_cfg = Some (Inr (sample_pool [] [20000, 20002] 0))"
proof -
  have ports: "port_range 20000 20003 = [20000, 20002]"
    by (simp add: port_range.simps [of 20000] port_range.simps [of 20002] port_range.simps [of 20004])
  show ?thesis
    by (simp add: pool_New_def sample_cfg_def sample_pool_def ports go_div_def chan_make_def chan_send_def)
qed

definition sample_lease :: "16 word \<Rightarrow> nat \<Rightarrow> nat lease" where
  "sample_lease port k = new_lease port (k, Suc k)"

lemma sample_bind: "pool_bind sample_udp ip port os = (Suc (Suc os), Inr (os, Suc os))"
  by (simp add: pool_bind_def sample_udp_def Let_def)

lemma sample_acquire:
  "(pool_step sample_udp)\<^sup>*\<^sup>* (ts, sample_pool ls (port # ports) n, os)
     (ts @ [Finished], sample_pool (ls @ [sample_lease port os]) ports (n + 1), Suc (Suc os))"
proof -
  let ?u = sample_udp and ?c = context_Background
  let ?p = "sample_pool ls (port # ports) n" and ?ls = "ls @ [sample_lease port os]"
  have "ch_cap (pool_available ?p) = 2" by (simp add: sample_pool_def)
  then have "(pool_step ?u)\<^sup>*\<^sup>* (ts, ?p, os) (ts @ Trying 2 [] # [], ?p, os)"
    using call_acquire [of ?u ts ?p os] by simp
  also have "pool_step ?u \<dots> (ts @ Binding port 1 [] # [], sample_pool ls ports n, os)"
    by (rule run_task [of ?u ?c])
      (simp add: numeral_2_eq_2 acquire_select_def chan_recv_def context_Background_def sample_pool_def)
  also have "pool_step ?u \<dots> (ts @ Counting (length ls) [] # [], sample_pool ?ls ports n, Suc (Suc os))"
    by (rule run_task [of ?u ?c]) (simp add: sample_bind sample_pool_def sample_lease_def)
  also have "pool_step ?u \<dots>
      (ts @ Restoring [] (Inr (length ls)) # [], sample_pool ?ls ports (n + 1), Suc (Suc os))"
    by (rule run_task [of ?u ?c]) (simp add: sample_pool_def)
  also have "pool_step ?u \<dots> (ts @ Finished # [], sample_pool ?ls ports (n + 1), Suc (Suc os))"
    by (rule run_task [of ?u ?c]) simp
  finally show ?thesis by simp
qed

definition sample_full :: "nat pool" where
  "sample_full = sample_pool [sample_lease 20000 0, sample_lease 20002 2] [] 2"

lemma sample_reached:
  "(pool_step sample_udp)\<^sup>*\<^sup>* ([], sample_pool [] [20000, 20002] 0, 0) ([Finished, Finished], sample_full, 4)"
proof (rule rtranclp_trans)
  show "(pool_step sample_udp)\<^sup>*\<^sup>* ([], sample_pool [] [20000, 20002] 0, 0)
      ([Finished], sample_pool [sample_lease 20000 0] [20002] 1, 2)"
    using sample_acquire [of "[]" "[]" 20000 "[20002]" 0 0] by (simp add: numeral_2_eq_2)
  show "(pool_step sample_udp)\<^sup>*\<^sup>* ([Finished], sample_pool [sample_lease 20000 0] [20002] 1, 2)
      ([Finished, Finished], sample_full, 4)"
    using sample_acquire [of "[Finished]" "[sample_lease 20000 0]" 20002 "[]" 1 2]
    by (simp add: sample_full_def)
qed

lemma sample_full_leases: "open_leases sample_full = [sample_lease 20000 0, sample_lease 20002 2]"
  by (simp add: sample_full_def sample_pool_def open_leases_def sample_lease_def new_lease_def)

theorem pool_exclusive_witness:
  "distinct [lease_RTPPort (sample_lease 20000 0), lease_RTCPPort (sample_lease 20000 0),
     lease_RTPPort (sample_lease 20002 2), lease_RTCPPort (sample_lease 20002 2)]"
  using pool_exclusive [OF sample_pool_New sample_reached, of 0 1]
  by (simp add: sample_full_leases Let_def)

theorem pool_never_blocks_witness:
  "\<exists>t' p' os'. task_step sample_udp context_Background (Trying 2 []) sample_full 4 = Some (t', p', os') \<and>
     task_steps_left t' < task_steps_left (Trying 2 [])"
proof -
  have "ch_cap (pool_available sample_full) = 2" by (simp add: sample_full_def sample_pool_def)
  then have "(pool_step sample_udp)\<^sup>*\<^sup>* ([], sample_pool [] [20000, 20002] 0, 0)
      ([Finished, Finished, Trying 2 []], sample_full, 4)"
    using rtranclp.rtrancl_into_rtrancl [OF sample_reached call_acquire] by simp
  from pool_never_blocks [OF sample_pool_New this, of "Trying 2 []"] show ?thesis by simp
qed

theorem pool_accounting_witness:
  "pool_InUse sample_full = 2 \<and> pool_InUse sample_full = int (pool_Capacity sample_full)"
proof -
  have "ch_buf (pool_available sample_full) = []" by (simp add: sample_full_def sample_pool_def)
  then show ?thesis
    using pool_accounting [OF sample_pool_New sample_reached] by (simp add: sample_full_leases)
qed

theorem acquire_outcome_witness:
  "\<exists>p' os' r. pool_Acquire sample_udp (\<lambda>_. context_Background) (Some sample_full) 4 = Some (Some p', os', r) \<and>
     r = Inl ErrExhausted \<and> pool_InUse p' = 2"
proof -
  have "pool_Acquire sample_udp (\<lambda>_. context_Background) (Some sample_full) 4 =
      Some (Some sample_full, 4, Inl ErrExhausted)"
    by (simp add: pool_Acquire_def acquire_pool_def sample_full_def sample_pool_def acquire_select_def
        chan_recv_def context_Background_def numeral_2_eq_2)
  then show ?thesis
    using acquire_outcome [OF sample_pool_New sample_reached, of "\<lambda>_. context_Background"]
    by (simp add: sample_full_def sample_pool_def pool_InUse_def)
qed

theorem release_once_witness:
  "\<exists>p' os' e. lease_Release sample_udp (Some 0) sample_full 4 = Some (p', os', e) \<and> pool_InUse p' = 1 \<and>
     lease_RTPConn (Some (pool_leases p' ! 0)) = Inl ErrLeaseReleased \<and>
     lease_Release sample_udp (Some 0) p' os' = Some (p', os', None)"
  using release_once [OF sample_pool_New sample_reached, of 0]
  by (auto simp: sample_full_def sample_pool_def sample_lease_def new_lease_def pool_InUse_def)

end
