(* ===== verification/Rtp.thy ===== *)
theory Rtp
  imports Go_Float
begin

text \<open>
  \<open>internal/media/rtp\<close>: the rewriter that gives an outgoing leg its own RTP stream, and the tracker
  that accounts for the packets of an incoming one. A packet of \<open>pion/rtp\<close> is the fields the PBX
  reads or writes, beside the other header fields of a type \<open>'h\<close> it only copies. The jitter estimate
  is computed with IEEE 754 double precision (\<open>float64\<close>).
\<close>

subsection \<open>Packets\<close>

record 'h packet =
  pk_PayloadType :: "8 word"
  pk_SequenceNumber :: "16 word"
  pk_Timestamp :: "32 word"
  pk_SSRC :: "32 word"
  pk_Payload :: "8 word list"
  pk_Header :: 'h

subsection \<open>The rewriter\<close>

record sender_stats =
  ss_SSRC :: "32 word"
  ss_Packets :: "64 word"
  ss_Bytes :: "64 word"
  ss_LastTimestamp :: "32 word"

record rewriter =
  rw_ssrc :: "32 word"
  rw_sequence :: "16 word"
  rw_timestamp :: "32 word"
  rw_inputBase :: "32 word"
  rw_outputBase :: "32 word"
  rw_initialized :: bool
  rw_packets :: "64 word"
  rw_bytes :: "64 word"
  rw_lastTimestamp :: "32 word"

definition be_uint :: "8 word list \<Rightarrow> nat" where
  "be_uint bs = foldl (\<lambda>n b. n * 256 + unat b) 0 bs"

text \<open>The argument is what \<open>rand.Read\<close> does with the ten-byte seed.\<close>

definition NewRewriter :: "8 word list result \<Rightarrow> rewriter result" where
  "NewRewriter rand =
     (case rand of
        Inl e \<Rightarrow> Inl (Wrapf ''generate RTP stream identifiers: %w'' e)
      | Inr seed \<Rightarrow>
          Inr \<lparr>rw_ssrc = of_nat (be_uint (take 4 seed)),
               rw_sequence = of_nat (be_uint (take 2 (drop 4 seed))),
               rw_timestamp = of_nat (be_uint (take 4 (drop 6 seed))),
               rw_inputBase = 0,
               rw_outputBase = of_nat (be_uint (take 4 (drop 6 seed))),
               rw_initialized = False, rw_packets = 0, rw_bytes = 0, rw_lastTimestamp = 0\<rparr>)"

definition Rewrite :: "'h packet \<Rightarrow> 8 word \<Rightarrow> rewriter \<Rightarrow> rewriter \<times> 'h packet" where
  "Rewrite input outputPayloadType r =
     (let r1 = (if \<not> rw_initialized r then r\<lparr>rw_initialized := True, rw_inputBase := pk_Timestamp input\<rparr>
                else r\<lparr>rw_sequence := rw_sequence r + 1\<rparr>);
          r2 = r1\<lparr>rw_timestamp := rw_outputBase r1 + pk_Timestamp input - rw_inputBase r1\<rparr>;
          output = input\<lparr>pk_PayloadType := outputPayloadType, pk_SSRC := rw_ssrc r2,
                         pk_SequenceNumber := rw_sequence r2, pk_Timestamp := rw_timestamp r2\<rparr>
      in (r2\<lparr>rw_packets := rw_packets r2 + 1,
             rw_bytes := rw_bytes r2 + of_nat (length (pk_Payload input)),
             rw_lastTimestamp := rw_timestamp r2\<rparr>, output))"

definition rewriter_Snapshot :: "rewriter \<Rightarrow> sender_stats" where
  "rewriter_Snapshot r =
     \<lparr>ss_SSRC = rw_ssrc r, ss_Packets = rw_packets r, ss_Bytes = rw_bytes r,
      ss_LastTimestamp = rw_lastTimestamp r\<rparr>"

subsection \<open>The tracker\<close>

definition sequenceWindow :: nat where "sequenceWindow = 128"

datatype packet_class = PacketNew | PacketReordered | PacketDuplicate

record stats =
  s_Packets :: "64 word"
  s_Bytes :: "64 word"
  s_Lost :: "64 word"
  s_Duplicates :: "64 word"
  s_Reordered :: "64 word"
  s_SSRCChanges :: "64 word"
  s_JitterSamples :: rat
  s_SSRC :: "32 word"
  s_LastSequence :: "32 word"
  s_LastPacketAt :: time

record tracker =
  tk_clockRate :: "32 word"
  tk_started :: bool
  tk_ssrc :: "32 word"
  tk_maxSeq :: "16 word"
  tk_cycles :: "32 word"
  tk_seen :: "16 word list"
  tk_seenValid :: "bool list"
  tk_transit :: int
  tk_jitter :: rat
  tk_packets :: "64 word"
  tk_bytes :: "64 word"
  tk_lost :: "64 word"
  tk_duplicates :: "64 word"
  tk_reordered :: "64 word"
  tk_ssrcChanges :: "64 word"
  tk_jitterBits :: rat
  tk_pub_ssrc :: "32 word"
  tk_lastSequence :: "32 word"
  tk_lastPacketNanos :: int

definition NewTracker :: "32 word \<Rightarrow> tracker" where
  "NewTracker clockRate =
     \<lparr>tk_clockRate = clockRate, tk_started = False, tk_ssrc = 0, tk_maxSeq = 0, tk_cycles = 0,
      tk_seen = replicate sequenceWindow 0, tk_seenValid = replicate sequenceWindow False,
      tk_transit = 0, tk_jitter = 0, tk_packets = 0, tk_bytes = 0, tk_lost = 0, tk_duplicates = 0,
      tk_reordered = 0, tk_ssrcChanges = 0, tk_jitterBits = 0, tk_pub_ssrc = 0, tk_lastSequence = 0,
      tk_lastPacketNanos = 0\<rparr>"

text \<open>\<open>UnixNano\<close>, which wraps outside the years 1678 to 2262.\<close>

definition UnixNano :: "time \<Rightarrow> int" where
  "UnixNano t = int64 (t - unix_epoch)"

definition publishArrival :: "'h packet \<Rightarrow> time \<Rightarrow> int \<Rightarrow> tracker \<Rightarrow> tracker" where
  "publishArrival packet receivedAt wireBytes t =
     t\<lparr>tk_packets := tk_packets t + 1,
       tk_bytes := (if 0 < wireBytes then tk_bytes t + of_int wireBytes else tk_bytes t),
       tk_pub_ssrc := pk_SSRC packet,
       tk_lastSequence := tk_cycles t + ucast (pk_SequenceNumber packet),
       tk_lastPacketNanos := UnixNano receivedAt\<rparr>"

definition decrementAtomic :: "64 word \<Rightarrow> 64 word" where
  "decrementAtomic current = (if current = 0 then current else current - 1)"

text \<open>The sequence number against the highest one so far.\<close>

definition observe_sequence :: "'h packet \<Rightarrow> tracker \<Rightarrow> tracker \<times> packet_class" where
  "observe_sequence packet t =
     (if \<not> tk_started t then
        (t\<lparr>tk_started := True, tk_maxSeq := pk_SequenceNumber packet, tk_ssrc := pk_SSRC packet\<rparr>, PacketNew)
      else
        let t1 = (if pk_SSRC packet \<noteq> tk_ssrc t
                  then t\<lparr>tk_ssrcChanges := tk_ssrcChanges t + 1, tk_ssrc := pk_SSRC packet\<rparr> else t);
            delta = sint (pk_SequenceNumber packet - tk_maxSeq t1)
        in if 0 < delta then
             (let t2 = (if pk_SequenceNumber packet < tk_maxSeq t1
                        then t1\<lparr>tk_cycles := tk_cycles t1 + 65536\<rparr> else t1);
                  t3 = (if 1 < delta then t2\<lparr>tk_lost := tk_lost t2 + of_int (delta - 1)\<rparr> else t2)
              in (t3\<lparr>tk_maxSeq := pk_SequenceNumber packet\<rparr>, PacketNew))
           else if delta < 0 then
             (t1\<lparr>tk_reordered := tk_reordered t1 + 1, tk_lost := decrementAtomic (tk_lost t1)\<rparr>, PacketReordered)
           else (t1, PacketNew))"

text \<open>The interarrival jitter; the product of the arrival time and the clock rate is an \<open>int64\<close>.\<close>

definition observe_jitter :: "'h packet \<Rightarrow> time \<Rightarrow> tracker \<Rightarrow> tracker" where
  "observe_jitter packet receivedAt t =
     (let arrivalSamples = go_div (int64 (UnixNano receivedAt * uint (tk_clockRate t))) Second;
          transit = int64 (arrivalSamples - uint (pk_Timestamp packet));
          difference = int64 (transit - tk_transit t);
          magnitude = (if difference < 0 then int64 (- difference) else difference);
          jitter = (if tk_packets t > 0
                    then float64 (tk_jitter t + float64 (float64 (float64 (of_int magnitude) - tk_jitter t) / 16))
                    else tk_jitter t)
      in t\<lparr>tk_transit := transit, tk_jitter := jitter, tk_jitterBits := jitter\<rparr>)"

definition Observe :: "'h packet \<Rightarrow> time \<Rightarrow> int \<Rightarrow> tracker \<Rightarrow> tracker \<times> packet_class" where
  "Observe packet receivedAt wireBytes t =
     (let index = unat (pk_SequenceNumber packet) mod sequenceWindow
      in if tk_seenValid t ! index \<and> tk_seen t ! index = pk_SequenceNumber packet
         then (publishArrival packet receivedAt wireBytes (t\<lparr>tk_duplicates := tk_duplicates t + 1\<rparr>),
               PacketDuplicate)
         else
           let t1 = t\<lparr>tk_seenValid := (tk_seenValid t)[index := True],
                      tk_seen := (tk_seen t)[index := pk_SequenceNumber packet]\<rparr>;
               (t2, cls) = observe_sequence packet t1
           in (publishArrival packet receivedAt wireBytes (observe_jitter packet receivedAt t2), cls))"

definition tracker_Snapshot :: "tracker \<Rightarrow> stats" where
  "tracker_Snapshot t =
     \<lparr>s_Packets = tk_packets t, s_Bytes = tk_bytes t, s_Lost = tk_lost t,
      s_Duplicates = tk_duplicates t, s_Reordered = tk_reordered t, s_SSRCChanges = tk_ssrcChanges t,
      s_JitterSamples = tk_jitterBits t, s_SSRC = tk_pub_ssrc t, s_LastSequence = tk_lastSequence t,
      s_LastPacketAt = (if tk_lastPacketNanos t \<noteq> 0 then unix_epoch + tk_lastPacketNanos t else 0)\<rparr>"

subsection \<open>Streams through the rewriter\<close>

fun rewrite_all :: "('h packet \<times> 8 word) list \<Rightarrow> rewriter \<Rightarrow> rewriter \<times> 'h packet list" where
  "rewrite_all [] r = (r, [])"
| "rewrite_all ((input, pt) # ps) r =
     (let (r1, output) = Rewrite input pt r; (r2, outputs) = rewrite_all ps r1 in (r2, output # outputs))"

definition mapped :: "'h packet \<Rightarrow> 8 word \<Rightarrow> 32 word \<Rightarrow> 16 word \<Rightarrow> 32 word \<Rightarrow> 'h packet" where
  "mapped input pt ssrc sq ts =
     input\<lparr>pk_PayloadType := pt, pk_SSRC := ssrc, pk_SequenceNumber := sq, pk_Timestamp := ts\<rparr>"

lemma rewrite_all_started:
  assumes "rewrite_all ps r = (r', outs)" and "rw_initialized r"
  shows "length outs = length ps \<and>
     (\<forall>i < length ps. outs ! i = mapped (fst (ps ! i)) (snd (ps ! i)) (rw_ssrc r)
        (rw_sequence r + of_nat (Suc i)) (rw_outputBase r + pk_Timestamp (fst (ps ! i)) - rw_inputBase r)) \<and>
     rw_packets r' = rw_packets r + of_nat (length ps) \<and>
     rw_bytes r' = rw_bytes r + of_nat (\<Sum>p\<leftarrow>ps. length (pk_Payload (fst p))) \<and>
     rw_ssrc r' = rw_ssrc r"
  using assms
proof (induction ps arbitrary: r outs)
  case (Cons p ps)
  obtain input pt where p: "p = (input, pt)" by fastforce
  let ?r1 = "fst (Rewrite input pt r)"
  obtain outs1 where outs: "outs = snd (Rewrite input pt r) # outs1" and all: "rewrite_all ps ?r1 = (r', outs1)"
    using Cons.prems(1) by (auto simp: p split: prod.splits)
  have r1: "rw_initialized ?r1" "rw_ssrc ?r1 = rw_ssrc r" "rw_sequence ?r1 = rw_sequence r + 1"
    "rw_outputBase ?r1 = rw_outputBase r" "rw_inputBase ?r1 = rw_inputBase r"
    "rw_packets ?r1 = rw_packets r + 1" "rw_bytes ?r1 = rw_bytes r + of_nat (length (pk_Payload input))"
    "snd (Rewrite input pt r) = mapped input pt (rw_ssrc r) (rw_sequence r + 1)
       (rw_outputBase r + pk_Timestamp input - rw_inputBase r)"
    using Cons.prems(2) by (simp_all add: Rewrite_def mapped_def Let_def)
  note IH = Cons.IH [OF all r1(1)]
  have "outs ! i = mapped (fst ((p # ps) ! i)) (snd ((p # ps) ! i)) (rw_ssrc r)
        (rw_sequence r + of_nat (Suc i)) (rw_outputBase r + pk_Timestamp (fst ((p # ps) ! i)) - rw_inputBase r)"
    if "i < length (p # ps)" for i
    using that IH r1 by (cases i) (auto simp: outs p algebra_simps)
  then show ?case using IH r1 by (auto simp: outs p algebra_simps)
qed simp

lemma rewrite_all_fresh:
  assumes "NewRewriter rand = Inr r" and "rewrite_all ps r = (r', outs)" and "i < length ps"
  shows "length outs = length ps \<and> pk_SSRC (outs ! i) = rw_ssrc r \<and>
     pk_SequenceNumber (outs ! i) = rw_sequence r + of_nat i \<and>
     pk_Timestamp (outs ! i) - pk_Timestamp (outs ! 0) = pk_Timestamp (fst (ps ! i)) - pk_Timestamp (fst (ps ! 0)) \<and>
     pk_PayloadType (outs ! i) = snd (ps ! i) \<and> pk_Payload (outs ! i) = pk_Payload (fst (ps ! i)) \<and>
     pk_Header (outs ! i) = pk_Header (fst (ps ! i)) \<and>
     ss_Packets (rewriter_Snapshot r') = of_nat (length ps) \<and>
     ss_Bytes (rewriter_Snapshot r') = of_nat (\<Sum>p\<leftarrow>ps. length (pk_Payload (fst p)))"
proof -
  obtain p qs where ps: "ps = p # qs" using assms(3) by (cases ps) auto
  obtain input pt where p: "p = (input, pt)" by fastforce
  have r: "\<not> rw_initialized r" "rw_packets r = 0" "rw_bytes r = 0"
    using assms(1) by (auto simp: NewRewriter_def split: sum.splits)
  let ?r1 = "fst (Rewrite input pt r)"
  obtain outs1 where outs: "outs = snd (Rewrite input pt r) # outs1" and all: "rewrite_all qs ?r1 = (r', outs1)"
    using assms(2) by (auto simp: p ps split: prod.splits)
  have r1: "rw_initialized ?r1" "rw_ssrc ?r1 = rw_ssrc r" "rw_sequence ?r1 = rw_sequence r"
    "rw_outputBase ?r1 = rw_outputBase r" "rw_inputBase ?r1 = pk_Timestamp input"
    "rw_packets ?r1 = 1" "rw_bytes ?r1 = of_nat (length (pk_Payload input))"
    "snd (Rewrite input pt r) = mapped input pt (rw_ssrc r) (rw_sequence r) (rw_outputBase r)"
    using r by (simp_all add: Rewrite_def mapped_def Let_def)
  note rest = rewrite_all_started [OF all r1(1)]
  show ?thesis
    using rest r1 assms(3)
    by (cases i) (auto simp: outs ps p mapped_def rewriter_Snapshot_def algebra_simps)
qed

text \<open>C33: whatever packets enter a fresh rewriter, the leg it feeds sees one well-formed stream: one
  SSRC, sequence numbers that increase by one from the random start without a gap, and timestamps
  whose distances are those of the input (all modulo their width); payloads and the other header
  fields are copied, the payload type is the negotiated one. The sender counters for RTCP are the
  packets and payload bytes sent.\<close>

theorem rewrite_stream:
  assumes "NewRewriter rand = Inr r" and "rewrite_all ps r = (r', outs)" and "i < length ps"
  shows "length outs = length ps \<and> pk_SSRC (outs ! i) = rw_ssrc r \<and>
     pk_SequenceNumber (outs ! i) = rw_sequence r + of_nat i \<and>
     pk_Timestamp (outs ! i) - pk_Timestamp (outs ! 0) = pk_Timestamp (fst (ps ! i)) - pk_Timestamp (fst (ps ! 0)) \<and>
     pk_PayloadType (outs ! i) = snd (ps ! i) \<and> pk_Payload (outs ! i) = pk_Payload (fst (ps ! i)) \<and>
     pk_Header (outs ! i) = pk_Header (fst (ps ! i)) \<and>
     ss_Packets (rewriter_Snapshot r') = of_nat (length ps) \<and>
     ss_Bytes (rewriter_Snapshot r') = of_nat (\<Sum>p\<leftarrow>ps. length (pk_Payload (fst p)))"
  using assms by (rule rewrite_all_fresh)

subsection \<open>Streams through the tracker\<close>

text \<open>
  An arrival is a packet with its time and size; streams are kept with the latest arrival first.
  The extended sequence number of a packet is a natural number whose low 16 bits it carries.
\<close>

type_synonym 'h arrival = "'h packet \<times> time \<times> int"

fun observe_all :: "'h arrival list \<Rightarrow> tracker \<Rightarrow> tracker" where
  "observe_all [] t = t"
| "observe_all ((packet, receivedAt, wireBytes) # ps) t =
     fst (Observe packet receivedAt wireBytes (observe_all ps t))"

text \<open>
  A number is unaliased when the latest earlier packet that shares its slot of the window is not
  one of the same 16-bit number from another cycle.
\<close>

definition slot :: "nat \<Rightarrow> nat" where "slot e = e mod sequenceWindow"

definition latest_in :: "nat \<Rightarrow> nat list \<Rightarrow> nat option" where
  "latest_in i es = find (\<lambda>e. slot e = i) es"

definition unaliased :: "nat \<Rightarrow> nat list \<Rightarrow> bool" where
  "unaliased e es =
     (case latest_in (slot e) es of None \<Rightarrow> True | Some e' \<Rightarrow> e' mod 65536 \<noteq> e mod 65536)"

fun in_order :: "nat list \<Rightarrow> bool" where
  "in_order [] = True"
| "in_order [e] = True"
| "in_order (e # e' # es) =
     (e' < e \<and> e - e' < 32768 \<and> unaliased e (e' # es) \<and> in_order (e' # es))"

definition follows :: "nat list \<Rightarrow> tracker \<Rightarrow> bool" where
  "follows es t \<longleftrightarrow>
     tk_started t \<and> tk_maxSeq t = of_nat (hd es) \<and>
     tk_cycles t = of_nat (65536 * (hd es div 65536 - last es div 65536)) \<and>
     tk_lost t = of_nat (hd es - last es + 1 - length es) \<and>
     tk_reordered t = 0 \<and> tk_duplicates t = 0 \<and> tk_packets t = of_nat (length es) \<and>
     tk_lastSequence t = of_nat (hd es - 65536 * (last es div 65536)) \<and>
     length (tk_seen t) = sequenceWindow \<and> length (tk_seenValid t) = sequenceWindow \<and>
     (\<forall>i < sequenceWindow.
        case latest_in i es of
          None \<Rightarrow> \<not> tk_seenValid t ! i
        | Some e \<Rightarrow> tk_seenValid t ! i \<and> tk_seen t ! i = of_nat e)"

lemma in_order_span: "in_order (e # es) \<Longrightarrow> length es + last (e # es) \<le> e"
proof (induction es arbitrary: e)
  case (Cons a es)
  then have "length es + last (a # es) \<le> a" "a < e" by simp_all
  then show ?case by simp
qed simp

lemma in_order_last: "in_order (e # es) \<Longrightarrow> last (e # es) \<le> e"
  using in_order_span by fastforce

lemma observe_jitter_frame [simp]:
  "tk_started (observe_jitter p rcv t) = tk_started t" "tk_maxSeq (observe_jitter p rcv t) = tk_maxSeq t"
  "tk_cycles (observe_jitter p rcv t) = tk_cycles t" "tk_lost (observe_jitter p rcv t) = tk_lost t"
  "tk_reordered (observe_jitter p rcv t) = tk_reordered t"
  "tk_duplicates (observe_jitter p rcv t) = tk_duplicates t"
  "tk_packets (observe_jitter p rcv t) = tk_packets t" "tk_bytes (observe_jitter p rcv t) = tk_bytes t"
  "tk_seen (observe_jitter p rcv t) = tk_seen t" "tk_seenValid (observe_jitter p rcv t) = tk_seenValid t"
  "tk_ssrc (observe_jitter p rcv t) = tk_ssrc t" "tk_ssrcChanges (observe_jitter p rcv t) = tk_ssrcChanges t"
  by (simp_all add: observe_jitter_def Let_def)

lemma publishArrival_frame [simp]:
  "tk_started (publishArrival p rcv n t) = tk_started t" "tk_maxSeq (publishArrival p rcv n t) = tk_maxSeq t"
  "tk_cycles (publishArrival p rcv n t) = tk_cycles t" "tk_lost (publishArrival p rcv n t) = tk_lost t"
  "tk_reordered (publishArrival p rcv n t) = tk_reordered t"
  "tk_duplicates (publishArrival p rcv n t) = tk_duplicates t"
  "tk_seen (publishArrival p rcv n t) = tk_seen t" "tk_seenValid (publishArrival p rcv n t) = tk_seenValid t"
  "tk_packets (publishArrival p rcv n t) = tk_packets t + 1"
  "tk_lastSequence (publishArrival p rcv n t) = tk_cycles t + ucast (pk_SequenceNumber p)"
  "tk_jitter (publishArrival p rcv n t) = tk_jitter t" "tk_transit (publishArrival p rcv n t) = tk_transit t"
  "tk_jitterBits (publishArrival p rcv n t) = tk_jitterBits t"
  by (simp_all add: publishArrival_def)

lemma slot_of_nat: "unat (of_nat e :: 16 word) mod sequenceWindow = slot e"
  by (simp add: unat_of_nat slot_def sequenceWindow_def mod_mod_cancel)

lemma of_nat_16_eq: "(of_nat a :: 16 word) = of_nat b \<longleftrightarrow> a mod 65536 = b mod 65536"
  by (simp add: word_of_nat_eq_iff take_bit_eq_mod)

lemma of_nat_16_less: "(of_nat a :: 16 word) < of_nat b \<longleftrightarrow> a mod 65536 < b mod 65536"
  by (simp add: word_less_nat_alt unat_of_nat)

lemma delta_of_nat:
  assumes "e' < e" and "e - e' < 32768"
  shows "sint (of_nat e - of_nat e' :: 16 word) = int (e - e')"
proof -
  have small: "sint (of_nat n :: 16 word) = int n" if "n < 32768" for n
    using that by (simp add: signed_of_nat signed_take_bit_int_eq_self)
  have "(of_nat e - of_nat e' :: 16 word) = of_nat (e - e')" using assms by simp
  then show ?thesis by (simp only: small [OF assms(2)])
qed

lemma cycle_split:
  fixes q r d :: nat
  assumes "r < 65536" and "d < 65536"
  shows "(65536 * q + r + d) div 65536 = q \<and> (65536 * q + r + d) mod 65536 = r + d \<or>
     (65536 * q + r + d) div 65536 = Suc q \<and> (65536 * q + r + d) mod 65536 + 65536 = r + d"
proof (cases "r + d < 65536")
  case False
  then have "65536 * q + r + d = 65536 * Suc q + (r + d - 65536)" by simp
  moreover have "r + d - 65536 < 65536" using assms by simp
  ultimately have "(65536 * q + r + d) div 65536 = Suc q" "(65536 * q + r + d) mod 65536 = r + d - 65536"
    by (metis add_cancel_left_right div_less div_mult_self4 zero_neq_numeral,
        metis mod_less mod_mult_self4)
  then show ?thesis using False by simp
next
  case True
  then show ?thesis by (simp add: add.assoc)
qed

lemma wraps_iff:
  assumes "e' < e" and "e - e' < (32768 :: nat)"
  shows "e mod 65536 < e' mod 65536 \<longleftrightarrow> e div 65536 = Suc (e' div 65536)"
    and "e div 65536 = e' div 65536 \<or> e div 65536 = Suc (e' div 65536)"
proof -
  have "65536 * (e' div 65536) + e' mod 65536 + (e - e') = e" using assms(1) by simp
  with cycle_split [of "e' mod 65536" "e - e'" "e' div 65536"] assms(2)
  have "e div 65536 = e' div 65536 \<and> e mod 65536 = e' mod 65536 + (e - e') \<or>
      e div 65536 = Suc (e' div 65536) \<and> e mod 65536 + 65536 = e' mod 65536 + (e - e')" by simp
  then show "e mod 65536 < e' mod 65536 \<longleftrightarrow> e div 65536 = Suc (e' div 65536)"
    and "e div 65536 = e' div 65536 \<or> e div 65536 = Suc (e' div 65536)"
    using assms by auto
qed

lemma extended_number:
  fixes e l :: nat
  assumes "l \<le> e"
  shows "(of_nat (65536 * (e div 65536 - l div 65536)) :: 32 word) + ucast (of_nat e :: 16 word) =
     of_nat (e - 65536 * (l div 65536))"
proof -
  have "(ucast (of_nat e :: 16 word) :: 32 word) = of_nat (e mod 65536)"
    by (simp add: unsigned_of_nat take_bit_eq_mod)
  moreover have "65536 * (e div 65536 - l div 65536) + e mod 65536 = e - 65536 * (l div 65536)"
    using div_le_mono [OF assms, of 65536] mult_div_mod_eq [of 65536 e] by (simp add: diff_mult_distrib2)
  ultimately show ?thesis by (metis of_nat_add)
qed

lemma latest_in_Cons: "latest_in i (e # es) = (if slot e = i then Some e else latest_in i es)"
  by (simp add: latest_in_def)

lemma observe_first:
  "follows [e] (fst (Observe packet rcv n (NewTracker rate)))"
  if "pk_SequenceNumber packet = of_nat e"
proof -
  have slot: "slot e < sequenceWindow" by (simp add: slot_def sequenceWindow_def)
  show ?thesis
    using that slot extended_number [of e e]
    by (auto simp: follows_def Observe_def NewTracker_def observe_sequence_def slot_of_nat latest_in_Cons
        latest_in_def nth_list_update Let_def)
qed

lemma observe_ahead:
  assumes "tk_started t" and "0 < sint (pk_SequenceNumber packet - tk_maxSeq t)"
  shows "tk_started (fst (observe_sequence packet t))"
    and "tk_maxSeq (fst (observe_sequence packet t)) = pk_SequenceNumber packet"
    and "tk_cycles (fst (observe_sequence packet t)) =
      tk_cycles t + (if pk_SequenceNumber packet < tk_maxSeq t then 65536 else 0)"
    and "tk_lost (fst (observe_sequence packet t)) = tk_lost t +
      (if 1 < sint (pk_SequenceNumber packet - tk_maxSeq t)
       then of_int (sint (pk_SequenceNumber packet - tk_maxSeq t) - 1) else 0)"
    and "tk_reordered (fst (observe_sequence packet t)) = tk_reordered t"
    and "tk_duplicates (fst (observe_sequence packet t)) = tk_duplicates t"
    and "tk_packets (fst (observe_sequence packet t)) = tk_packets t"
    and "tk_seen (fst (observe_sequence packet t)) = tk_seen t"
    and "tk_seenValid (fst (observe_sequence packet t)) = tk_seenValid t"
  using assms by (simp_all add: observe_sequence_def Let_def)

lemma observe_next:
  assumes "follows (e' # es) t" and "in_order (e # e' # es)"
    and "pk_SequenceNumber packet = of_nat e"
  shows "follows (e # e' # es) (fst (Observe packet rcv n t))"
proof -
  let ?l = "last (e' # es)"
  have lt: "e' < e" "e - e' < 32768" and un: "unaliased e (e' # es)" and ord: "in_order (e' # es)"
    using assms(2) by simp_all
  have span: "length es + ?l \<le> e'" using in_order_span [OF ord] .
  have slot: "slot e < sequenceWindow" by (simp add: slot_def sequenceWindow_def)
  have fresh: "\<not> (tk_seenValid t ! slot e \<and> tk_seen t ! slot e = of_nat e)"
    using assms(1) un slot unfolding follows_def unaliased_def
    by (auto simp: of_nat_16_eq split: option.splits)
  define t1 where "t1 = t\<lparr>tk_seenValid := (tk_seenValid t)[slot e := True], tk_seen := (tk_seen t)[slot e := of_nat e]\<rparr>"
  have cyc: "(of_nat (65536 * (e' div 65536 - ?l div 65536)) :: 32 word) +
      (if e mod 65536 < e' mod 65536 then 65536 else 0) = of_nat (65536 * (e div 65536 - ?l div 65536))"
  proof -
    have "?l div 65536 \<le> e' div 65536" using span by (intro div_le_mono) simp
    then show ?thesis using wraps_iff [OF lt]
      by (cases "e div 65536 = Suc (e' div 65536)") (auto simp: Suc_diff_le)
  qed
  have lost: "(of_nat (e' - ?l + 1 - length (e' # es)) :: 64 word) + (if 1 < int (e - e') then of_int (int (e - e') - 1) else 0) =
      of_nat (e - ?l + 1 - length (e # e' # es))"
  proof -
    have "e - ?l + 1 - length (e # e' # es) = (e' - ?l + 1 - length (e' # es)) + (e - e' - 1)"
      using span lt by simp
    moreover have "int (e - e') - 1 = int (e - e' - 1)" using lt by simp
    then have "(if 1 < int (e - e') then of_int (int (e - e') - 1) else 0) = (of_nat (e - e' - 1) :: 64 word)"
    proof (cases "1 < e - e'")
      case True
      then have "1 < int (e - e')" by linarith
      then show ?thesis using \<open>int (e - e') - 1 = int (e - e' - 1)\<close> by (simp only: if_True of_int_of_nat_eq)
    next
      case False
      then have "e - e' = 1" using lt by simp
      then show ?thesis by simp
    qed
    ultimately show ?thesis by (simp only: of_nat_add)
  qed
  have delta: "sint (pk_SequenceNumber packet - tk_maxSeq t) = int (e - e')"
    using assms(1,3) delta_of_nat [OF lt] by (simp add: follows_def)
  define t2 where "t2 = fst (observe_sequence packet t1)"
  have started: "tk_started t1" and delta1: "0 < sint (pk_SequenceNumber packet - tk_maxSeq t1)"
    and max: "tk_maxSeq t1 = of_nat e'"
    using assms(1) delta lt by (simp_all add: t1_def follows_def)
  note ahead = observe_ahead [OF started delta1]
  have t2: "tk_started t2" "tk_maxSeq t2 = of_nat e"
    "tk_cycles t2 = tk_cycles t + (if e mod 65536 < e' mod 65536 then 65536 else 0)"
    "tk_lost t2 = tk_lost t + (if 1 < int (e - e') then of_int (int (e - e') - 1) else 0)"
    "tk_reordered t2 = tk_reordered t" "tk_duplicates t2 = tk_duplicates t" "tk_packets t2 = tk_packets t"
    "tk_seen t2 = tk_seen t1" "tk_seenValid t2 = tk_seenValid t1"
    using ahead assms(3) max delta by (simp_all add: t2_def t1_def of_nat_16_less)
  have obs: "fst (Observe packet rcv n t) = publishArrival packet rcv n (observe_jitter packet rcv t2)"
    using fresh assms(3)
    by (auto simp: Observe_def slot_of_nat t1_def t2_def Let_def split: prod.splits)
  have last: "last (e # e' # es) = ?l" by simp
  have "(of_nat (65536 * (e div 65536 - ?l div 65536)) :: 32 word) + ucast (pk_SequenceNumber packet) =
      of_nat (e - 65536 * (?l div 65536))"
    using extended_number [of ?l e] span lt assms(3) by simp
  moreover have "\<forall>i < sequenceWindow. case latest_in i (e # e' # es) of
      None \<Rightarrow> \<not> tk_seenValid t1 ! i | Some x \<Rightarrow> tk_seenValid t1 ! i \<and> tk_seen t1 ! i = of_nat x"
  proof (intro allI impI)
    fix i
    assume i: "i < sequenceWindow"
    then have "case latest_in i (e' # es) of
        None \<Rightarrow> \<not> tk_seenValid t ! i | Some x \<Rightarrow> tk_seenValid t ! i \<and> tk_seen t ! i = of_nat x"
      using assms(1) by (simp add: follows_def)
    moreover have "tk_seenValid t1 ! i = (slot e = i \<or> tk_seenValid t ! i)"
      "tk_seen t1 ! i = (if slot e = i then of_nat e else tk_seen t ! i)"
      using slot assms(1) by (auto simp: follows_def t1_def nth_list_update)
    ultimately show "case latest_in i (e # e' # es) of
        None \<Rightarrow> \<not> tk_seenValid t1 ! i | Some x \<Rightarrow> tk_seenValid t1 ! i \<and> tk_seen t1 ! i = of_nat x"
      by (simp add: latest_in_Cons [of i e] split: option.splits)
  qed
  moreover have "length (tk_seen t1) = sequenceWindow" "length (tk_seenValid t1) = sequenceWindow"
    using assms(1) by (simp_all add: follows_def t1_def)
  moreover have "tk_cycles t = of_nat (65536 * (e' div 65536 - ?l div 65536))"
    "tk_lost t = of_nat (e' - ?l + 1 - length (e' # es))" "tk_reordered t = 0" "tk_duplicates t = 0"
    "tk_packets t = of_nat (length (e' # es))"
    using assms(1) by (simp_all add: follows_def)
  ultimately show ?thesis
    unfolding follows_def obs publishArrival_frame observe_jitter_frame t2 last list.sel
    by (intro conjI; (simp only: cyc lost t2(1))?; (simp add: add.commute)?)
qed

definition carries :: "nat \<Rightarrow> 'h arrival \<Rightarrow> bool" where
  "carries e a \<longleftrightarrow> pk_SequenceNumber (fst a) = of_nat e"

lemma observe_follows:
  assumes "list_all2 carries es ps" and "in_order es" and "es \<noteq> []"
  shows "follows es (observe_all ps (NewTracker rate))"
  using assms
proof (induction es ps rule: list_all2_induct)
  case (Cons e es a ps)
  obtain packet rcv n where a: "a = (packet, rcv, n)" by (metis prod_cases3)
  then have sq: "pk_SequenceNumber packet = of_nat e" using Cons.hyps by (simp add: carries_def)
  show ?case
  proof (cases es)
    case Nil
    then have "ps = []" using Cons.hyps by simp
    then show ?thesis using observe_first [OF sq] Nil by (simp add: a)
  next
    case (Cons e' es')
    then have "in_order es" using Cons.prems by simp
    then have "follows (e' # es') (observe_all ps (NewTracker rate))" using Cons.IH Cons by simp
    then show ?thesis using observe_next sq Cons.prems Cons by (simp add: a)
  qed
qed simp


text \<open>Each arrival is counted once and has one class.\<close>

definition tracker_ok :: "tracker \<Rightarrow> bool" where
  "tracker_ok t \<longleftrightarrow> length (tk_seen t) = sequenceWindow \<and> length (tk_seenValid t) = sequenceWindow"

lemma NewTracker_ok: "tracker_ok (NewTracker rate)"
  by (simp add: tracker_ok_def NewTracker_def)

lemma observe_sequence_frame:
  "tk_seen (fst (observe_sequence p t)) = tk_seen t"
  "tk_seenValid (fst (observe_sequence p t)) = tk_seenValid t"
  "tk_packets (fst (observe_sequence p t)) = tk_packets t"
  "tk_duplicates (fst (observe_sequence p t)) = tk_duplicates t"
  "tk_reordered (fst (observe_sequence p t)) =
     tk_reordered t + (if snd (observe_sequence p t) = PacketReordered then 1 else 0)"
  by (auto simp: observe_sequence_def Let_def)

lemma observe_ok: "tracker_ok t \<Longrightarrow> tracker_ok (fst (Observe p rcv n t))"
  by (auto simp: Observe_def tracker_ok_def observe_sequence_frame Let_def split_def)

lemma observe_all_ok: "tracker_ok (observe_all ps (NewTracker rate))"
  by (induction ps) (auto simp: NewTracker_ok observe_ok)

text \<open>A packet that repeats the one observed just before it, in any stream, is classified as a
  duplicate: the duplicate counter goes up by one, and the loss, reordering and jitter figures stay
  as they were.\<close>

theorem tracker_duplicate:
  assumes "t = fst (Observe packet rcv n (observe_all ps (NewTracker rate)))"
    and "Observe packet rcv' n' t = (t', kind)"
  shows "kind = PacketDuplicate \<and> tk_duplicates t' = tk_duplicates t + 1 \<and>
     s_Packets (tracker_Snapshot t') = s_Packets (tracker_Snapshot t) + 1 \<and>
     s_Lost (tracker_Snapshot t') = s_Lost (tracker_Snapshot t) \<and>
     s_Reordered (tracker_Snapshot t') = s_Reordered (tracker_Snapshot t) \<and>
     s_JitterSamples (tracker_Snapshot t') = s_JitterSamples (tracker_Snapshot t)"
proof -
  let ?t0 = "observe_all ps (NewTracker rate)" and ?i = "unat (pk_SequenceNumber packet) mod sequenceWindow"
  have ok: "tracker_ok ?t0" by (rule observe_all_ok)
  have "?i < sequenceWindow" by (simp add: sequenceWindow_def)
  then have "tk_seenValid t ! ?i \<and> tk_seen t ! ?i = pk_SequenceNumber packet"
    using ok unfolding assms(1) by (auto simp: Observe_def tracker_ok_def observe_sequence_frame Let_def split_def)
  then show ?thesis using assms(2) by (auto simp: Observe_def tracker_Snapshot_def Let_def)
qed

subsection \<open>Concrete streams\<close>

definition sample_packet :: "nat \<Rightarrow> unit packet" where
  "sample_packet e =
     \<lparr>pk_PayloadType = 0, pk_SequenceNumber = of_nat e, pk_Timestamp = of_nat (160 * e), pk_SSRC = 7,
      pk_Payload = [1, 2, 3], pk_Header = ()\<rparr>"

definition sample_arrival :: "nat \<Rightarrow> unit arrival" where
  "sample_arrival e = (sample_packet e, unix_epoch + 20000000 * int e, 180)"

lemma sample_carries: "list_all2 carries es (map sample_arrival es)"
  by (induction es) (simp_all add: carries_def sample_arrival_def sample_packet_def)

definition sample_seed :: "8 word list" where
  "sample_seed = [0, 0, 0, 9, 255, 255, 0, 0, 1, 0]"

definition sample_rewriter :: rewriter where
  "sample_rewriter =
     \<lparr>rw_ssrc = 9, rw_sequence = 65535, rw_timestamp = 256, rw_inputBase = 0, rw_outputBase = 256,
      rw_initialized = False, rw_packets = 0, rw_bytes = 0, rw_lastTimestamp = 0\<rparr>"

lemma sample_NewRewriter: "NewRewriter (Inr sample_seed) = Inr sample_rewriter"
  by (simp add: NewRewriter_def sample_seed_def sample_rewriter_def be_uint_def)

theorem rewrite_stream_witness:
  "\<exists>r' outs. rewrite_all [(sample_packet 5, 8), (sample_packet 9, 8)] sample_rewriter = (r', outs) \<and>
     pk_SequenceNumber (outs ! 1) = 0 \<and> pk_PayloadType (outs ! 1) = 8 \<and>
     pk_Timestamp (outs ! 1) - pk_Timestamp (outs ! 0) = 640 \<and>
     ss_Packets (rewriter_Snapshot r') = 2 \<and> ss_Bytes (rewriter_Snapshot r') = 6"
proof -
  obtain r' outs where run: "rewrite_all [(sample_packet 5, 8), (sample_packet 9, 8)] sample_rewriter = (r', outs)"
    by fastforce
  from rewrite_stream [OF sample_NewRewriter run, of 1] run show ?thesis
    by (simp add: sample_packet_def sample_rewriter_def)
qed


theorem tracker_duplicate_witness:
  "let t = fst (Observe (sample_packet 5) unix_epoch 180 (observe_all [] (NewTracker 8000)))
   in snd (Observe (sample_packet 5) unix_epoch 180 t) = PacketDuplicate \<and>
      s_Lost (tracker_Snapshot (fst (Observe (sample_packet 5) unix_epoch 180 t))) = s_Lost (tracker_Snapshot t)"
  using tracker_duplicate [OF refl prod.collapse [symmetric],
      of "sample_packet 5" unix_epoch 180 unix_epoch 180 "[]" 8000]
  by (simp add: Let_def)

text \<open>C40: the arrival time in RTP samples is computed as an \<open>int64\<close> product of nanoseconds since 1970
  and the clock rate, which overflows for every date since January 14, 1970, and jumps whenever the
  product crosses \<open>2^63\<close> modulo \<open>2^64\<close>, at 8000 Hz every 26.7 days. Of two packets sent and received
  exactly 20 milliseconds apart around such an instant (November 19, 2026, 14:33:02 UTC), the second
  raises the jitter estimate from zero above one thousand million samples.\<close>

theorem jitter_overflow:
  "let at1 = unix_epoch + 1795098782662860741;
       t1 = fst (Observe (sample_packet 1) at1 180 (NewTracker 8000));
       t2 = fst (Observe (sample_packet 2) (at1 + 20000000) 180 t1)
   in s_JitterSamples (tracker_Snapshot t1) = 0 \<and> 1000000000 < s_JitterSamples (tracker_Snapshot t2)"
proof -
  define a where "a = unix_epoch + 1795098782662860741"
  define t1 where "t1 = fst (Observe (sample_packet 1) a 180 (NewTracker 8000))"
  have nanos1: "UnixNano a = 1795098782662860741" by (simp add: UnixNano_def a_def int64_def)
  have samples1: "go_div (int64 14360790261302885928000) Second = 9223371956"
    by (simp add: int64_def go_div_def Second_def)
  have wide1: "int64 9223371796 = 9223371796" by (simp add: int64_def)
  have t1: "tk_jitter t1 = 0" "tk_jitterBits t1 = 0" "tk_packets t1 = 1" "tk_clockRate t1 = 8000"
    "tk_started t1" "tk_maxSeq t1 = 1" "\<not> tk_seenValid t1 ! 2" "tk_transit t1 = 9223371796" "tk_ssrc t1 = 7"
    by (simp_all add: t1_def Observe_def sample_packet_def NewTracker_def sequenceWindow_def
        observe_sequence_def observe_jitter_def publishArrival_def nanos1 samples1 wide1 Let_def)
  have fl: "float64 18446744072 = 18446744072" "float64 (2305843009 / 2) = 2305843009 / 2"
    using float64_exact [of 18446744072 0 18446744072] float64_exact [of "2305843009 / 2" 1 2305843009]
    by simp_all
  have nanos: "UnixNano (a + 20000000) = 1795098782682860741" by (simp add: UnixNano_def a_def int64_def)
  have samples: "go_div (int64 14360790261462885928000) Second = - 9223371956"
    by (simp add: int64_def go_div_def Second_def)
  have wide: "int64 (- 9223372276) = - 9223372276" "int64 (- 18446744072) = - 18446744072"
    "int64 18446744072 = 18446744072"
    by (simp_all add: int64_def)
  have "tk_jitterBits (fst (Observe (sample_packet 2) (a + 20000000) 180 t1)) = 2305843009 / 2"
    using t1 by (simp add: Observe_def sample_packet_def sequenceWindow_def observe_sequence_def
        publishArrival_def observe_jitter_def nanos samples wide fl Let_def)
  then show ?thesis using t1(2) by (simp add: t1_def a_def tracker_Snapshot_def Let_def)
qed

end
