(* ===== verification/Netip.thy ===== *)
theory Netip
  imports Go_Strings
begin

text \<open>
  Text forms of the addresses of Go's \<open>net/netip\<close>, as the PBX reads them from SDP bodies, SIP
  sources and database rows and prints them: \<open>ParseAddr\<close>, \<open>ParseAddrPort\<close>, \<open>Addr.String\<close>. The round
  trip is proved for IPv4.
\<close>

subsection \<open>Parsing\<close>

definition parse_octet :: "string \<Rightarrow> nat option" where
  "parse_octet s =
     (if 1 < length s \<and> hd s = CHR ''0'' then None else ParseUint 8 s)"

definition parse_v4_fields :: "string \<Rightarrow> nat list option" where
  "parse_v4_fields s =
     (case map parse_octet (strings_Split CHR ''.'' s) of
        [Some a, Some b, Some c, Some d] \<Rightarrow> Some [a, b, c, d]
      | _ \<Rightarrow> None)"

definition v4_of :: "nat list \<Rightarrow> 32 word" where
  "v4_of bs = of_nat (foldl (\<lambda>n b. 256 * n + b) 0 bs)"

definition hex_value :: "char \<Rightarrow> nat option" where
  "hex_value c =
     (let n = of_char c :: nat
      in if 48 \<le> n \<and> n \<le> 57 then Some (n - 48)
         else if 97 \<le> n \<and> n \<le> 102 then Some (n - 87)
         else if 65 \<le> n \<and> n \<le> 70 then Some (n - 55)
         else None)"

definition hex_number :: "string \<Rightarrow> nat" where
  "hex_number s = foldl (\<lambda>n c. 16 * n + (case hex_value c of None \<Rightarrow> 0 | Some d \<Rightarrow> d)) 0 s"

text \<open>
  The loop of \<open>parseIPv6\<close>: the number of 16-bit groups still to read, the rest of the text, the
  groups read, and the position of the ellipsis.
\<close>

fun v6_loop ::
  "nat \<Rightarrow> string \<Rightarrow> nat list \<Rightarrow> nat option \<Rightarrow> (nat list \<times> nat option \<times> string) option" where
  "v6_loop 0 s gs el = Some (gs, el, s)"
| "v6_loop (Suc n) s gs el =
     (let hex = takeWhile (\<lambda>c. hex_value c \<noteq> None) s; rest = drop (length hex) s
      in if hex = [] \<or> 4 < length hex then None
         else if rest \<noteq> [] \<and> hd rest = CHR ''.'' then
           (if el = None \<and> length gs \<noteq> 6 then None
            else if 8 < length gs + 2 then None
            else case parse_v4_fields s of
                   Some [a, b, c, d] \<Rightarrow> Some (gs @ [256 * a + b, 256 * c + d], el, [])
                 | _ \<Rightarrow> None)
         else
           let gs' = gs @ [hex_number hex]
           in case rest of
                [] \<Rightarrow> Some (gs', el, [])
              | [_] \<Rightarrow> None
              | x # y # ys \<Rightarrow>
                  if x \<noteq> CHR '':'' then None
                  else if y = CHR '':'' then
                    (if el \<noteq> None then None
                     else if ys = [] then Some (gs', Some (length gs'), [])
                     else v6_loop n ys gs' (Some (length gs')))
                  else v6_loop n (y # ys) gs' el)"

definition v6_of :: "nat list \<Rightarrow> 128 word" where
  "v6_of gs = of_nat (foldl (\<lambda>n g. 65536 * n + g) 0 gs)"

definition v6_expand :: "nat list \<Rightarrow> nat option \<Rightarrow> nat list option" where
  "v6_expand gs el =
     (if length gs < 8 then
        (case el of
           None \<Rightarrow> None
         | Some i \<Rightarrow> Some (take i gs @ replicate (8 - length gs) 0 @ drop i gs))
      else if el \<noteq> None then None else Some gs)"

definition parse_v6 :: "string \<Rightarrow> netip_addr option" where
  "parse_v6 text =
     (let s = takeWhile (\<lambda>c. c \<noteq> CHR ''%'') text; zone = drop (Suc (length s)) text
      in if length s < length text \<and> zone = [] then None
         else
           let leading = (2 \<le> length s \<and> s ! 0 = CHR '':'' \<and> s ! 1 = CHR '':'');
               s' = (if leading then drop 2 s else s)
           in if leading \<and> s' = [] then Some (Addr6 0 zone)
              else case v6_loop 8 s' [] (if leading then Some 0 else None) of
                     Some (gs, el, []) \<Rightarrow>
                       map_option (\<lambda>full. Addr6 (v6_of full) zone) (v6_expand gs el)
                   | _ \<Rightarrow> None)"

definition ParseAddr :: "string \<Rightarrow> netip_addr result" where
  "ParseAddr s =
     (let err = Inl (Errorf ''ParseAddr(%q): %s'')
      in case find (\<lambda>c. c \<in> {CHR ''.'', CHR '':'', CHR ''%''}) s of
           None \<Rightarrow> err
         | Some c \<Rightarrow>
             if c = CHR ''.'' then
               (case parse_v4_fields s of None \<Rightarrow> err | Some bs \<Rightarrow> Inr (Addr4 (v4_of bs)))
             else if c = CHR '':'' then (case parse_v6 s of None \<Rightarrow> err | Some a \<Rightarrow> Inr a)
             else err)"

text \<open>\<open>splitAddrPort\<close>: the text before the last colon, without brackets, and the port.\<close>

definition split_last_colon :: "string \<Rightarrow> (string \<times> string) option" where
  "split_last_colon s =
     (let tail = takeWhile (\<lambda>c. c \<noteq> CHR '':'') (rev s)
      in if length tail = length s then None
         else Some (take (length s - length tail - 1) s, rev tail))"

definition ParseAddrPort :: "string \<Rightarrow> addr_port result" where
  "ParseAddrPort s =
     (let err = Inl (Errorf ''invalid ip:port %q'')
      in case split_last_colon s of
           None \<Rightarrow> err
         | Some (ip, port) \<Rightarrow>
             if ip = [] \<or> port = [] then err
             else
               let v6 = (hd ip = CHR ''['')
               in if v6 \<and> (length ip < 2 \<or> last ip \<noteq> CHR '']'') then err
                  else
                    let host = (if v6 then butlast (tl ip) else ip)
                    in case ParseUint 16 port of
                         None \<Rightarrow> err
                       | Some n \<Rightarrow>
                           (case ParseAddr host of
                              Inl e \<Rightarrow> Inl e
                            | Inr a \<Rightarrow>
                                if v6 \<and> \<not> addr_Is6 a \<or> \<not> v6 \<and> addr_Is6 a then err
                                else Inr (AddrPortFrom a (of_nat n))))"

subsection \<open>Printing\<close>

definition v4_octets :: "32 word \<Rightarrow> nat list" where
  "v4_octets w =
     [unat w div 16777216, unat w div 65536 mod 256, unat w div 256 mod 256, unat w mod 256]"

definition v4_string :: "32 word \<Rightarrow> string" where
  "v4_string w = strings_Join (map Itoa (v4_octets w)) ''.''"

definition hex_char :: "nat \<Rightarrow> char" where
  "hex_char d = (if d < 10 then char_of (48 + d) else char_of (87 + d))"

fun hex_string :: "nat \<Rightarrow> string" where
  "hex_string n = (if n < 16 then [hex_char n] else hex_string (n div 16) @ [hex_char (n mod 16)])"

declare hex_string.simps [simp del]

definition v6_groups :: "128 word \<Rightarrow> nat list" where
  "v6_groups w = map (\<lambda>i. unat w div 65536 ^ (7 - i) mod 65536) [0..<8]"

text \<open>The first of the longest runs of at least two zero groups, as start and end.\<close>

definition zero_run :: "nat list \<Rightarrow> nat \<times> nat" where
  "zero_run gs =
     foldl (\<lambda>(st, en) i.
         let j = i + length (takeWhile (\<lambda>g. g = 0) (drop i gs))
         in if 2 \<le> j - i \<and> en - st < j - i then (i, j) else (st, en))
       (255, 255) [0..<8]"

fun v6_text :: "nat list \<Rightarrow> nat \<times> nat \<Rightarrow> nat \<Rightarrow> nat \<Rightarrow> string" where
  "v6_text gs (st, en) 0 i = []"
| "v6_text gs (st, en) (Suc fuel) i =
     (if 8 \<le> i then []
      else if i = st then
        ''::'' @ (if 8 \<le> en then [] else hex_string (gs ! en) @ v6_text gs (st, en) fuel (Suc en))
      else (if 0 < i then '':'' else []) @ hex_string (gs ! i) @ v6_text gs (st, en) fuel (Suc i))"

definition addr_Is4In6 :: "128 word \<Rightarrow> bool" where
  "addr_Is4In6 w \<longleftrightarrow> unat w div 2 ^ 32 = 65535"

fun addr_String :: "netip_addr \<Rightarrow> string" where
  "addr_String AddrZero = ''invalid IP''"
| "addr_String (Addr4 w) = v4_string w"
| "addr_String (Addr6 w zone) =
     (if addr_Is4In6 w then ''::ffff:'' @ v4_string (ucast w)
      else v6_text (v6_groups w) (zero_run (v6_groups w)) 8 0) @
     (if zone = [] then [] else ''%'' @ zone)"

subsection \<open>Round trip of IPv4 addresses\<close>

lemma Itoa_head: "0 < n \<Longrightarrow> hd (Itoa n) \<noteq> CHR ''0''"
proof (induction n rule: Itoa.induct)
  case (1 n)
  show ?case
  proof (cases "n < 10")
    case True
    have "(of_char (digit_char n) :: nat) \<noteq> of_char (CHR ''0'')"
      using True "1.prems" by (simp add: of_char_digit_char)
    then show ?thesis using True by (subst Itoa.simps) auto
  next
    case False
    then have "hd (Itoa (n div 10)) \<noteq> CHR ''0''" using 1 by simp
    then show ?thesis using False by (subst Itoa.simps) simp
  qed
qed

lemma parse_octet_Itoa: "n < 256 \<Longrightarrow> parse_octet (Itoa n) = Some n"
proof -
  assume n: "n < 256"
  have "hd (Itoa n) \<noteq> CHR ''0''" if "1 < length (Itoa n)"
  proof (rule Itoa_head)
    show "0 < n" using that by (cases "n = 0") (simp_all add: Itoa.simps [of 0])
  qed
  then show ?thesis using n by (simp add: parse_octet_def)
qed

lemma v4_string_split: "strings_Split CHR ''.'' (v4_string w) = map Itoa (v4_octets w)"
proof -
  have dot: "CHR ''.'' \<notin> set (Itoa n)" for n by (rule Itoa_no_char) simp
  show ?thesis
    by (simp add: v4_string_def v4_octets_def strings_Split_one [OF dot] strings_Split_no_sep [OF dot])
qed

lemma v4_octets_bound: "list_all (\<lambda>n. n < 256) (v4_octets w)"
proof -
  have "unat w < 4294967296" using unsigned_less [of w] by simp
  then show ?thesis by (simp add: v4_octets_def)
qed

lemma v4_octets_value: "v4_of (v4_octets w) = w"
proof -
  let ?n = "unat w"
  have "256 * (256 * (256 * (?n div 16777216) + ?n div 65536 mod 256) + ?n div 256 mod 256) + ?n mod 256 = ?n"
  proof -
    have "?n div 16777216 = ?n div 65536 div 256" "?n div 65536 = ?n div 256 div 256"
      by (simp_all add: div_mult2_eq [symmetric])
    then show ?thesis by (metis mult_div_mod_eq)
  qed
  then show ?thesis by (simp add: v4_of_def v4_octets_def)
qed

lemma parse_v4_string: "parse_v4_fields (v4_string w) = Some (v4_octets w)"
proof -
  obtain a b c d where o: "v4_octets w = [a, b, c, d]" by (simp add: v4_octets_def)
  then have "a < 256" "b < 256" "c < 256" "d < 256" using v4_octets_bound [of w] by simp_all
  then show ?thesis by (simp add: parse_v4_fields_def v4_string_split o parse_octet_Itoa)
qed

lemma find_after: "\<forall>c \<in> set w. \<not> P c \<Longrightarrow> P x \<Longrightarrow> find P (w @ x # s) = Some x"
  by (induction w) auto

lemma find_digits:
  "find (\<lambda>c. c \<in> {CHR ''.'', CHR '':'', CHR ''%''}) (Itoa n @ CHR ''.'' # s) = Some CHR ''.''"
proof (rule find_after)
  have "(of_char c :: nat) < 58" if "c \<in> set (Itoa n)" for c
    using that set_Itoa of_char_digit_char by fastforce
  from this [of "CHR '':''"] have "CHR '':'' \<notin> set (Itoa n)" by auto
  moreover have "CHR ''.'' \<notin> set (Itoa n)" "CHR ''%'' \<notin> set (Itoa n)" by (rule Itoa_no_char; simp)+
  ultimately show "\<forall>c \<in> set (Itoa n). c \<notin> {CHR ''.'', CHR '':'', CHR ''%''}" by auto
qed simp

lemma ParseAddr_v4_string: "ParseAddr (v4_string w) = Inr (Addr4 w)"
proof -
  obtain a b c d where o: "v4_octets w = [a, b, c, d]" by (simp add: v4_octets_def)
  have "find (\<lambda>c. c \<in> {CHR ''.'', CHR '':'', CHR ''%''}) (v4_string w) = Some CHR ''.''"
    by (simp only: v4_string_def o list.map strings_Join.simps find_digits append_Cons append_Nil)
  then show ?thesis by (simp add: ParseAddr_def parse_v4_string v4_octets_value)
qed

subsection \<open>Printing an address with its port\<close>

definition ap_String :: "addr_port \<Rightarrow> string" where
  "ap_String p =
     (case ap_Addr p of
        AddrZero \<Rightarrow> ''invalid AddrPort''
      | Addr4 w \<Rightarrow> v4_string w @ '':'' @ Itoa (unat (ap_Port p))
      | Addr6 w zone \<Rightarrow> ''['' @ addr_String (Addr6 w zone) @ '']:'' @ Itoa (unat (ap_Port p)))"

lemma ap_String_nonempty [simp]: "ap_String p \<noteq> []"
  by (simp add: ap_String_def split: netip_addr.splits)

subsection \<open>Parsed addresses are valid\<close>

lemma parse_v6_valid: "parse_v6 s = Some a \<Longrightarrow> addr_IsValid a"
  unfolding parse_v6_def Let_def
  by (auto split: if_split_asm option.split_asm prod.split_asm list.split_asm)

lemma ParseAddr_valid: "ParseAddr s = Inr a \<Longrightarrow> addr_IsValid a"
  unfolding ParseAddr_def Let_def
  by (auto dest: parse_v6_valid split: if_split_asm option.split_asm)

lemma ParseAddrPort_valid: "ParseAddrPort s = Inr p \<Longrightarrow> ap_IsValid p"
  by (auto simp: ParseAddrPort_def ap_IsValid_def Let_def dest!: ParseAddr_valid
      split: option.splits if_splits sum.splits)

subsection \<open>Round trip of an IPv4 address with its port\<close>

lemma Itoa_no_colon: "CHR '':'' \<notin> set (Itoa n)"
proof
  assume "CHR '':'' \<in> set (Itoa n)"
  then have "CHR '':'' \<in> digit_char ` {..<10}" using set_Itoa by blast
  then obtain d where d: "d < 10" "CHR '':'' = digit_char d" by auto
  have "(of_char CHR '':'' :: nat) = 48 + d" unfolding d(2) by (rule of_char_digit_char [OF d(1)])
  then show False using d(1) by simp
qed

lemma split_last_colon_snoc:
  "CHR '':'' \<notin> set t \<Longrightarrow> split_last_colon (s @ CHR '':'' # t) = Some (s, t)"
proof -
  assume "CHR '':'' \<notin> set t"
  then have "takeWhile (\<lambda>c. c \<noteq> CHR '':'') (rev t @ CHR '':'' # rev s) = rev t"
    by (subst takeWhile_append2) auto
  then show ?thesis by (simp add: split_last_colon_def Let_def)
qed

lemma v4_string_head: "v4_string w \<noteq> [] \<and> hd (v4_string w) \<noteq> CHR ''[''"
proof -
  obtain n rest where w: "v4_string w = Itoa n @ rest"
    by (simp add: v4_string_def v4_octets_def)
  then have "hd (v4_string w) = hd (Itoa n)" by simp
  moreover have "hd (Itoa n) \<in> digit_char ` {..<10}" using set_Itoa [of n] Itoa_nonempty hd_in_set by blast
  moreover have "digit_char d \<noteq> CHR ''[''" if "d < 10" for d using of_char_digit_char [OF that] that by auto
  ultimately have "hd (v4_string w) \<noteq> CHR ''[''" by fastforce
  then show ?thesis using w by simp
qed

lemma ParseAddrPort_v4:
  "ParseAddrPort (ap_String (AddrPortFrom (Addr4 w) p)) = Inr (AddrPortFrom (Addr4 w) p)"
proof -
  have "unat p < 65536" using unsigned_less [of p] by simp
  then show ?thesis
    using v4_string_head [of w]
    by (simp add: ParseAddrPort_def ap_String_def split_last_colon_snoc Itoa_no_colon ParseAddr_v4_string)
qed

end
