(* ===== verification/Sdp.thy ===== *)
theory Sdp
  imports Netip
begin

text \<open>
  \<open>internal/sip/sdp\<close>: reading, negotiating and building SDP audio descriptions. The structures are
  those of package \<open>pion/sdp\<close>, with the fields the PBX reads or writes; that package's parser,
  printer, attribute lookup and attribute constructors are the fields of a record \<open>pion\<close>, and what
  the PBX relies on is stated by \<open>pion_attributes\<close> and \<open>pion_round_trip\<close>.
\<close>

subsection \<open>Structures of \<open>pion/sdp\<close>\<close>

record sdp_attribute =
  at_Key :: string
  at_Value :: string

record connection_information =
  ci_NetworkType :: string
  ci_AddressType :: string
  ci_Address :: "string option"

record media_description =
  md_Media :: string
  md_Port :: int
  md_Protos :: "string list"
  md_Formats :: "string list"
  md_ConnectionInformation :: "connection_information option"
  md_Attributes :: "sdp_attribute list"

record sdp_origin =
  or_Username :: string
  or_SessionID :: "64 word"
  or_SessionVersion :: "64 word"
  or_NetworkType :: string
  or_AddressType :: string
  or_UnicastAddress :: string

record session_description =
  sn_Version :: int
  sn_Origin :: sdp_origin
  sn_SessionName :: string
  sn_ConnectionInformation :: "connection_information option"
  sn_TimeDescriptions :: "(64 word \<times> 64 word) list"
  sn_Attributes :: "sdp_attribute list"
  sn_MediaDescriptions :: "media_description list"

record pion =
  pion_Unmarshal :: "string \<Rightarrow> session_description result"
  pion_Marshal :: "session_description \<Rightarrow> string result"
  pion_Attribute :: "sdp_attribute list \<Rightarrow> string \<Rightarrow> string option"
  pion_NewAttribute :: "string \<Rightarrow> string \<Rightarrow> sdp_attribute"
  pion_NewPropertyAttribute :: "string \<Rightarrow> sdp_attribute"

subsection \<open>Data\<close>

definition clockRateG711 :: "32 word" where "clockRateG711 = 8000"
definition defaultPTime :: nat where "defaultPTime = 20"

definition ErrNoAudio :: go_error where "ErrNoAudio = Sentinel ''SDP has no supported audio media''"
definition ErrNoCommonCodec :: go_error where "ErrNoCommonCodec = Sentinel ''SDP has no common G.711 codec''"

definition DirectionSendRecv :: string where "DirectionSendRecv = ''sendrecv''"
definition DirectionSendOnly :: string where "DirectionSendOnly = ''sendonly''"
definition DirectionRecvOnly :: string where "DirectionRecvOnly = ''recvonly''"
definition DirectionInactive :: string where "DirectionInactive = ''inactive''"

record codec =
  cd_Name :: string
  cd_PayloadType :: "8 word"
  cd_ClockRate :: "32 word"

record sdp_endpoint =
  ep_RTP :: addr_port
  ep_RTCP :: addr_port
  ep_Direction :: string
  ep_Codecs :: "codec list"

record mapping =
  mp_Name :: string
  mp_ClockRate :: "32 word"
  mp_CallerPT :: "8 word"
  mp_CalleePT :: "8 word"
  mp_CallerDTMFPT :: "8 word"
  mp_CalleeDTMFPT :: "8 word"
  mp_HasDTMF :: bool

subsection \<open>Parsing\<close>

definition audioDescription :: "session_description \<Rightarrow> media_description option" where
  "audioDescription d = find (\<lambda>m. md_Media m = ''audio'') (sn_MediaDescriptions d)"

definition isSupported :: "codec \<Rightarrow> bool" where
  "isSupported c \<longleftrightarrow>
     cd_ClockRate c = clockRateG711 \<and>
     (cd_Name c = ''PCMU'' \<or> cd_Name c = ''PCMA'' \<or> cd_Name c = ''TELEPHONE-EVENT'')"

definition hasAudioCodec :: "codec list \<Rightarrow> bool" where
  "hasAudioCodec cs \<longleftrightarrow> list_ex (\<lambda>c. cd_Name c = ''PCMU'' \<or> cd_Name c = ''PCMA'') cs"

text \<open>One \<open>rtpmap\<close> attribute.\<close>

definition parse_rtpmap :: "string \<Rightarrow> codec result" where
  "parse_rtpmap value =
     (case strings_Fields value of
        [pt, enc] \<Rightarrow>
          (case ParseUint 7 pt of
             None \<Rightarrow> Inl (Errorf ''invalid SDP payload type %q'')
           | Some payload \<Rightarrow>
               (case strings_Split CHR ''/'' enc of
                  name # rate # _ \<Rightarrow>
                    (case ParseUint 32 rate of
                       None \<Rightarrow> Inl (Errorf ''invalid SDP clock rate %q'')
                     | Some clockRate \<Rightarrow>
                         Inr \<lparr>cd_Name = strings_ToUpper name, cd_PayloadType = of_nat payload,
                              cd_ClockRate = of_nat clockRate\<rparr>)
                | _ \<Rightarrow> Inl (Errorf ''invalid SDP encoding %q'')))
      | _ \<Rightarrow> Inl (Errorf ''invalid SDP rtpmap %q''))"

fun parse_rtpmaps :: "sdp_attribute list \<Rightarrow> (8 word \<Rightarrow> codec option) \<Rightarrow> (8 word \<Rightarrow> codec option) result" where
  "parse_rtpmaps [] rtpMaps = Inr rtpMaps"
| "parse_rtpmaps (a # as) rtpMaps =
     (if at_Key a \<noteq> ''rtpmap'' then parse_rtpmaps as rtpMaps
      else case parse_rtpmap (at_Value a) of
             Inl e \<Rightarrow> Inl e
           | Inr c \<Rightarrow> parse_rtpmaps as (rtpMaps(cd_PayloadType c \<mapsto> c)))"

text \<open>The codec a format of the media line stands for, if any.\<close>

definition format_codec :: "(8 word \<Rightarrow> codec option) \<Rightarrow> string \<Rightarrow> codec option" where
  "format_codec rtpMaps format =
     (case ParseUint 7 format of
        None \<Rightarrow> None
      | Some payload \<Rightarrow>
          (case rtpMaps (of_nat payload) of
             Some c \<Rightarrow> Some c
           | None \<Rightarrow>
               if payload = 0 then Some \<lparr>cd_Name = ''PCMU'', cd_PayloadType = 0, cd_ClockRate = clockRateG711\<rparr>
               else if payload = 8 then Some \<lparr>cd_Name = ''PCMA'', cd_PayloadType = 8, cd_ClockRate = clockRateG711\<rparr>
               else None))"

definition parseCodecs :: "media_description \<Rightarrow> codec list result" where
  "parseCodecs media =
     (case parse_rtpmaps (md_Attributes media) (\<lambda>_. None) of
        Inl e \<Rightarrow> Inl e
      | Inr rtpMaps \<Rightarrow>
          (let codecs = filter isSupported (List.map_filter (format_codec rtpMaps) (md_Formats media))
           in if \<not> hasAudioCodec codecs then Inl ErrNoAudio else Inr codecs))"

definition mediaDirection :: "pion \<Rightarrow> session_description \<Rightarrow> media_description \<Rightarrow> string" where
  "mediaDirection p d media =
     (case find (\<lambda>dir. pion_Attribute p (md_Attributes media) dir \<noteq> None \<or>
                       pion_Attribute p (sn_Attributes d) dir \<noteq> None)
             [DirectionInactive, DirectionSendOnly, DirectionRecvOnly, DirectionSendRecv] of
        Some dir \<Rightarrow> dir
      | None \<Rightarrow> DirectionSendRecv)"

definition connection_address :: "session_description \<Rightarrow> media_description \<Rightarrow> string" where
  "connection_address d media =
     (case Option.bind (md_ConnectionInformation media) ci_Address of
        Some a \<Rightarrow> a
      | None \<Rightarrow>
          (case Option.bind (sn_ConnectionInformation d) ci_Address of Some a \<Rightarrow> a | None \<Rightarrow> ''''))"

text \<open>The RTCP port: the one above the RTP port unless an attribute \<open>rtcp\<close> names another.\<close>

definition rtcp_port :: "pion \<Rightarrow> media_description \<Rightarrow> 16 word \<Rightarrow> 16 word result" where
  "rtcp_port p media rtpPort =
     (case pion_Attribute p (md_Attributes media) ''rtcp'' of
        None \<Rightarrow> Inr (rtpPort + 1)
      | Some value \<Rightarrow>
          (case strings_Fields value of
             [] \<Rightarrow> Inl (Errorf ''invalid SDP RTCP port %q'')
           | f # _ \<Rightarrow>
               (case ParseUint 16 f of
                  None \<Rightarrow> Inl (Errorf ''invalid SDP RTCP port %q'')
                | Some n \<Rightarrow>
                    if n = 0 then Inl (Errorf ''invalid SDP RTCP port %q'') else Inr (of_nat n))))"

definition ParseAudio :: "pion \<Rightarrow> string \<Rightarrow> sdp_endpoint result" where
  "ParseAudio p body =
     (case pion_Unmarshal p body of
        Inl e \<Rightarrow> Inl (Wrapf ''parse SDP: %w'' e)
      | Inr d \<Rightarrow>
          (case audioDescription d of
             None \<Rightarrow> Inl ErrNoAudio
           | Some media \<Rightarrow>
               if md_Port media \<le> 0 \<or> 65535 < md_Port media then Inl ErrNoAudio
               else if strings_Join (md_Protos media) ''/'' \<noteq> ''RTP/AVP''
               then Inl (Errorf ''unsupported audio profile %q'')
               else
                 (case ParseAddr (connection_address d media) of
                    Inl _ \<Rightarrow> Inl (Errorf ''invalid SDP connection address %q'')
                  | Inr address \<Rightarrow>
                      if addr_IsUnspecified address then Inl (Errorf ''invalid SDP connection address %q'')
                      else
                        (let rtpPort = of_int (md_Port media) :: 16 word
                         in case rtcp_port p media rtpPort of
                              Inl e \<Rightarrow> Inl e
                            | Inr rtcpPort \<Rightarrow>
                                (case parseCodecs media of
                                   Inl e \<Rightarrow> Inl e
                                 | Inr codecs \<Rightarrow>
                                     Inr \<lparr>ep_RTP = AddrPortFrom address rtpPort,
                                          ep_RTCP = AddrPortFrom address rtcpPort,
                                          ep_Direction = mediaDirection p d media,
                                          ep_Codecs = codecs\<rparr>)))))"

subsection \<open>Negotiating\<close>

definition findCodec :: "codec list \<Rightarrow> string \<Rightarrow> codec option" where
  "findCodec cs name = find (\<lambda>c. cd_Name c = name) cs"

definition negotiated :: "sdp_endpoint \<Rightarrow> sdp_endpoint \<Rightarrow> codec \<Rightarrow> codec \<Rightarrow> mapping" where
  "negotiated offer answer answered offered =
     (let m = \<lparr>mp_Name = cd_Name answered, mp_ClockRate = cd_ClockRate answered,
               mp_CallerPT = cd_PayloadType offered, mp_CalleePT = cd_PayloadType answered,
               mp_CallerDTMFPT = 0, mp_CalleeDTMFPT = 0, mp_HasDTMF = False\<rparr>
      in case (findCodec (ep_Codecs offer) ''TELEPHONE-EVENT'', findCodec (ep_Codecs answer) ''TELEPHONE-EVENT'') of
           (Some callerDTMF, Some calleeDTMF) \<Rightarrow>
             m\<lparr>mp_HasDTMF := True, mp_CallerDTMFPT := cd_PayloadType callerDTMF,
               mp_CalleeDTMFPT := cd_PayloadType calleeDTMF\<rparr>
         | _ \<Rightarrow> m)"

fun negotiate_codecs :: "sdp_endpoint \<Rightarrow> sdp_endpoint \<Rightarrow> codec list \<Rightarrow> mapping result" where
  "negotiate_codecs offer answer [] = Inl ErrNoCommonCodec"
| "negotiate_codecs offer answer (answered # rest) =
     (if cd_Name answered \<noteq> ''PCMU'' \<and> cd_Name answered \<noteq> ''PCMA'' then negotiate_codecs offer answer rest
      else case find (\<lambda>offered. cd_Name offered = cd_Name answered \<and> cd_ClockRate offered = cd_ClockRate answered)
                  (ep_Codecs offer) of
             Some offered \<Rightarrow> Inr (negotiated offer answer answered offered)
           | None \<Rightarrow> negotiate_codecs offer answer rest)"

definition Negotiate :: "sdp_endpoint \<Rightarrow> sdp_endpoint \<Rightarrow> mapping result" where
  "Negotiate offer answer = negotiate_codecs offer answer (ep_Codecs answer)"

subsection \<open>Building\<close>

definition rtpmap_value :: "codec \<Rightarrow> string" where
  "rtpmap_value c =
     Itoa (unat (cd_PayloadType c)) @ '' '' @ cd_Name c @ ''/'' @ Itoa (unat (cd_ClockRate c))"

definition codec_attributes :: "pion \<Rightarrow> codec \<Rightarrow> sdp_attribute list" where
  "codec_attributes p c =
     pion_NewAttribute p ''rtpmap'' (rtpmap_value c) #
     (if cd_Name c = ''TELEPHONE-EVENT''
      then [pion_NewAttribute p ''fmtp'' (Itoa (unat (cd_PayloadType c)) @ '' 0-16'')] else [])"

text \<open>The description \<open>BuildAudio\<close> hands to the printer; \<open>now\<close> is the reading of the clock.\<close>

definition audio_body ::
  "pion \<Rightarrow> time \<Rightarrow> addr_port \<Rightarrow> addr_port \<Rightarrow> codec list \<Rightarrow> string \<Rightarrow> session_description" where
  "audio_body p now localRTP localRTCP codecs direction =
     (let supported = filter isSupported codecs;
          formats = map (\<lambda>c. Itoa (unat (cd_PayloadType c))) supported;
          attributes = concat (map (codec_attributes p) supported) @
            [pion_NewAttribute p ''rtcp'' (Itoa (unat (ap_Port localRTCP))),
             pion_NewPropertyAttribute p direction,
             pion_NewAttribute p ''ptime'' (Itoa defaultPTime)];
          addressType = (if addr_Is6 (ap_Addr localRTP) then ''IP6'' else ''IP4'');
          sessionID = of_int (int64 (now - unix_epoch)) :: 64 word;
          address = addr_String (ap_Addr localRTP)
      in \<lparr>sn_Version = 0,
          sn_Origin = \<lparr>or_Username = ''aixvolinkpbx'', or_SessionID = sessionID, or_SessionVersion = sessionID,
                       or_NetworkType = ''IN'', or_AddressType = addressType, or_UnicastAddress = address\<rparr>,
          sn_SessionName = ''AixvoLinkPBX'',
          sn_ConnectionInformation =
            Some \<lparr>ci_NetworkType = ''IN'', ci_AddressType = addressType, ci_Address = Some address\<rparr>,
          sn_TimeDescriptions = [(0, 0)],
          sn_Attributes = [],
          sn_MediaDescriptions =
            [\<lparr>md_Media = ''audio'', md_Port = uint (ap_Port localRTP), md_Protos = [''RTP'', ''AVP''],
              md_Formats = formats, md_ConnectionInformation = None, md_Attributes = attributes\<rparr>]\<rparr>)"

definition BuildAudio ::
  "pion \<Rightarrow> time \<Rightarrow> addr_port \<Rightarrow> addr_port \<Rightarrow> codec list \<Rightarrow> string \<Rightarrow> string result" where
  "BuildAudio p now localRTP localRTCP codecs direction =
     (if \<not> ap_IsValid localRTP \<or> \<not> ap_IsValid localRTCP \<or> ap_Addr localRTP \<noteq> ap_Addr localRTCP
      then Inl (Errorf ''local RTP and RTCP addresses are invalid'')
      else if \<not> hasAudioCodec codecs then Inl ErrNoAudio
      else
        let direction' = (if direction = '''' then DirectionSendRecv else direction)
        in case pion_Marshal p (audio_body p now localRTP localRTCP codecs direction') of
             Inl e \<Rightarrow> Inl (Wrapf ''marshal SDP: %w'' e)
           | Inr body \<Rightarrow> Inr body)"

definition CodecListForAnswer :: "mapping \<Rightarrow> codec list" where
  "CodecListForAnswer m =
     \<lparr>cd_Name = mp_Name m, cd_PayloadType = mp_CallerPT m, cd_ClockRate = mp_ClockRate m\<rparr> #
     (if mp_HasDTMF m
      then [\<lparr>cd_Name = ''TELEPHONE-EVENT'', cd_PayloadType = mp_CallerDTMFPT m, cd_ClockRate = clockRateG711\<rparr>]
      else [])"

definition CodecListForOffer :: "sdp_endpoint \<Rightarrow> codec list" where
  "CodecListForOffer e = ep_Codecs e"

subsection \<open>What is relied on of \<open>pion/sdp\<close>\<close>

text \<open>
  The constructors fill the fields they are given and the lookup returns the value of the first
  attribute with the key; and for a description all of whose parts are plain text, the parser reads
  back what the printer wrote.
\<close>

definition pion_attributes :: "pion \<Rightarrow> bool" where
  "pion_attributes p \<longleftrightarrow>
     (\<forall>as k. pion_Attribute p as k = map_option at_Value (find (\<lambda>a. at_Key a = k) as)) \<and>
     (\<forall>k v. pion_NewAttribute p k v = \<lparr>at_Key = k, at_Value = v\<rparr>) \<and>
     (\<forall>k. pion_NewPropertyAttribute p k = \<lparr>at_Key = k, at_Value = ''''\<rparr>)"

definition line_text :: "string \<Rightarrow> bool" where
  "line_text s \<longleftrightarrow> list_all (\<lambda>c. 32 \<le> (of_char c :: nat) \<and> (of_char c :: nat) < 127) s"

definition token_text :: "string \<Rightarrow> bool" where
  "token_text s \<longleftrightarrow> s \<noteq> [] \<and> list_all (\<lambda>c. 33 \<le> (of_char c :: nat) \<and> (of_char c :: nat) < 127) s"

definition plain_connection :: "connection_information \<Rightarrow> bool" where
  "plain_connection ci \<longleftrightarrow>
     token_text (ci_NetworkType ci) \<and> token_text (ci_AddressType ci) \<and>
     (case ci_Address ci of None \<Rightarrow> False | Some a \<Rightarrow> token_text a \<and> CHR ''/'' \<notin> set a)"

definition plain_attribute :: "sdp_attribute \<Rightarrow> bool" where
  "plain_attribute a \<longleftrightarrow> token_text (at_Key a) \<and> CHR '':'' \<notin> set (at_Key a) \<and> line_text (at_Value a)"

definition plain_media :: "media_description \<Rightarrow> bool" where
  "plain_media m \<longleftrightarrow>
     token_text (md_Media m) \<and> 0 \<le> md_Port m \<and> md_Port m \<le> 65535 \<and>
     md_Protos m \<noteq> [] \<and> list_all (\<lambda>s. token_text s \<and> CHR ''/'' \<notin> set s) (md_Protos m) \<and>
     md_Formats m \<noteq> [] \<and> list_all token_text (md_Formats m) \<and>
     (case md_ConnectionInformation m of None \<Rightarrow> True | Some ci \<Rightarrow> plain_connection ci) \<and>
     list_all plain_attribute (md_Attributes m)"

definition plain_session :: "session_description \<Rightarrow> bool" where
  "plain_session d \<longleftrightarrow>
     sn_Version d = 0 \<and> token_text (or_Username (sn_Origin d)) \<and> token_text (or_NetworkType (sn_Origin d)) \<and>
     token_text (or_AddressType (sn_Origin d)) \<and> token_text (or_UnicastAddress (sn_Origin d)) \<and>
     sn_SessionName d \<noteq> [] \<and> line_text (sn_SessionName d) \<and>
     (case sn_ConnectionInformation d of None \<Rightarrow> True | Some ci \<Rightarrow> plain_connection ci) \<and>
     sn_TimeDescriptions d \<noteq> [] \<and> list_all plain_attribute (sn_Attributes d) \<and>
     list_all plain_media (sn_MediaDescriptions d)"

definition pion_round_trip :: "pion \<Rightarrow> bool" where
  "pion_round_trip p \<longleftrightarrow>
     (\<forall>d body. plain_session d \<longrightarrow> pion_Marshal p d = Inr body \<longrightarrow> pion_Unmarshal p body = Inr d)"

lemma pion_attributesD:
  assumes "pion_attributes p"
  shows "pion_Attribute p as k = map_option at_Value (find (\<lambda>a. at_Key a = k) as)"
    and "pion_NewAttribute p k v = \<lparr>at_Key = k, at_Value = v\<rparr>"
    and "pion_NewPropertyAttribute p k = \<lparr>at_Key = k, at_Value = ''''\<rparr>"
  using assms by (simp_all add: pion_attributes_def)

subsection \<open>Codecs through an \<open>rtpmap\<close>\<close>

lemma isSupported_name:
  "isSupported c \<Longrightarrow> cd_Name c = ''PCMU'' \<or> cd_Name c = ''PCMA'' \<or> cd_Name c = ''TELEPHONE-EVENT''"
  by (simp add: isSupported_def)

lemma isSupported_text:
  assumes "isSupported c"
  shows "strings_ToUpper (cd_Name c) = cd_Name c" and "cd_Name c \<noteq> []"
    and "\<forall>x \<in> set (cd_Name c). \<not> is_space x" and "CHR ''/'' \<notin> set (cd_Name c)"
    and "list_all (\<lambda>x. 33 \<le> (of_char x :: nat) \<and> (of_char x :: nat) < 127) (cd_Name c)"
  using isSupported_name [OF assms]
  by (auto simp: strings_ToUpper_def char_to_upper_def is_space_def)

lemma parse_rtpmap_value:
  assumes "isSupported c" and "cd_PayloadType c < 128"
  shows "parse_rtpmap (rtpmap_value c) = Inr c"
proof -
  let ?enc = "cd_Name c @ CHR ''/'' # Itoa (unat (cd_ClockRate c))"
  have "\<forall>x \<in> set ?enc. \<not> is_space x"
    using isSupported_text(3) [OF assms(1)] Itoa_no_space by (auto simp: is_space_def)
  moreover have "is_space CHR '' ''" by (simp add: is_space_def)
  ultimately have "strings_Fields (rtpmap_value c) = [Itoa (unat (cd_PayloadType c)), ?enc]"
    using strings_Fields_two [OF Itoa_nonempty Itoa_no_space, of ?enc "CHR '' ''"]
    by (simp add: rtpmap_value_def)
  moreover have "strings_Split CHR ''/'' ?enc = [cd_Name c, Itoa (unat (cd_ClockRate c))]"
    using strings_Split_one [OF isSupported_text(4) [OF assms(1)]]
      strings_Split_no_sep [OF Itoa_no_char [of "CHR ''/''"]] by simp
  moreover have "unat (cd_PayloadType c) < 128" using assms(2) by (simp add: word_less_nat_alt)
  moreover have "unat (cd_ClockRate c) < 4294967296" using unsigned_less [of "cd_ClockRate c"] by simp
  ultimately show ?thesis by (simp add: parse_rtpmap_def isSupported_text [OF assms(1)])
qed

lemma parse_rtpmaps_skip:
  "list_all (\<lambda>a. at_Key a \<noteq> ''rtpmap'') as \<Longrightarrow> parse_rtpmaps as m = Inr m"
  by (induction as) auto

lemma parse_rtpmaps_built:
  assumes "pion_attributes p" and "list_all isSupported cs" and "list_all (\<lambda>c. cd_PayloadType c < 128) cs"
    and "list_all (\<lambda>a. at_Key a \<noteq> ''rtpmap'') as"
  shows "parse_rtpmaps (concat (map (codec_attributes p) cs) @ as) m =
     Inr (fold (\<lambda>c m. m(cd_PayloadType c \<mapsto> c)) cs m)"
  using assms(2,3)
proof (induction cs arbitrary: m)
  case Nil
  then show ?case using parse_rtpmaps_skip [OF assms(4)] by simp
next
  case (Cons c cs)
  then show ?case
    by (simp add: codec_attributes_def pion_attributesD [OF assms(1)] parse_rtpmap_value fun_upd_def)
qed

lemma fold_codecs_lookup:
  "pt \<notin> cd_PayloadType ` set cs \<Longrightarrow> fold (\<lambda>c m. m(cd_PayloadType c \<mapsto> c)) cs m pt = m pt"
  by (induction cs arbitrary: m) auto

lemma fold_codecs_member:
  "distinct (map cd_PayloadType cs) \<Longrightarrow> c \<in> set cs \<Longrightarrow>
     fold (\<lambda>c m. m(cd_PayloadType c \<mapsto> c)) cs m (cd_PayloadType c) = Some c"
  by (induction cs arbitrary: m) (auto simp: fold_codecs_lookup)

lemma map_filter_Some: "(\<And>x. x \<in> set xs \<Longrightarrow> f (g x) = Some x) \<Longrightarrow> List.map_filter f (map g xs) = xs"
  by (induction xs) (auto simp: map_filter_simps)

subsection \<open>A built description, read back\<close>

definition known_direction :: "string \<Rightarrow> bool" where
  "known_direction dir \<longleftrightarrow>
     dir \<in> {DirectionSendRecv, DirectionSendOnly, DirectionRecvOnly, DirectionInactive}"

lemmas direction_defs = DirectionSendRecv_def DirectionSendOnly_def DirectionRecvOnly_def DirectionInactive_def

text \<open>The attributes of a built body.\<close>

definition built_attributes :: "pion \<Rightarrow> addr_port \<Rightarrow> codec list \<Rightarrow> string \<Rightarrow> sdp_attribute list" where
  "built_attributes p rtcp cs dir =
     concat (map (codec_attributes p) cs) @
     [pion_NewAttribute p ''rtcp'' (Itoa (unat (ap_Port rtcp))), pion_NewPropertyAttribute p dir,
      pion_NewAttribute p ''ptime'' (Itoa defaultPTime)]"

lemma find_codec_attributes:
  assumes "pion_attributes p" and "k \<noteq> ''rtpmap''" and "k \<noteq> ''fmtp''"
  shows "find (\<lambda>a. at_Key a = k) (concat (map (codec_attributes p) cs) @ as) = find (\<lambda>a. at_Key a = k) as"
  using assms(2,3) by (induction cs) (auto simp: codec_attributes_def pion_attributesD [OF assms(1)])

lemma built_rtcp_port:
  assumes "pion_attributes p" and "md_Attributes m = built_attributes p rtcp cs dir" and "ap_Port rtcp \<noteq> 0"
  shows "rtcp_port p m port = Inr (ap_Port rtcp)"
proof -
  have "unat (ap_Port rtcp) < 65536" using unsigned_less [of "ap_Port rtcp"] by simp
  moreover have "unat (ap_Port rtcp) \<noteq> 0" using assms(3) by (simp add: unat_eq_zero)
  ultimately show ?thesis
    by (simp add: rtcp_port_def assms(2) built_attributes_def find_codec_attributes [OF assms(1)]
        pion_attributesD [OF assms(1)] strings_Fields_word Itoa_no_space)
qed

lemma built_direction:
  assumes "pion_attributes p" and "md_Attributes m = built_attributes p rtcp cs dir"
    and "sn_Attributes d = []" and "known_direction dir"
  shows "mediaDirection p d m = dir"
proof -
  have "pion_Attribute p (md_Attributes m) k \<noteq> None \<longleftrightarrow> k = dir"
    if "known_direction k" for k
    using that assms(4)
    by (auto simp: assms(2) built_attributes_def pion_attributesD [OF assms(1)] find_codec_attributes [OF assms(1)]
        known_direction_def direction_defs)
  then have "find (\<lambda>k. pion_Attribute p (md_Attributes m) k \<noteq> None \<or> pion_Attribute p (sn_Attributes d) k \<noteq> None)
      [DirectionInactive, DirectionSendOnly, DirectionRecvOnly, DirectionSendRecv] =
    find (\<lambda>k. k = dir) [DirectionInactive, DirectionSendOnly, DirectionRecvOnly, DirectionSendRecv]"
    by (simp add: assms(3) pion_attributesD [OF assms(1)] known_direction_def)
  also have "\<dots> = Some dir" using assms(4) by (auto simp: known_direction_def direction_defs)
  finally show ?thesis by (simp add: mediaDirection_def)
qed

lemma built_codecs:
  assumes "pion_attributes p" and "md_Attributes m = built_attributes p rtcp cs dir"
    and "md_Formats m = map (\<lambda>c. Itoa (unat (cd_PayloadType c))) cs" and "known_direction dir"
    and "list_all isSupported cs" and "list_all (\<lambda>c. cd_PayloadType c < 128) cs"
    and "distinct (map cd_PayloadType cs)" and "hasAudioCodec cs"
  shows "parseCodecs m = Inr cs"
proof -
  let ?maps = "fold (\<lambda>c m. m(cd_PayloadType c \<mapsto> c)) cs (\<lambda>_. None)"
  have maps: "parse_rtpmaps (md_Attributes m) (\<lambda>_. None) = Inr ?maps"
    unfolding assms(2) built_attributes_def
    by (rule parse_rtpmaps_built [OF assms(1,5,6)])
      (use assms(4) in \<open>auto simp: pion_attributesD [OF assms(1)] known_direction_def direction_defs\<close>)
  have "format_codec ?maps (Itoa (unat (cd_PayloadType c))) = Some c" if "c \<in> set cs" for c
  proof -
    have "unat (cd_PayloadType c) < 128"
      using assms(6) that by (auto simp: list_all_iff word_less_nat_alt)
    then show ?thesis using fold_codecs_member [OF assms(7) that] by (simp add: format_codec_def)
  qed
  then have "List.map_filter (format_codec ?maps) (md_Formats m) = cs"
    unfolding assms(3) by (rule map_filter_Some)
  then show ?thesis using maps assms(5,8) by (simp add: parseCodecs_def list_all_iff filter_id_conv)
qed

lemma line_text_append [simp]: "line_text (s @ t) \<longleftrightarrow> line_text s \<and> line_text t"
  by (simp add: line_text_def)

lemma digit_text: "list_all (\<lambda>c. 33 \<le> (of_char c :: nat) \<and> (of_char c :: nat) < 127) (Itoa n)"
proof -
  have "33 \<le> (of_char c :: nat) \<and> (of_char c :: nat) < 127" if c: "c \<in> set (Itoa n)" for c
  proof -
    obtain d where "c = digit_char d" "d < 10" using c set_Itoa [of n] by auto
    then show ?thesis by (simp add: of_char_digit_char)
  qed
  then show ?thesis by (simp add: list_all_iff)
qed

lemma text_weaken: "list_all (\<lambda>c. 33 \<le> (of_char c :: nat) \<and> (of_char c :: nat) < 127) s \<Longrightarrow> line_text s"
  by (auto simp: line_text_def list_all_iff)

lemma token_text_Itoa [simp]: "token_text (Itoa n)"
  by (simp add: token_text_def digit_text)

lemma token_text_v4: "token_text (v4_string w)" and v4_no_slash: "CHR ''/'' \<notin> set (v4_string w)"
proof -
  obtain a b c d where o: "v4_octets w = [a, b, c, d]" by (simp add: v4_octets_def)
  show "token_text (v4_string w)" using digit_text by (simp add: token_text_def v4_string_def o)
  have "CHR ''/'' \<notin> set (Itoa n)" for n by (rule Itoa_no_char) simp
  then show "CHR ''/'' \<notin> set (v4_string w)" by (simp add: v4_string_def o)
qed

lemma codec_attributes_plain:
  assumes "pion_attributes p" and "isSupported c"
  shows "list_all plain_attribute (codec_attributes p c)"
  using text_weaken [OF digit_text] text_weaken [OF isSupported_text(5) [OF assms(2)]]
  by (auto simp: codec_attributes_def pion_attributesD [OF assms(1)] plain_attribute_def token_text_def
      rtpmap_value_def) (auto simp: line_text_def)

lemma concat_plain:
  assumes "pion_attributes p" and "list_all isSupported cs"
  shows "list_all plain_attribute (concat (map (codec_attributes p) cs))"
  using assms(2) by (induction cs) (auto simp: codec_attributes_plain [OF assms(1)])

lemma built_plain:
  assumes "pion_attributes p" and "list_all isSupported cs" and "cs \<noteq> []" and "known_direction dir"
    and "ap_Addr rtp = Addr4 w"
  shows "plain_session (audio_body p now rtp rtcp cs dir)"
proof -
  have cs: "filter isSupported cs = cs" using assms(2) by (simp add: list_all_iff filter_id_conv)
  have "uint (ap_Port rtp) < 65536" using uint_bounded [of "ap_Port rtp"] by simp
  moreover have "list_all plain_attribute
      [pion_NewAttribute p ''rtcp'' (Itoa (unat (ap_Port rtcp))), pion_NewPropertyAttribute p dir,
       pion_NewAttribute p ''ptime'' (Itoa defaultPTime)]"
    using assms(4) text_weaken [OF digit_text]
    by (auto simp: plain_attribute_def pion_attributesD [OF assms(1)] token_text_def known_direction_def
        direction_defs) (auto simp: line_text_def)
  ultimately show ?thesis
    using concat_plain [OF assms(1,2)] assms(3)
    by (simp add: audio_body_def plain_session_def plain_media_def plain_connection_def assms(5) cs
        token_text_v4 v4_no_slash Let_def list_all_iff)
      (simp add: token_text_def line_text_def)
qed

lemma built_parse:
  assumes "pion_attributes p" and "pion_round_trip p"
    and "BuildAudio p now rtp rtcp cs dir = Inr body"
    and "ap_Addr rtp = Addr4 w" and "w \<noteq> 0" and "ap_Port rtp \<noteq> 0" and "ap_Port rtcp \<noteq> 0"
    and "list_all isSupported cs" and "list_all (\<lambda>c. cd_PayloadType c < 128) cs"
    and "distinct (map cd_PayloadType cs)" and "dir = '''' \<or> known_direction dir"
  shows "ParseAudio p body =
     Inr \<lparr>ep_RTP = rtp, ep_RTCP = rtcp,
          ep_Direction = (if dir = '''' then DirectionSendRecv else dir), ep_Codecs = cs\<rparr>"
proof -
  define dir' where "dir' = (if dir = '''' then DirectionSendRecv else dir)"
  define d where "d = audio_body p now rtp rtcp cs dir'"
  have known: "known_direction dir'" using assms(11) by (auto simp: dir'_def known_direction_def)
  have ok: "ap_Addr rtp = ap_Addr rtcp" "hasAudioCodec cs" "pion_Marshal p d = Inr body"
    using assms(3) by (auto simp: BuildAudio_def d_def dir'_def Let_def split: if_splits sum.splits)
  have cs: "filter isSupported cs = cs" using assms(8) by (simp add: list_all_iff filter_id_conv)
  have "cs \<noteq> []" using ok(2) by (auto simp: hasAudioCodec_def)
  then have unm: "pion_Unmarshal p body = Inr d"
    using assms(2) ok(3) built_plain [OF assms(1,8) _ known assms(4)] unfolding pion_round_trip_def d_def by blast
  obtain m where m: "audioDescription d = Some m" "md_Port m = uint (ap_Port rtp)" "md_Protos m = [''RTP'', ''AVP'']"
    "md_ConnectionInformation m = None" "md_Attributes m = built_attributes p rtcp cs dir'"
    "md_Formats m = map (\<lambda>c. Itoa (unat (cd_PayloadType c))) cs"
    by (simp add: d_def audio_body_def audioDescription_def built_attributes_def cs Let_def)
  have d: "sn_Attributes d = []" "connection_address d m = v4_string w"
    using assms(4) m(4) by (simp_all add: d_def audio_body_def connection_address_def Let_def)
  have port: "0 < uint (ap_Port rtp)" "uint (ap_Port rtp) < 65536"
    using assms(6) uint_bounded [of "ap_Port rtp"] by (simp_all add: word_neq_0_conv word_less_def)
  have "AddrPortFrom (Addr4 w) (ap_Port rtp) = rtp" "AddrPortFrom (Addr4 w) (ap_Port rtcp) = rtcp"
    using AddrPortFrom_collapse [of rtp] AddrPortFrom_collapse [of rtcp] assms(4) ok(1) by simp_all
  then show ?thesis
    using port assms(5)
    by (simp add: ParseAudio_def unm m d ParseAddr_v4_string built_rtcp_port [OF assms(1) m(5) assms(7)]
        built_codecs [OF assms(1) m(5,6) known assms(8,9,10) ok(2)]
        built_direction [OF assms(1) m(5) d(1) known] Let_def flip: dir'_def)
qed


subsection \<open>Negotiation\<close>

definition common_codec :: "codec \<Rightarrow> codec \<Rightarrow> bool" where
  "common_codec answered offered \<longleftrightarrow>
     (cd_Name answered = ''PCMU'' \<or> cd_Name answered = ''PCMA'') \<and>
     cd_Name offered = cd_Name answered \<and> cd_ClockRate offered = cd_ClockRate answered"

definition no_common :: "sdp_endpoint \<Rightarrow> codec list \<Rightarrow> bool" where
  "no_common offer as \<longleftrightarrow>
     \<not> (\<exists>a x. a \<in> set as \<and> x \<in> set (ep_Codecs offer) \<and> common_codec a x)"

definition chosen :: "sdp_endpoint \<Rightarrow> sdp_endpoint \<Rightarrow> codec list \<Rightarrow> mapping \<Rightarrow> bool" where
  "chosen offer answer as m \<longleftrightarrow>
     (\<exists>pre a post x. as = pre @ a # post \<and> no_common offer pre \<and>
        x \<in> set (ep_Codecs offer) \<and> common_codec a x \<and> m = negotiated offer answer a x)"

lemma chosen_first:
  assumes "x \<in> set (ep_Codecs offer)" and "common_codec a x"
  shows "chosen offer answer (a # as) (negotiated offer answer a x)"
  unfolding chosen_def
  by (rule exI [of _ "[]"], rule exI [of _ a], rule exI [of _ as], rule exI [of _ x])
    (use assms in \<open>simp add: no_common_def\<close>)

lemma chosen_later:
  assumes "chosen offer answer as m" and "no_common offer [a]"
  shows "chosen offer answer (a # as) m"
proof -
  obtain pre b post x where *: "as = pre @ b # post" "no_common offer pre" "x \<in> set (ep_Codecs offer)"
    "common_codec b x" "m = negotiated offer answer b x"
    using assms(1) unfolding chosen_def by blast
  have "no_common offer (a # pre)" using *(2) assms(2) by (auto simp: no_common_def)
  with * show ?thesis unfolding chosen_def by (metis append_Cons)
qed

lemma negotiate_codecs_spec:
  "case negotiate_codecs offer answer as of
     Inl e \<Rightarrow> e = ErrNoCommonCodec \<and> no_common offer as
   | Inr m \<Rightarrow> chosen offer answer as m"
proof (induction as)
  case (Cons a as)
  let ?P = "\<lambda>x. cd_Name x = cd_Name a \<and> cd_ClockRate x = cd_ClockRate a"
  show ?case
  proof (cases "no_common offer [a]")
    case True
    then have "negotiate_codecs offer answer (a # as) = negotiate_codecs offer answer as"
      by (auto simp: no_common_def common_codec_def find_Some_iff split: option.splits)
    then show ?thesis using Cons True chosen_later
      by (auto simp: no_common_def split: sum.splits)
  next
    case False
    then have a: "\<not> (cd_Name a \<noteq> ''PCMU'' \<and> cd_Name a \<noteq> ''PCMA'')" "find ?P (ep_Codecs offer) \<noteq> None"
      by (auto simp: no_common_def common_codec_def find_None_iff)
    then obtain x where x: "find ?P (ep_Codecs offer) = Some x" by auto
    then have "x \<in> set (ep_Codecs offer)" "common_codec a x"
      using a(1) by (auto simp: find_Some_iff common_codec_def)
    then show ?thesis using a x chosen_first by auto
  qed
qed (simp add: no_common_def)

text \<open>C30: negotiation finds the answer's first G.711 codec that the offer has at the same clock rate,
  and maps it to the payload types of both legs; it reports \<open>ErrNoCommonCodec\<close> exactly when there is
  no such codec.\<close>

theorem negotiate_spec:
  "case Negotiate offer answer of
     Inl e \<Rightarrow> e = ErrNoCommonCodec \<and>
       \<not> (\<exists>a x. a \<in> set (ep_Codecs answer) \<and> x \<in> set (ep_Codecs offer) \<and> common_codec a x)
   | Inr m \<Rightarrow> \<exists>pre a post x. ep_Codecs answer = pre @ a # post \<and> x \<in> set (ep_Codecs offer) \<and> common_codec a x \<and>
       \<not> (\<exists>b y. b \<in> set pre \<and> y \<in> set (ep_Codecs offer) \<and> common_codec b y) \<and>
       mp_Name m = cd_Name a \<and> mp_ClockRate m = cd_ClockRate a \<and>
       mp_CallerPT m = cd_PayloadType x \<and> mp_CalleePT m = cd_PayloadType a \<and>
       mp_HasDTMF m = (findCodec (ep_Codecs offer) ''TELEPHONE-EVENT'' \<noteq> None \<and>
                       findCodec (ep_Codecs answer) ''TELEPHONE-EVENT'' \<noteq> None)"
proof (cases "Negotiate offer answer")
  case (Inl e)
  then show ?thesis using negotiate_codecs_spec [where as = "ep_Codecs answer" and offer = offer and answer = answer]
    by (auto simp: Negotiate_def no_common_def)
next
  case (Inr m)
  then have "chosen offer answer (ep_Codecs answer) m"
    using negotiate_codecs_spec [where as = "ep_Codecs answer" and offer = offer and answer = answer]
    by (simp add: Negotiate_def)
  then obtain pre a post x where *: "ep_Codecs answer = pre @ a # post" "x \<in> set (ep_Codecs offer)"
    "common_codec a x" "no_common offer pre" "m = negotiated offer answer a x"
    unfolding chosen_def by blast
  have "mp_Name m = cd_Name a \<and> mp_ClockRate m = cd_ClockRate a \<and>
      mp_CallerPT m = cd_PayloadType x \<and> mp_CalleePT m = cd_PayloadType a \<and>
      mp_HasDTMF m = (findCodec (ep_Codecs offer) ''TELEPHONE-EVENT'' \<noteq> None \<and>
                      findCodec (ep_Codecs answer) ''TELEPHONE-EVENT'' \<noteq> None)"
    unfolding *(5) by (auto simp: negotiated_def Let_def split: option.splits)
  with * show ?thesis unfolding Inr no_common_def sum.case by blast
qed

lemma ParseAudio_codecs:
  assumes "ParseAudio p body = Inr e"
  shows "list_all isSupported (ep_Codecs e)" and "hasAudioCodec (ep_Codecs e)"
  using assms
  by (auto simp: ParseAudio_def parseCodecs_def list_all_iff Let_def split: sum.splits option.splits if_splits)

text \<open>C32: the answer sent back to the caller stays within the caller's offer: for a parsed offer and
  any parsed answer of the callee that negotiates, every codec of \<open>CodecListForAnswer\<close> is one the
  caller offered, with the caller's own payload type, and a G.711 codec is among them.\<close>

theorem answer_within_offer:
  assumes "ParseAudio p offered = Inr offer" and "ParseAudio p answered = Inr answer"
    and "Negotiate offer answer = Inr m"
  shows "set (CodecListForAnswer m) \<subseteq> set (ep_Codecs offer) \<and> hasAudioCodec (CodecListForAnswer m)"
proof -
  obtain a x where x: "x \<in> set (ep_Codecs offer)" "common_codec a x" "m = negotiated offer answer a x"
    using negotiate_codecs_spec [where as = "ep_Codecs answer" and offer = offer and answer = answer] assms(3)
    by (auto simp: Negotiate_def chosen_def)
  have first: "\<lparr>cd_Name = mp_Name m, cd_PayloadType = mp_CallerPT m, cd_ClockRate = mp_ClockRate m\<rparr> = x"
    using x(2,3) by (auto simp: negotiated_def common_codec_def Let_def split: option.splits)
  have dtmf: "\<lparr>cd_Name = ''TELEPHONE-EVENT'', cd_PayloadType = mp_CallerDTMFPT m, cd_ClockRate = clockRateG711\<rparr>
      \<in> set (ep_Codecs offer)" if has: "mp_HasDTMF m"
  proof -
    obtain c where c: "findCodec (ep_Codecs offer) ''TELEPHONE-EVENT'' = Some c" "mp_CallerDTMFPT m = cd_PayloadType c"
      using has x(3) by (auto simp: negotiated_def Let_def split: option.splits)
    then have "c \<in> set (ep_Codecs offer)" "cd_Name c = ''TELEPHONE-EVENT''"
      by (auto simp: findCodec_def find_Some_iff)
    moreover have "cd_ClockRate c = clockRateG711"
      using ParseAudio_codecs(1) [OF assms(1)] calculation(1) by (auto simp: list_all_iff isSupported_def)
    ultimately have "\<lparr>cd_Name = ''TELEPHONE-EVENT'', cd_PayloadType = mp_CallerDTMFPT m, cd_ClockRate = clockRateG711\<rparr> = c"
      using c(2) by (intro codec.equality) simp_all
    then show ?thesis using \<open>c \<in> set (ep_Codecs offer)\<close> by simp
  qed
  have "hasAudioCodec (CodecListForAnswer m)"
    using x(2,3) by (auto simp: CodecListForAnswer_def hasAudioCodec_def negotiated_def common_codec_def Let_def
        split: option.splits)
  then show ?thesis using first x(1) dtmf by (auto simp: CodecListForAnswer_def)
qed

subsection \<open>A concrete leg\<close>

definition sample_codecs :: "codec list" where
  "sample_codecs =
     [\<lparr>cd_Name = ''PCMA'', cd_PayloadType = 8, cd_ClockRate = 8000\<rparr>,
      \<lparr>cd_Name = ''TELEPHONE-EVENT'', cd_PayloadType = 101, cd_ClockRate = 8000\<rparr>]"

definition sample_rtp :: addr_port where "sample_rtp = AddrPortFrom (Addr4 3232235777) 20000"
definition sample_rtcp :: addr_port where "sample_rtcp = AddrPortFrom (Addr4 3232235777) 20001"

definition sample_lookup :: "sdp_attribute list \<Rightarrow> string \<Rightarrow> string option" where
  "sample_lookup as k = map_option at_Value (find (\<lambda>a. at_Key a = k) as)"

text \<open>A parser and printer that know one description.\<close>

definition pion_for :: "session_description \<Rightarrow> pion" where
  "pion_for d =
     \<lparr>pion_Unmarshal = (\<lambda>body. if body = ''v=0'' then Inr d else Inl (Errorf ''syntax'')),
      pion_Marshal = (\<lambda>d'. if d' = d then Inr ''v=0'' else Inl (Errorf ''unprintable'')),
      pion_Attribute = sample_lookup,
      pion_NewAttribute = (\<lambda>k v. \<lparr>at_Key = k, at_Value = v\<rparr>),
      pion_NewPropertyAttribute = (\<lambda>k. \<lparr>at_Key = k, at_Value = ''''\<rparr>)\<rparr>"

lemma pion_for_attributes: "pion_attributes (pion_for d)"
  by (simp add: pion_attributes_def pion_for_def sample_lookup_def)

lemma pion_for_round_trip: "pion_round_trip (pion_for d)"
  by (simp add: pion_round_trip_def pion_for_def)

lemma pion_for_body:
  "audio_body (pion_for d) now rtp rtcp cs dir = audio_body (pion_for d') now rtp rtcp cs dir"
proof -
  have "codec_attributes (pion_for d) = codec_attributes (pion_for d')"
    by (rule ext) (simp add: codec_attributes_def pion_for_def)
  then show ?thesis by (simp add: audio_body_def pion_attributesD [OF pion_for_attributes])
qed

definition sample_session :: session_description where
  "sample_session = audio_body (pion_for undefined) unix_epoch sample_rtp sample_rtcp sample_codecs DirectionSendOnly"

definition sample_pion :: pion where "sample_pion = pion_for sample_session"

lemma sample_body_same:
  "audio_body sample_pion unix_epoch sample_rtp sample_rtcp sample_codecs DirectionSendOnly = sample_session"
  unfolding sample_session_def sample_pion_def by (rule pion_for_body)

lemma sample_Build:
  "BuildAudio sample_pion unix_epoch sample_rtp sample_rtcp sample_codecs DirectionSendOnly = Inr ''v=0''"
proof -
  have "DirectionSendOnly \<noteq> ''''" by (simp add: DirectionSendOnly_def)
  then have "BuildAudio sample_pion unix_epoch sample_rtp sample_rtcp sample_codecs DirectionSendOnly =
      (case pion_Marshal sample_pion sample_session of
         Inl e \<Rightarrow> Inl (Wrapf ''marshal SDP: %w'' e) | Inr body \<Rightarrow> Inr body)"
    by (simp add: BuildAudio_def ap_IsValid_def sample_rtp_def sample_rtcp_def hasAudioCodec_def sample_codecs_def
        sample_body_same [unfolded sample_rtp_def sample_rtcp_def sample_codecs_def])
  then show ?thesis by (simp add: sample_pion_def pion_for_def)
qed


definition sample_offer :: sdp_endpoint where
  "sample_offer =
     \<lparr>ep_RTP = sample_rtp, ep_RTCP = sample_rtcp, ep_Direction = DirectionSendRecv,
      ep_Codecs = \<lparr>cd_Name = ''PCMU'', cd_PayloadType = 0, cd_ClockRate = 8000\<rparr> # sample_codecs\<rparr>"

definition sample_answer :: sdp_endpoint where
  "sample_answer = sample_offer\<lparr>ep_Codecs := sample_codecs\<rparr>"

theorem negotiate_spec_witness:
  "\<exists>m. Negotiate sample_offer sample_answer = Inr m \<and> mp_Name m = ''PCMA'' \<and> mp_HasDTMF m"
proof -
  obtain m where m: "Negotiate sample_offer sample_answer = Inr m" "mp_Name m = ''PCMA''"
    by (simp add: Negotiate_def sample_offer_def sample_answer_def sample_codecs_def negotiated_def findCodec_def)
  have dtmf: "findCodec (ep_Codecs sample_offer) ''TELEPHONE-EVENT'' \<noteq> None"
    "findCodec (ep_Codecs sample_answer) ''TELEPHONE-EVENT'' \<noteq> None"
    by (simp_all add: findCodec_def sample_offer_def sample_answer_def sample_codecs_def)
  have "mp_HasDTMF m"
    using negotiate_spec [where offer = sample_offer and answer = sample_answer] dtmf
    unfolding m(1) sum.case by blast
  with m show ?thesis by blast
qed

theorem answer_within_offer_witness:
  "\<exists>e m. ParseAudio sample_pion ''v=0'' = Inr e \<and> Negotiate e e = Inr m \<and>
     set (CodecListForAnswer m) \<subseteq> set (ep_Codecs e) \<and> hasAudioCodec (CodecListForAnswer m)"
proof -
  obtain e where e: "ParseAudio sample_pion ''v=0'' = Inr e" "ep_Codecs e = sample_codecs"
    by (rule that [OF built_parse [OF pion_for_attributes [of sample_session, folded sample_pion_def]
          pion_for_round_trip [of sample_session, folded sample_pion_def] sample_Build, of 3232235777]])
      (simp_all add: sample_rtp_def sample_rtcp_def sample_codecs_def isSupported_def clockRateG711_def
        known_direction_def direction_defs)
  moreover obtain m where m: "Negotiate e e = Inr m"
    using e(2) by (simp add: Negotiate_def sample_codecs_def)
  ultimately show ?thesis using answer_within_offer [OF e(1) e(1) m] by blast
qed

end
