(* ===== verification/Media_Session.thy ===== *)
theory Media_Session
  imports Port_Pool Rtp Sdp Dtmf "HOL-Library.Sublist"
begin

text \<open>
  \<open>internal/media/session\<close>: one anchored call's media. A session leases a port pair for each leg,
  relays RTP packets between the legs through a rewriter per direction, exchanges RTCP reports with
  each leg and publishes quality summaries.

  The five workers of \<open>Run\<close> share the endpoints through atomics. One turn of a worker's loop, from
  the read that returns to the next one, is one step of the model; what the socket, the context and
  the clock did in that turn is the argument of the step. The packet formats of \<open>pion/rtp\<close> and
  \<open>pion/rtcp\<close> are parameters (\<open>rtp_pkg\<close>, \<open>rtcp_pkg\<close>), as is the \<open>errgroup\<close> that joins the workers.
\<close>

subsection \<open>Data\<close>

definition maxDatagramSize :: nat where "maxDatagramSize = 1600"
definition CallerLeg :: string where "CallerLeg = ''caller''"
definition CalleeLeg :: string where "CalleeLeg = ''callee''"

record metadata =
  mt_TenantID :: string
  mt_CallID :: string
  mt_NodeID :: string
  mt_CallerID :: string
  mt_CalleeID :: string

definition NewMetadata :: "string \<Rightarrow> string \<Rightarrow> string \<Rightarrow> string \<Rightarrow> string \<Rightarrow> metadata" where
  "NewMetadata tenantID callID nodeID callerID calleeID =
     \<lparr>mt_TenantID = tenantID, mt_CallID = callID, mt_NodeID = nodeID, mt_CallerID = callerID, mt_CalleeID = calleeID\<rparr>"

record media_config =
  mc_AdvertisedIP :: netip_addr
  mc_ReadPollInterval :: duration
  mc_InactivityTimeout :: duration
  mc_RTCPInterval :: duration
  mc_SummaryInterval :: duration
  mc_SummaryTimeout :: duration

record remote_config =
  rm_rtp :: addr_port
  rm_rtcp :: addr_port
  rm_audioPT :: "8 word"
  rm_dtmfPT :: "8 word"
  rm_hasDTMF :: bool
  rm_direction :: string

text \<open>An endpoint refers to its lease by the position of the lease in the pool.\<close>

record endpoint =
  pt_leg :: string
  pt_lease :: nat
  pt_remote :: "remote_config option"
  pt_learnedRTPPort :: "32 word"
  pt_learnedRTCPPort :: "32 word"
  pt_tracker :: tracker
  pt_invalidPackets :: "64 word"
  pt_dtmfEvents :: "64 word"
  pt_timedOut :: bool
  pt_remoteFractionLost :: "32 word"
  pt_remoteTotalLost :: "32 word"
  pt_remoteJitter :: "32 word"
  pt_rttNanos :: int
  pt_lastRemoteSR :: "32 word"
  pt_lastRemoteSRNanos :: int
  pt_lastSentSR :: "32 word"

record media_session =
  ms_id :: string
  ms_metadata :: metadata
  ms_cfg :: media_config
  ms_caller :: endpoint
  ms_callee :: endpoint
  ms_callerToCallee :: rewriter
  ms_calleeToCaller :: rewriter
  ms_mapping :: "mapping option"
  ms_startedAt :: int
  ms_summaryDrops :: "64 word"
  ms_ran :: bool
  ms_closed :: bool
  ms_runErr :: "go_error option"

subsection \<open>Endpoints\<close>

definition newEndpoint :: "string \<Rightarrow> nat \<Rightarrow> endpoint" where
  "newEndpoint leg lease =
     \<lparr>pt_leg = leg, pt_lease = lease, pt_remote = None, pt_learnedRTPPort = 0, pt_learnedRTCPPort = 0,
      pt_tracker = NewTracker 8000, pt_invalidPackets = 0, pt_dtmfEvents = 0, pt_timedOut = False,
      pt_remoteFractionLost = 0, pt_remoteTotalLost = 0, pt_remoteJitter = 0, pt_rttNanos = 0,
      pt_lastRemoteSR = 0, pt_lastRemoteSRNanos = 0, pt_lastSentSR = 0\<rparr>"

definition endpoint_configure :: "sdp_endpoint \<Rightarrow> 8 word \<Rightarrow> 8 word \<Rightarrow> bool \<Rightarrow> endpoint \<Rightarrow> endpoint" where
  "endpoint_configure remote audioPT dtmfPT hasDTMF e =
     (let moved = (case pt_remote e of
                     None \<Rightarrow> True
                   | Some current \<Rightarrow> rm_rtp current \<noteq> ep_RTP remote \<or> rm_rtcp current \<noteq> ep_RTCP remote);
          e1 = (if moved then e\<lparr>pt_learnedRTPPort := 0, pt_learnedRTCPPort := 0\<rparr> else e)
      in e1\<lparr>pt_remote := Some \<lparr>rm_rtp = ep_RTP remote, rm_rtcp = ep_RTCP remote, rm_audioPT = audioPT,
              rm_dtmfPT = dtmfPT, rm_hasDTMF = hasDTMF, rm_direction = ep_Direction remote\<rparr>\<rparr>)"

definition acceptsRTP :: "addr_port \<Rightarrow> endpoint \<Rightarrow> endpoint \<times> bool" where
  "acceptsRTP source e =
     (case pt_remote e of
        None \<Rightarrow> (e, False)
      | Some remote \<Rightarrow>
          if ap_Addr source \<noteq> ap_Addr (rm_rtp remote) then (e, False)
          else
            let e1 = (if pt_learnedRTPPort e = 0 then e\<lparr>pt_learnedRTPPort := ucast (ap_Port source)\<rparr> else e)
            in (e1, pt_learnedRTPPort e1 = ucast (ap_Port source)))"

definition acceptsRTCP :: "addr_port \<Rightarrow> endpoint \<Rightarrow> endpoint \<times> bool" where
  "acceptsRTCP source e =
     (case pt_remote e of
        None \<Rightarrow> (e, False)
      | Some remote \<Rightarrow>
          if ap_Addr source \<noteq> ap_Addr (rm_rtcp remote) then (e, False)
          else
            let e1 = (if pt_learnedRTCPPort e = 0 then e\<lparr>pt_learnedRTCPPort := ucast (ap_Port source)\<rparr> else e)
            in (e1, pt_learnedRTCPPort e1 = ucast (ap_Port source)))"

definition rtpTarget :: "endpoint \<Rightarrow> addr_port option" where
  "rtpTarget e =
     (case pt_remote e of
        None \<Rightarrow> None
      | Some remote \<Rightarrow>
          if pt_learnedRTPPort e = 0 then Some (rm_rtp remote)
          else Some (AddrPortFrom (ap_Addr (rm_rtp remote)) (ucast (pt_learnedRTPPort e))))"

definition rtcpTarget :: "endpoint \<Rightarrow> addr_port option" where
  "rtcpTarget e =
     (case pt_remote e of
        None \<Rightarrow> None
      | Some remote \<Rightarrow>
          if pt_learnedRTCPPort e = 0 then Some (rm_rtcp remote)
          else Some (AddrPortFrom (ap_Addr (rm_rtcp remote)) (ucast (pt_learnedRTCPPort e))))"

definition canSend :: "endpoint \<Rightarrow> bool" where
  "canSend e =
     (case pt_remote e of
        None \<Rightarrow> False
      | Some remote \<Rightarrow> rm_direction remote = DirectionSendRecv \<or> rm_direction remote = DirectionSendOnly)"

definition canReceive :: "endpoint \<Rightarrow> bool" where
  "canReceive e =
     (case pt_remote e of
        None \<Rightarrow> False
      | Some remote \<Rightarrow> rm_direction remote = DirectionSendRecv \<or> rm_direction remote = DirectionRecvOnly)"

subsection \<open>The factory\<close>

text \<open>The factory is its configuration and the pool; \<open>'p\<close> stands for the publisher.\<close>

definition NewFactory :: "media_config \<Rightarrow> 'q option \<Rightarrow> 'p option \<Rightarrow> (media_config \<times> 'q \<times> 'p) result" where
  "NewFactory cfg pool publisher =
     (if \<not> addr_IsValid (mc_AdvertisedIP cfg) \<or> addr_IsUnspecified (mc_AdvertisedIP cfg)
      then Inl (Errorf ''media advertised IP must be a specified address'')
      else if mc_ReadPollInterval cfg \<le> 0 \<or> mc_InactivityTimeout cfg \<le> mc_ReadPollInterval cfg
      then Inl (Errorf ''media inactivity timeout must exceed the read poll interval'')
      else if mc_RTCPInterval cfg \<le> 0 \<or> mc_SummaryInterval cfg \<le> 0 \<or> mc_SummaryTimeout cfg \<le> 0
      then Inl (Errorf ''media RTCP and summary intervals must be positive'')
      else case (pool, publisher) of
             (Some q, Some p) \<Rightarrow> Inr (cfg, q, p)
           | _ \<Rightarrow> Inl (Errorf ''media port pool and summary publisher are required''))"

definition new_session :: "string \<Rightarrow> metadata \<Rightarrow> media_config \<Rightarrow> nat \<Rightarrow> nat \<Rightarrow> rewriter \<Rightarrow> rewriter \<Rightarrow> media_session" where
  "new_session ident meta cfg callerLease calleeLease callerToCallee calleeToCaller =
     \<lparr>ms_id = ident, ms_metadata = meta, ms_cfg = cfg,
      ms_caller = newEndpoint CallerLeg callerLease, ms_callee = newEndpoint CalleeLeg calleeLease,
      ms_callerToCallee = callerToCallee, ms_calleeToCaller = calleeToCaller, ms_mapping = None,
      ms_startedAt = 0, ms_summaryDrops = 0, ms_ran = False, ms_closed = False, ms_runErr = None\<rparr>"

text \<open>The releases on the error paths of \<open>New\<close>, whose own errors are discarded.\<close>

fun release_leases :: "('o, 'c) udp \<Rightarrow> nat list \<Rightarrow> 'c pool \<Rightarrow> 'o \<Rightarrow> ('c pool \<times> 'o) option" where
  "release_leases u [] p os = Some (p, os)"
| "release_leases u (h # hs) p os =
     (case lease_Release u (Some h) p os of
        None \<Rightarrow> None
      | Some (p', os', _) \<Rightarrow> release_leases u hs p' os')"

text \<open>
  \<open>New\<close>: \<open>cs\<close> and \<open>cs'\<close> are the contexts of the two acquisitions, \<open>rand1\<close>, \<open>rand2\<close> and \<open>uuid\<close> what
  \<open>crypto/rand\<close> and \<open>uuid.NewV7\<close> return. \<open>None\<close> would be a release that blocks.
\<close>

definition factory_New ::
  "('o, 'c) udp \<Rightarrow> media_config \<Rightarrow> (nat \<Rightarrow> ctx) \<Rightarrow> (nat \<Rightarrow> ctx) \<Rightarrow> 8 word list result \<Rightarrow> 8 word list result
     \<Rightarrow> string result \<Rightarrow> metadata \<Rightarrow> 'c pool \<Rightarrow> 'o \<Rightarrow> ('c pool \<times> 'o \<times> media_session result) option" where
  "factory_New u cfg cs cs' rand1 rand2 uuid meta p os =
     (case acquire_pool u cs p os of
        None \<Rightarrow> None
      | Some (p1, os1, Inl e) \<Rightarrow> Some (p1, os1, Inl (Wrapf ''lease caller media ports: %w'' e))
      | Some (p1, os1, Inr callerLease) \<Rightarrow>
          (case acquire_pool u cs' p1 os1 of
             None \<Rightarrow> None
           | Some (p2, os2, Inl e) \<Rightarrow>
               map_option (\<lambda>(p3, os3). (p3, os3, Inl (Wrapf ''lease callee media ports: %w'' e)))
                 (release_leases u [callerLease] p2 os2)
           | Some (p2, os2, Inr calleeLease) \<Rightarrow>
               (let abort = (\<lambda>e. map_option (\<lambda>(p3, os3). (p3, os3, Inl e))
                              (release_leases u [callerLease, calleeLease] p2 os2))
                in case NewRewriter rand1 of
                     Inl e \<Rightarrow> abort e
                   | Inr callerToCallee \<Rightarrow>
                       (case NewRewriter rand2 of
                          Inl e \<Rightarrow> abort e
                        | Inr calleeToCaller \<Rightarrow>
                            (case uuid of
                               Inl e \<Rightarrow> abort (Wrapf ''generate media session ID: %w'' e)
                             | Inr ident \<Rightarrow>
                                 Some (p2, os2, Inr (new_session ident meta cfg callerLease calleeLease
                                                       callerToCallee calleeToCaller)))))))"

subsection \<open>The session\<close>

definition session_endpoint :: "media_session \<Rightarrow> string \<Rightarrow> endpoint result" where
  "session_endpoint s leg =
     (if leg = CallerLeg then Inr (ms_caller s)
      else if leg = CalleeLeg then Inr (ms_callee s)
      else Inl (Errorf ''unknown media leg %q''))"

definition LocalEndpoint :: "'c pool \<Rightarrow> media_session \<Rightarrow> string \<Rightarrow> (addr_port \<times> addr_port) result" where
  "LocalEndpoint p s leg =
     (case session_endpoint s leg of
        Inl e \<Rightarrow> Inl e
      | Inr e \<Rightarrow>
          let l = pool_leases p ! pt_lease e
          in Inr (AddrPortFrom (mc_AdvertisedIP (ms_cfg s)) (lease_RTPPort l),
                  AddrPortFrom (mc_AdvertisedIP (ms_cfg s)) (lease_RTCPPort l)))"

definition Configure ::
  "sdp_endpoint \<Rightarrow> sdp_endpoint \<Rightarrow> mapping \<Rightarrow> media_session \<Rightarrow> media_session \<times> go_error option" where
  "Configure caller callee m s =
     (if mp_Name m = '''' \<or> mp_ClockRate m = 0 then (s, Some (Errorf ''media payload mapping is required''))
      else (s\<lparr>ms_caller := endpoint_configure caller (mp_CallerPT m) (mp_CallerDTMFPT m) (mp_HasDTMF m) (ms_caller s),
              ms_callee := endpoint_configure callee (mp_CalleePT m) (mp_CalleeDTMFPT m) (mp_HasDTMF m) (ms_callee s),
              ms_mapping := Some m\<rparr>, None))"

definition session_Close ::
  "('o, 'c) udp \<Rightarrow> media_session \<Rightarrow> 'c pool \<Rightarrow> 'o \<Rightarrow> (media_session \<times> 'c pool \<times> 'o \<times> go_error option) option" where
  "session_Close u s p os =
     (if ms_closed s then Some (s, p, os, None)
      else case lease_Release u (Some (pt_lease (ms_caller s))) p os of
             None \<Rightarrow> None
           | Some (p1, os1, e1) \<Rightarrow>
               (case lease_Release u (Some (pt_lease (ms_callee s))) p1 os1 of
                  None \<Rightarrow> None
                | Some (p2, os2, e2) \<Rightarrow> Some (s\<lparr>ms_closed := True\<rparr>, p2, os2, errors_Join [e1, e2])))"

definition session_start :: "time \<Rightarrow> media_session \<Rightarrow> media_session \<times> go_error option" where
  "session_start now s =
     (if ms_mapping s = None \<or> pt_remote (ms_caller s) = None \<or> pt_remote (ms_callee s) = None
      then (s, Some (Errorf ''media session must be configured before Run''))
      else (s\<lparr>ms_startedAt := UnixNano now\<rparr>, None))"

text \<open>The end of \<open>run\<close>, after the workers returned; \<open>err\<close> is what \<open>group.Wait\<close> returns.\<close>

definition session_finish ::
  "('o, 'c) udp \<Rightarrow> go_error option \<Rightarrow> media_session \<Rightarrow> 'c pool \<Rightarrow> 'o
     \<Rightarrow> (media_session \<times> 'c pool \<times> 'o \<times> go_error option) option" where
  "session_finish u err s p os =
     (case session_Close u s p os of
        None \<Rightarrow> None
      | Some (s', p', os', closeErr) \<Rightarrow>
          let err' = (if error_is err context_Canceled \<or> error_is err net_ErrClosed then None else err)
          in Some (s', p', os', errors_Join [err', closeErr]))"

text \<open>
  \<open>Run\<close>; \<open>workers\<close> is what the five workers do to the session until the last one returns, and the
  error of the group.
\<close>

definition session_Run ::
  "('o, 'c) udp \<Rightarrow> time \<Rightarrow> (media_session \<Rightarrow> 'c pool \<Rightarrow> 'o \<Rightarrow> media_session \<times> 'c pool \<times> 'o \<times> go_error option)
     \<Rightarrow> media_session \<Rightarrow> 'c pool \<Rightarrow> 'o \<Rightarrow> (media_session \<times> 'c pool \<times> 'o \<times> go_error option) option" where
  "session_Run u now workers s p os =
     (if ms_ran s then Some (s, p, os, ms_runErr s)
      else case session_start now s of
             (s1, Some e) \<Rightarrow> Some (s1\<lparr>ms_ran := True, ms_runErr := Some e\<rparr>, p, os, Some e)
           | (s1, None) \<Rightarrow>
               (case workers s1 p os of
                  (s2, p2, os2, err) \<Rightarrow>
                    map_option (\<lambda>(s3, p3, os3, r). (s3\<lparr>ms_ran := True, ms_runErr := r\<rparr>, p3, os3, r))
                      (session_finish u err s2 p2 os2)))"

subsection \<open>Relaying RTP\<close>

text \<open>\<open>packet.Unmarshal\<close> gives the version and the packet; \<open>MarshalTo\<close> writes into a buffer of a size.\<close>

record 'h rtp_pkg =
  rtp_Unmarshal :: "8 word list \<Rightarrow> (8 word \<times> 'h packet) result"
  rtp_MarshalTo :: "nat \<Rightarrow> 'h packet \<Rightarrow> 8 word list result"

definition payloadMapping :: "8 word \<Rightarrow> remote_config \<Rightarrow> remote_config \<Rightarrow> 8 word option" where
  "payloadMapping input source destination =
     (if input = rm_audioPT source then Some (rm_audioPT destination)
      else if rm_hasDTMF source \<and> rm_hasDTMF destination \<and> input = rm_dtmfPT source
      then Some (rm_dtmfPT destination)
      else None)"

definition updateTimeout :: "media_config \<Rightarrow> int \<Rightarrow> time \<Rightarrow> endpoint \<Rightarrow> endpoint" where
  "updateTimeout cfg startedAt now e =
     (let st = tracker_Snapshot (pt_tracker e);
          reference = (if s_LastPacketAt st \<noteq> 0 then s_LastPacketAt st else unix_epoch + startedAt)
      in e\<lparr>pt_timedOut := (reference \<noteq> 0 \<and> mc_InactivityTimeout cfg \<le> now - reference)\<rparr>)"

definition invalid_packet :: "endpoint \<Rightarrow> endpoint" where
  "invalid_packet e = e\<lparr>pt_invalidPackets := pt_invalidPackets e + 1\<rparr>"

text \<open>
  One received datagram, from the source filter to the rewritten packet: the new source endpoint and
  rewriter, and the packet the rewriter produced, if any.
\<close>

definition relay_packet ::
  "'h rtp_pkg \<Rightarrow> time \<Rightarrow> 8 word list \<Rightarrow> addr_port \<Rightarrow> endpoint \<Rightarrow> endpoint \<Rightarrow> rewriter
     \<Rightarrow> endpoint \<times> rewriter \<times> 'h packet option" where
  "relay_packet pkg now datagram sourceAddress source destination rw =
     (case acceptsRTP sourceAddress source of
        (src, False) \<Rightarrow> (invalid_packet src, rw, None)
      | (src, True) \<Rightarrow>
          (case rtp_Unmarshal pkg datagram of
             Inl _ \<Rightarrow> (invalid_packet src, rw, None)
           | Inr (version, packet) \<Rightarrow>
               if version \<noteq> 2 \<or> pk_Payload packet = [] then (invalid_packet src, rw, None)
               else case (pt_remote src, pt_remote destination) of
                 (Some remote, Some destinationRemote) \<Rightarrow>
                   (case payloadMapping (pk_PayloadType packet) remote destinationRemote of
                      None \<Rightarrow> (invalid_packet src, rw, None)
                    | Some outputPayloadType \<Rightarrow>
                        let (tr, cls) = Observe packet now (int (length datagram)) (pt_tracker src);
                            src1 = src\<lparr>pt_tracker := tr\<rparr>
                        in if cls = PacketDuplicate \<or> \<not> canSend src1 \<or> \<not> canReceive destination
                           then (src1, rw, None)
                           else if rm_hasDTMF remote \<and> pk_PayloadType packet = rm_dtmfPT remote then
                             (case Decode (pk_Payload packet) of
                                Inl _ \<Rightarrow> (invalid_packet src1, rw, None)
                              | Inr event \<Rightarrow>
                                  let src2 = (if dtmf_End event
                                              then src1\<lparr>pt_dtmfEvents := pt_dtmfEvents src1 + 1\<rparr> else src1);
                                      (rw', output) = Rewrite packet outputPayloadType rw
                                  in (src2, rw', Some output))
                           else let (rw', output) = Rewrite packet outputPayloadType rw
                                in (src1, rw', Some output))
               | _ \<Rightarrow> (src, rw, None)))"

text \<open>Printing and addressing the packet: the datagram to write, if any.\<close>

definition relay_output ::
  "'h rtp_pkg \<Rightarrow> endpoint \<Rightarrow> endpoint \<Rightarrow> 'h packet option \<Rightarrow> endpoint \<times> (8 word list \<times> addr_port) option" where
  "relay_output pkg destination src output =
     (case output of
        None \<Rightarrow> (src, None)
      | Some packet \<Rightarrow>
          (case rtp_MarshalTo pkg maxDatagramSize packet of
             Inl _ \<Rightarrow> (invalid_packet src, None)
           | Inr wire \<Rightarrow> (src, map_option (\<lambda>target. (wire, target)) (rtpTarget destination))))"

text \<open>
  What one turn of the loop meets: an error of \<open>SetReadDeadline\<close>, an error of the read (with whether
  it is a time-out), or a datagram, and then the result of writing; with the error of the context
  after the failing call and the clock.
\<close>

datatype rtp_turn =
    DeadlineError go_error
  | ReadError go_error bool "go_error option" time
  | Datagram "8 word list" addr_port time "go_error option" "go_error option"

type_synonym relay = "endpoint \<times> rewriter \<times> (8 word list \<times> addr_port) list"

text \<open>\<open>Inl\<close> is the return of the worker with its error, \<open>Inr\<close> the next turn.\<close>

fun forward_turn ::
  "'h rtp_pkg \<Rightarrow> media_config \<Rightarrow> int \<Rightarrow> endpoint \<Rightarrow> rtp_turn \<Rightarrow> relay \<Rightarrow> (relay \<times> go_error option) + relay" where
  "forward_turn pkg cfg startedAt destination (DeadlineError err) st =
     Inl (st, Some (Wrapf ''set RTP read deadline: %w'' err))"
| "forward_turn pkg cfg startedAt destination (ReadError err timeout ctxErr now) (source, rw, sent) =
     (if ctxErr \<noteq> None \<or> errors_Is err net_ErrClosed then Inl ((source, rw, sent), None)
      else if timeout then Inr (updateTimeout cfg startedAt now source, rw, sent)
      else Inl ((source, rw, sent), Some (Wrapf ''read %s RTP: %w'' err)))"
| "forward_turn pkg cfg startedAt destination (Datagram datagram sourceAddress now writeErr ctxErr) (source, rw, sent) =
     (let (src, rw', output) = relay_packet pkg now datagram sourceAddress source destination rw;
          (src', out) = relay_output pkg destination src output
      in case out of
           None \<Rightarrow> Inr (src', rw', sent)
         | Some w \<Rightarrow>
             (case writeErr of
                None \<Rightarrow> Inr (src', rw', sent @ [w])
              | Some err \<Rightarrow>
                  if ctxErr \<noteq> None \<or> errors_Is err net_ErrClosed then Inl ((src', rw', sent), None)
                  else Inl ((src', rw', sent), Some (Wrapf ''write %s RTP: %w'' err))))"

text \<open>
  The worker over what happens while it runs: its own turns, each with the destination endpoint as
  the other workers have left it, and calls of \<open>Configure\<close> for its source in between. \<open>Inr\<close> when it
  is still running after the last of them.
\<close>

datatype relay_event =
    Turn endpoint rtp_turn
  | Reconfigure sdp_endpoint "8 word" "8 word" bool

fun forward_loop ::
  "'h rtp_pkg \<Rightarrow> media_config \<Rightarrow> int \<Rightarrow> relay_event list \<Rightarrow> relay \<Rightarrow> (relay \<times> go_error option) + relay" where
  "forward_loop pkg cfg startedAt [] st = Inr st"
| "forward_loop pkg cfg startedAt (Turn destination t # ts) st =
     (case forward_turn pkg cfg startedAt destination t st of
        Inl r \<Rightarrow> Inl r
      | Inr st' \<Rightarrow> forward_loop pkg cfg startedAt ts st')"
| "forward_loop pkg cfg startedAt (Reconfigure remote audioPT dtmfPT hasDTMF # ts) (source, rw, sent) =
     forward_loop pkg cfg startedAt ts (endpoint_configure remote audioPT dtmfPT hasDTMF source, rw, sent)"

definition forwardRTP ::
  "'h rtp_pkg \<Rightarrow> media_config \<Rightarrow> int \<Rightarrow> 'c pool \<Rightarrow> endpoint \<Rightarrow> relay_event list \<Rightarrow> relay
     \<Rightarrow> (relay \<times> go_error option) + relay" where
  "forwardRTP pkg cfg startedAt p destination ts st =
     (case lease_RTPConn (Some (pool_leases p ! pt_lease (fst st))) of
        Inl e \<Rightarrow> Inl (st, Some e)
      | Inr _ \<Rightarrow>
          (case lease_RTPConn (Some (pool_leases p ! pt_lease destination)) of
             Inl e \<Rightarrow> Inl (st, Some e)
           | Inr _ \<Rightarrow> forward_loop pkg cfg startedAt ts st))"

subsection \<open>RTCP\<close>

unbundle bit_operations_syntax

definition ntpEpochOffset :: int where "ntpEpochOffset = 2208988800"

definition ntpTimestamp :: "time \<Rightarrow> 64 word" where
  "ntpTimestamp t =
     (let seconds = word_of_int (t div Second - 62135596800 + ntpEpochOffset) :: 64 word;
          fraction = word_of_int (t mod Second * 2 ^ 32 div Second) :: 64 word
      in push_bit 32 seconds OR fraction)"

definition compactNTP :: "64 word \<Rightarrow> 32 word" where
  "compactNTP v = ucast (drop_bit 16 v)"

record reception_report =
  rr_SSRC :: "32 word"
  rr_FractionLost :: "8 word"
  rr_TotalLost :: "32 word"
  rr_LastSequenceNumber :: "32 word"
  rr_Jitter :: "32 word"
  rr_LastSenderReport :: "32 word"
  rr_Delay :: "32 word"

record sender_report =
  sr_SSRC :: "32 word"
  sr_NTPTime :: "64 word"
  sr_RTPTime :: "32 word"
  sr_PacketCount :: "32 word"
  sr_OctetCount :: "32 word"
  sr_Reports :: "reception_report list"

datatype rtcp_packet =
    SenderReport sender_report
  | ReceiverReport "32 word" "reception_report list"
  | OtherRTCP

record rtcp_pkg =
  rtcp_Unmarshal :: "8 word list \<Rightarrow> rtcp_packet list result"
  rtcp_Marshal :: "rtcp_packet \<Rightarrow> 8 word list result"

text \<open>The report about the stream this leg is sent; the round-trip time in nanoseconds.\<close>

definition apply_report :: "reception_report \<Rightarrow> time \<Rightarrow> endpoint \<Rightarrow> endpoint" where
  "apply_report report receivedAt e =
     (let e1 = e\<lparr>pt_remoteFractionLost := ucast (rr_FractionLost report),
                 pt_remoteTotalLost := rr_TotalLost report, pt_remoteJitter := rr_Jitter report\<rparr>
      in if rr_LastSenderReport report \<noteq> 0 \<and> rr_LastSenderReport report = pt_lastSentSR e1 then
           (let arrival = compactNTP (ntpTimestamp receivedAt)
            in if rr_LastSenderReport report + rr_Delay report < arrival
               then e1\<lparr>pt_rttNanos :=
                      uint (arrival - rr_LastSenderReport report - rr_Delay report) * Second div 65536\<rparr>
               else e1)
         else e1)"

definition updateRemoteReport :: "reception_report list \<Rightarrow> 32 word \<Rightarrow> time \<Rightarrow> endpoint \<Rightarrow> endpoint" where
  "updateRemoteReport reports senderSSRC receivedAt e =
     (case find (\<lambda>report. rr_SSRC report = senderSSRC) reports of
        None \<Rightarrow> e
      | Some report \<Rightarrow> apply_report report receivedAt e)"

fun receive_report :: "32 word \<Rightarrow> time \<Rightarrow> rtcp_packet \<Rightarrow> endpoint \<Rightarrow> endpoint" where
  "receive_report senderSSRC now (SenderReport report) e =
     updateRemoteReport (sr_Reports report) senderSSRC now
       (e\<lparr>pt_lastRemoteSR := compactNTP (sr_NTPTime report), pt_lastRemoteSRNanos := UnixNano now\<rparr>)"
| "receive_report senderSSRC now (ReceiverReport _ reports) e = updateRemoteReport reports senderSSRC now e"
| "receive_report senderSSRC now OtherRTCP e = e"

text \<open>One turn of \<open>readRTCP\<close>; the writing part of a turn of RTP has no counterpart here.\<close>

fun rtcp_turn :: "rtcp_pkg \<Rightarrow> rewriter \<Rightarrow> rtp_turn \<Rightarrow> endpoint \<Rightarrow> (endpoint \<times> go_error option) + endpoint" where
  "rtcp_turn pkg outbound (DeadlineError err) source = Inl (source, Some (Wrapf ''set RTCP read deadline: %w'' err))"
| "rtcp_turn pkg outbound (ReadError err timeout ctxErr now) source =
     (if ctxErr \<noteq> None \<or> errors_Is err net_ErrClosed then Inl (source, None)
      else if timeout then Inr source
      else Inl (source, Some (Wrapf ''read %s RTCP: %w'' err)))"
| "rtcp_turn pkg outbound (Datagram datagram sourceAddress now _ _) source =
     (case acceptsRTCP sourceAddress source of
        (src, False) \<Rightarrow> Inr (invalid_packet src)
      | (src, True) \<Rightarrow>
          (case rtcp_Unmarshal pkg datagram of
             Inl _ \<Rightarrow> Inr (invalid_packet src)
           | Inr packets \<Rightarrow>
               Inr (fold (receive_report (ss_SSRC (rewriter_Snapshot outbound)) now) packets src)))"

text \<open>The worker; each turn finds the rewriter as it is by then.\<close>

fun readRTCP :: "rtcp_pkg \<Rightarrow> (rewriter \<times> rtp_turn) list \<Rightarrow> endpoint \<Rightarrow> (endpoint \<times> go_error option) + endpoint" where
  "readRTCP pkg [] source = Inr source"
| "readRTCP pkg ((outbound, t) # ts) source =
     (case rtcp_turn pkg outbound t source of Inl r \<Rightarrow> Inl r | Inr src \<Rightarrow> readRTCP pkg ts src)"

definition MaxUint32 :: int where "MaxUint32 = 2 ^ 32 - 1"

definition receptionReport :: "endpoint \<Rightarrow> stats \<Rightarrow> time \<Rightarrow> reception_report" where
  "receptionReport destination inbound now =
     (let expected = s_Packets inbound + s_Lost inbound;
          fraction = (if 0 < expected then min (s_Lost inbound * 256 div expected) 255 else 0);
          lastSR = pt_lastRemoteSR destination;
          elapsed = now - (unix_epoch + pt_lastRemoteSRNanos destination);
          delay = (if lastSR \<noteq> 0 \<and> pt_lastRemoteSRNanos destination \<noteq> 0 \<and> 0 < elapsed
                   then min (go_div (int64 (elapsed * 65536)) Second mod 2 ^ 64) MaxUint32 else 0)
      in \<lparr>rr_SSRC = s_SSRC inbound, rr_FractionLost = ucast fraction,
          rr_TotalLost = ucast (min (s_Lost inbound) 16777215), rr_LastSequenceNumber = s_LastSequence inbound,
          rr_Jitter = word_of_int \<lfloor>max 0 (s_JitterSamples inbound)\<rfloor>,
          rr_LastSenderReport = lastSR, rr_Delay = word_of_int delay\<rparr>)"

text \<open>The packet \<open>writeRTCP\<close> sends, with the endpoint that remembers a sender report.\<close>

definition rtcp_report :: "endpoint \<Rightarrow> rewriter \<Rightarrow> time \<Rightarrow> endpoint \<times> rtcp_packet" where
  "rtcp_report destination outbound now =
     (let inbound = tracker_Snapshot (pt_tracker destination);
          sender = rewriter_Snapshot outbound;
          reports = (if s_SSRC inbound \<noteq> 0 then [receptionReport destination inbound now] else [])
      in if 0 < ss_Packets sender then
           (destination\<lparr>pt_lastSentSR := compactNTP (ntpTimestamp now)\<rparr>,
            SenderReport \<lparr>sr_SSRC = ss_SSRC sender, sr_NTPTime = ntpTimestamp now, sr_RTPTime = ss_LastTimestamp sender,
                          sr_PacketCount = ucast (min (ss_Packets sender) 4294967295),
                          sr_OctetCount = ucast (min (ss_Bytes sender) 4294967295), sr_Reports = reports\<rparr>)
         else (destination, ReceiverReport (ss_SSRC sender) reports))"

text \<open>\<open>writeErr\<close> is the result of the write, if it comes to one; the last component is what was written.\<close>

definition writeRTCP ::
  "rtcp_pkg \<Rightarrow> 'c pool \<Rightarrow> go_error option \<Rightarrow> rewriter \<Rightarrow> time \<Rightarrow> endpoint
     \<Rightarrow> endpoint \<times> go_error option \<times> (8 word list \<times> addr_port) option" where
  "writeRTCP pkg p writeErr outbound now destination =
     (case rtcpTarget destination of
        None \<Rightarrow> (destination, None, None)
      | Some target \<Rightarrow>
          (case rtcp_report destination outbound now of
             (d, packet) \<Rightarrow>
               (case rtcp_Marshal pkg packet of
                  Inl e \<Rightarrow> (d, Some (Wrapf ''marshal %s RTCP report: %w'' e), None)
                | Inr wire \<Rightarrow>
                    (case lease_RTCPConn (Some (pool_leases p ! pt_lease d)) of
                       Inl e \<Rightarrow> (d, Some e, None)
                     | Inr _ \<Rightarrow>
                         (case writeErr of
                            None \<Rightarrow> (d, None, Some (wire, target))
                          | Some e \<Rightarrow>
                              if errors_Is e net_ErrClosed then (d, None, None)
                              else (d, Some (Wrapf ''write %s RTCP report: %w'' e), None))))))"

subsection \<open>Quality summaries\<close>

record leg_summary =
  ls_Inbound :: stats
  ls_Outbound :: sender_stats
  ls_InvalidPackets :: "64 word"
  ls_DTMFEvents :: "64 word"
  ls_RemoteFractionLost :: "8 word"
  ls_RemoteTotalLost :: "32 word"
  ls_RemoteJitter :: "32 word"
  ls_RTT :: duration
  ls_TimedOut :: bool

record summary =
  sm_MediaSessionID :: string
  sm_TenantID :: string
  sm_CallID :: string
  sm_NodeID :: string
  sm_CallerLegID :: string
  sm_CalleeLegID :: string
  sm_SampledAt :: time
  sm_Caller :: leg_summary
  sm_Callee :: leg_summary
  sm_OneWay :: bool
  sm_DroppedSummaries :: "64 word"

definition legSummary :: "endpoint \<Rightarrow> rewriter \<Rightarrow> leg_summary" where
  "legSummary e outbound =
     \<lparr>ls_Inbound = tracker_Snapshot (pt_tracker e), ls_Outbound = rewriter_Snapshot outbound,
      ls_InvalidPackets = pt_invalidPackets e, ls_DTMFEvents = pt_dtmfEvents e,
      ls_RemoteFractionLost = ucast (pt_remoteFractionLost e), ls_RemoteTotalLost = pt_remoteTotalLost e,
      ls_RemoteJitter = pt_remoteJitter e, ls_RTT = pt_rttNanos e, ls_TimedOut = pt_timedOut e\<rparr>"

text \<open>The arguments are the two readings of the clock.\<close>

definition session_Snapshot :: "time \<Rightarrow> time \<Rightarrow> media_session \<Rightarrow> summary" where
  "session_Snapshot now now' s =
     (let caller = legSummary (ms_caller s) (ms_calleeToCaller s);
          callee = legSummary (ms_callee s) (ms_callerToCallee s);
          oneWay = (ms_startedAt s \<noteq> 0 \<and> mc_InactivityTimeout (ms_cfg s) \<le> now - (unix_epoch + ms_startedAt s)
                    \<and> (0 < s_Packets (ls_Inbound caller)) \<noteq> (0 < s_Packets (ls_Inbound callee)))
      in \<lparr>sm_MediaSessionID = ms_id s, sm_TenantID = mt_TenantID (ms_metadata s), sm_CallID = mt_CallID (ms_metadata s),
          sm_NodeID = mt_NodeID (ms_metadata s), sm_CallerLegID = mt_CallerID (ms_metadata s),
          sm_CalleeLegID = mt_CalleeID (ms_metadata s), sm_SampledAt = now', sm_Caller = caller, sm_Callee = callee,
          sm_OneWay = oneWay, sm_DroppedSummaries = ms_summaryDrops s\<rparr>)"

text \<open>A publisher over a state \<open>'b\<close>; \<open>None\<close> is a call that has not returned.\<close>

type_synonym 'b media_publisher = "ctx \<Rightarrow> summary \<Rightarrow> 'b \<Rightarrow> ('b \<times> go_error option) option"

definition DiscardPublisher :: "'b media_publisher" where
  "DiscardPublisher c summary b = Some (b, None)"

definition publishSummary :: "'b media_publisher \<Rightarrow> ctx \<Rightarrow> time \<Rightarrow> time \<Rightarrow> media_session \<Rightarrow> 'b \<Rightarrow> (media_session \<times> 'b) option" where
  "publishSummary pub c now now' s b =
     (case pub c (session_Snapshot now now' s) b of
        None \<Rightarrow> None
      | Some (b', None) \<Rightarrow> Some (s, b')
      | Some (b', Some _) \<Rightarrow> Some (s\<lparr>ms_summaryDrops := ms_summaryDrops s + 1\<rparr>, b'))"

text \<open>One turn of \<open>reportLoop\<close>: a tick of the RTCP or the summary timer, or the end of the context.\<close>

datatype report_arm =
    RtcpTick time "go_error option" "go_error option"
  | SummaryTick ctx time time
  | ReportDone

fun report_turn ::
  "rtcp_pkg \<Rightarrow> 'c pool \<Rightarrow> 'b media_publisher \<Rightarrow> report_arm \<Rightarrow> media_session \<Rightarrow> 'b
     \<Rightarrow> ((media_session \<times> 'b) \<times> go_error option option) option" where
  "report_turn pkg p pub (RtcpTick now writeErr writeErr') s b =
     (let (caller, err, _) = writeRTCP pkg p writeErr (ms_calleeToCaller s) now (ms_caller s);
          s1 = s\<lparr>ms_caller := caller\<rparr>
      in if err \<noteq> None then Some ((s1, b), Some err)
         else
           let (callee, err', _) = writeRTCP pkg p writeErr' (ms_callerToCallee s1) now (ms_callee s1);
               s2 = s1\<lparr>ms_callee := callee\<rparr>
           in Some ((s2, b), if err' \<noteq> None then Some err' else None))"
| "report_turn pkg p pub (SummaryTick c now now') s b =
     map_option (\<lambda>st. (st, None)) (publishSummary pub c now now' s b)"
| "report_turn pkg p pub ReportDone s b = Some ((s, b), Some None)"

text \<open>The last component is the worker's return, if it returned.\<close>

fun reportLoop ::
  "rtcp_pkg \<Rightarrow> 'c pool \<Rightarrow> 'b media_publisher \<Rightarrow> report_arm list \<Rightarrow> media_session \<Rightarrow> 'b
     \<Rightarrow> ((media_session \<times> 'b) \<times> go_error option option) option" where
  "reportLoop pkg p pub [] s b = Some ((s, b), None)"
| "reportLoop pkg p pub (arm # arms) s b =
     (case report_turn pkg p pub arm s b of
        None \<Rightarrow> None
      | Some ((s', b'), None) \<Rightarrow> reportLoop pkg p pub arms s' b'
      | Some (st, Some r) \<Rightarrow> Some (st, Some r))"

subsection \<open>What a relay sends\<close>

lemma acceptsRTP_cases:
  assumes "acceptsRTP a src = (src', ok)"
  shows "pt_remote src' = pt_remote src" and "pt_tracker src' = pt_tracker src"
    and "ok \<Longrightarrow> pt_learnedRTPPort src' = ucast (ap_Port a)"
    and "ok \<Longrightarrow> \<exists>r. pt_remote src = Some r \<and> ap_Addr a = ap_Addr (rm_rtp r)"
    and "pt_learnedRTPPort src \<noteq> 0 \<Longrightarrow> pt_learnedRTPPort src' = pt_learnedRTPPort src"
  using assms by (auto simp: acceptsRTP_def Let_def split: option.splits if_splits)

lemma learned_zero: "(ucast (p :: 16 word) :: 32 word) = 0 \<longleftrightarrow> p = 0"
  by transfer (auto simp: take_bit_eq_mod)

lemma invalid_packet_sel [simp]:
  "pt_remote (invalid_packet e) = pt_remote e" "pt_learnedRTPPort (invalid_packet e) = pt_learnedRTPPort e"
  "pt_lease (invalid_packet e) = pt_lease e"
  by (simp_all add: invalid_packet_def)

lemma canSend_tracker [simp]: "canSend (e\<lparr>pt_tracker := t\<rparr>) = canSend e"
  by (simp add: canSend_def)

text \<open>When a packet is relayed, and how it is rewritten.\<close>

definition relayed :: "'h rtp_pkg \<Rightarrow> 8 word list \<Rightarrow> addr_port \<Rightarrow> endpoint \<Rightarrow> endpoint \<Rightarrow> 'h packet \<Rightarrow> 8 word \<Rightarrow> bool" where
  "relayed pkg datagram a src dst packet pt =
     (rtp_Unmarshal pkg datagram = Inr (2, packet) \<and> pk_Payload packet \<noteq> [] \<and>
      (\<exists>r r'. pt_remote src = Some r \<and> pt_remote dst = Some r' \<and> ap_Addr a = ap_Addr (rm_rtp r) \<and>
         payloadMapping (pk_PayloadType packet) r r' = Some pt) \<and> canReceive dst)"

lemma relay_packet_cases:
  assumes "relay_packet pkg now datagram a src dst rw = (src', rw', out)"
  obtains (dropped) "out = None" "rw' = rw" "pt_remote src' = pt_remote src"
    "pt_learnedRTPPort src \<noteq> 0 \<Longrightarrow> pt_learnedRTPPort src' = pt_learnedRTPPort src"
  | (rewritten) packet pt where "relayed pkg datagram a src dst packet pt"
    "(rw', out) = (fst (Rewrite packet pt rw), Some (snd (Rewrite packet pt rw)))"
    "pt_remote src' = pt_remote src" "pt_learnedRTPPort src' = ucast (ap_Port a)"
    "pt_learnedRTPPort src \<noteq> 0 \<Longrightarrow> pt_learnedRTPPort src' = pt_learnedRTPPort src"
proof -
  obtain s ok where acc: "acceptsRTP a src = (s, ok)" by fastforce
  note s = acceptsRTP_cases [OF acc]
  show ?thesis
  proof (cases "out")
    case None
    then show ?thesis
      using assms s(1,5) acc
      by (intro dropped)
        (auto simp: relay_packet_def Let_def split: bool.splits sum.splits option.splits prod.splits if_splits)
  next
    case (Some o')
    then obtain packet pt where "relayed pkg datagram a src dst packet pt"
      "rw' = fst (Rewrite packet pt rw)" "out = Some (snd (Rewrite packet pt rw))"
      "pt_remote src' = pt_remote s" "pt_learnedRTPPort src' = pt_learnedRTPPort s" ok
      using assms s(4) acc
      by (auto simp: relay_packet_def relayed_def Let_def s(1)
          split: bool.splits sum.splits option.splits prod.splits if_splits)
    then show ?thesis using s by (intro rewritten [of packet pt]) auto
  qed
qed

fun relay_state :: "(relay \<times> go_error option) + relay \<Rightarrow> relay" where
  "relay_state (Inl (st, _)) = st"
| "relay_state (Inr st) = st"

text \<open>The input of a rewriter with the address it came from; it arrived in one of the turns.\<close>

type_synonym 'h heard = "'h packet \<times> 8 word \<times> addr_port"

definition heard_in :: "'h rtp_pkg \<Rightarrow> relay_event list \<Rightarrow> 'h heard \<Rightarrow> bool" where
  "heard_in pkg evs x =
     (case x of (packet, pt, a) \<Rightarrow>
        \<exists>dst datagram now we ce. Turn dst (Datagram datagram a now we ce) \<in> set evs
          \<and> rtp_Unmarshal pkg datagram = Inr (2, packet) \<and> pk_Payload packet \<noteq> [])"

definition rewriter_input :: "'h heard \<Rightarrow> 'h packet \<times> 8 word" where
  "rewriter_input x = (fst x, fst (snd x))"

text \<open>All from the address of the remote, and from one port.\<close>

definition one_source :: "endpoint \<Rightarrow> 'h heard list \<Rightarrow> bool" where
  "one_source src xs =
     (\<exists>l. (pt_learnedRTPPort src \<noteq> 0 \<longrightarrow> l = pt_learnedRTPPort src) \<and>
        (\<forall>(packet, pt, a) \<in> set xs.
           (\<exists>r. pt_remote src = Some r \<and> ap_Addr a = ap_Addr (rm_rtp r)) \<and> (ap_Port a \<noteq> 0 \<longrightarrow> ucast (ap_Port a) = l)))"

definition targeted :: "relay_event list \<Rightarrow> 8 word list \<times> addr_port \<Rightarrow> bool" where
  "targeted evs w = (\<exists>dst t. Turn dst t \<in> set evs \<and> rtpTarget dst = Some (snd w))"

fun is_turn :: "relay_event \<Rightarrow> bool" where
  "is_turn (Turn _ _) = True"
| "is_turn _ = False"

definition relays ::
  "'h rtp_pkg \<Rightarrow> relay_event list \<Rightarrow> relay \<Rightarrow> relay \<Rightarrow> 'h heard list \<Rightarrow> 'h packet list \<Rightarrow> bool" where
  "relays pkg evs st st' xs outs =
     (case (st, st') of ((src, rw, sent), (src', rw', sent')) \<Rightarrow>
        rewrite_all (map rewriter_input xs) rw = (rw', outs) \<and>
        (\<exists>ws. sent' = sent @ ws \<and> list_all (targeted evs) ws \<and>
           subseq (map (\<lambda>w. Inr (fst w)) ws) (map (rtp_MarshalTo pkg maxDatagramSize) outs)) \<and>
        list_all (heard_in pkg evs) xs \<and>
        (list_all is_turn evs \<longrightarrow> one_source src xs))"

lemma relay_output_cases:
  assumes "relay_output pkg dst src out = (src', w)"
  shows "pt_remote src' = pt_remote src" and "pt_learnedRTPPort src' = pt_learnedRTPPort src"
    and "w = Some x \<Longrightarrow> \<exists>packet. out = Some packet \<and> rtp_MarshalTo pkg maxDatagramSize packet = Inr (fst x)
           \<and> rtpTarget dst = Some (snd x)"
  using assms by (auto simp: relay_output_def split: option.splits sum.splits)

lemma relays_refl: "relays pkg evs st st [] []"
  by (cases st) (auto simp: relays_def one_source_def)

lemma heard_in_mono: "heard_in pkg evs x \<Longrightarrow> heard_in pkg (e # evs) x"
  by (cases x) (simp add: heard_in_def, blast)

lemma targeted_mono: "targeted evs w \<Longrightarrow> targeted (e # evs) w"
  by (auto simp: targeted_def)

lemma relays_skip:
  assumes "relays pkg evs (src1, rw, sent) st' xs outs"
    and "is_turn e \<Longrightarrow> pt_remote src1 = pt_remote src
      \<and> (pt_learnedRTPPort src \<noteq> 0 \<longrightarrow> pt_learnedRTPPort src1 = pt_learnedRTPPort src)"
  shows "relays pkg (e # evs) (src, rw, sent) st' xs outs"
proof -
  have "one_source src1 xs \<Longrightarrow> is_turn e \<Longrightarrow> one_source src xs"
    using assms(2) by (fastforce simp: one_source_def)
  then show ?thesis
    using assms(1) by (auto simp: relays_def split_def list_all_iff intro: heard_in_mono targeted_mono)
qed

lemma relays_cons:
  assumes "relayed pkg d a src dst packet pt"
    and "pt_remote src1 = pt_remote src" and "pt_learnedRTPPort src1 = ucast (ap_Port a)"
    and "pt_learnedRTPPort src \<noteq> 0 \<Longrightarrow> pt_learnedRTPPort src1 = pt_learnedRTPPort src"
    and "ws0 = [] \<or> (\<exists>w. ws0 = [w] \<and> rtp_MarshalTo pkg maxDatagramSize (snd (Rewrite packet pt rw)) = Inr (fst w)
           \<and> rtpTarget dst = Some (snd w))"
    and "relays pkg evs (src1, fst (Rewrite packet pt rw), sent @ ws0) st' xs outs"
  shows "relays pkg (Turn dst (Datagram d a now we ce) # evs) (src, rw, sent) st'
           ((packet, pt, a) # xs) (snd (Rewrite packet pt rw) # outs)"
proof -
  let ?evs = "Turn dst (Datagram d a now we ce) # evs"
  obtain src' rw' sent' where st': "st' = (src', rw', sent')" by (cases st')
  from assms(6) obtain ws where ws: "rewrite_all (map rewriter_input xs) (fst (Rewrite packet pt rw)) = (rw', outs)"
    "sent' = sent @ ws0 @ ws" "list_all (targeted evs) ws"
    "subseq (map (\<lambda>w. Inr (fst w)) ws) (map (rtp_MarshalTo pkg maxDatagramSize) outs)"
    "list_all (heard_in pkg evs) xs" "list_all is_turn evs \<longrightarrow> one_source src1 xs"
    by (auto simp: relays_def st')
  have "rewrite_all (map rewriter_input ((packet, pt, a) # xs)) rw = (rw', snd (Rewrite packet pt rw) # outs)"
    using ws(1) by (simp add: rewriter_input_def split_beta Let_def)
  moreover have "subseq (map (\<lambda>w. Inr (fst w)) (ws0 @ ws))
      (map (rtp_MarshalTo pkg maxDatagramSize) (snd (Rewrite packet pt rw) # outs))"
    using assms(5) ws(4) by auto
  moreover have "list_all (targeted ?evs) (ws0 @ ws)"
  proof -
    have "list_all (targeted ?evs) ws0" using assms(5) by (auto simp: targeted_def intro!: exI [of _ dst])
    moreover have "list_all (targeted ?evs) ws" using ws(3) by (auto simp: list_all_iff intro: targeted_mono)
    ultimately show ?thesis by simp
  qed
  moreover have "list_all (heard_in pkg ?evs) ((packet, pt, a) # xs)"
  proof -
    have "heard_in pkg ?evs (packet, pt, a)"
      using assms(1) by (auto simp: heard_in_def relayed_def intro!: exI [of _ dst] exI [of _ d])
    moreover have "list_all (heard_in pkg ?evs) xs" using ws(5) by (auto simp: list_all_iff intro: heard_in_mono)
    ultimately show ?thesis by simp
  qed
  moreover have "one_source src ((packet, pt, a) # xs)" if "list_all is_turn ?evs"
  proof -
    from that ws(6) obtain l where l: "pt_learnedRTPPort src1 \<noteq> 0 \<longrightarrow> l = pt_learnedRTPPort src1"
      "\<forall>(packet, pt, a) \<in> set xs. (\<exists>r. pt_remote src1 = Some r \<and> ap_Addr a = ap_Addr (rm_rtp r))
         \<and> (ap_Port a \<noteq> 0 \<longrightarrow> ucast (ap_Port a) = l)" by (auto simp: one_source_def)
    have "ucast (ap_Port a) = l" if "ap_Port a \<noteq> 0"
      using l(1) assms(3) that by (simp add: learned_zero)
    moreover have "\<exists>r. pt_remote src = Some r \<and> ap_Addr a = ap_Addr (rm_rtp r)"
      using assms(1) by (auto simp: relayed_def)
    moreover have "pt_learnedRTPPort src \<noteq> 0 \<longrightarrow> l = pt_learnedRTPPort src" using assms(4) l(1) by auto
    ultimately show ?thesis using l(2) assms(2) by (auto simp: one_source_def)
  qed
  ultimately show ?thesis using ws(2) by (auto simp: relays_def st')
qed

lemma relays_dropped:
  assumes "relay_packet pkg now d a src dst rw = (src1, rw1, None)" and "relay_output pkg dst src1 None = (src2, w)"
    and "relays pkg evs (src2, rw1, sent) st' xs outs"
  shows "relays pkg (Turn dst t # evs) (src, rw, sent) st' xs outs"
proof (rule relay_packet_cases [OF assms(1)])
  assume "rw1 = rw" "pt_remote src1 = pt_remote src"
    "pt_learnedRTPPort src \<noteq> 0 \<Longrightarrow> pt_learnedRTPPort src1 = pt_learnedRTPPort src"
  then show ?thesis
    using assms(3) relay_output_cases(1,2) [OF assms(2)] by (intro relays_skip [of pkg evs src2]) auto
qed simp

text \<open>One datagram turn, with the datagrams it wrote.\<close>

lemma relays_datagram:
  assumes "relay_packet pkg now d a src dst rw = (src1, rw1, out)" and "relay_output pkg dst src1 out = (src2, w)"
    and "ws0 = [] \<or> (\<exists>x. w = Some x \<and> ws0 = [x])"
    and "relays pkg evs (src2, rw1, sent @ ws0) st' xs outs"
  shows "\<exists>xs' outs'. relays pkg (Turn dst (Datagram d a now' we ce) # evs) (src, rw, sent) st' xs' outs'"
proof (cases out)
  case None
  then have "ws0 = []" using assms(2,3) relay_output_cases(3) [OF assms(2)] by auto
  then show ?thesis using relays_dropped [of pkg now d a src dst rw src1 rw1 src2 w evs sent st' xs outs] assms None by auto
next
  case (Some packet')
  from assms(1) show ?thesis
  proof (cases rule: relay_packet_cases)
    case (rewritten packet pt)
    have "relays pkg (Turn dst (Datagram d a now' we ce) # evs) (src, rw, sent) st'
        ((packet, pt, a) # xs) (snd (Rewrite packet pt rw) # outs)"
    proof (rule relays_cons [where ?src1.0 = src2 and ?ws0.0 = ws0])
      show "relays pkg evs (src2, fst (Rewrite packet pt rw), sent @ ws0) st' xs outs"
        using assms(4) rewritten(2) by simp
      show "ws0 = [] \<or> (\<exists>w. ws0 = [w] \<and> rtp_MarshalTo pkg maxDatagramSize (snd (Rewrite packet pt rw)) = Inr (fst w)
          \<and> rtpTarget dst = Some (snd w))"
        using assms(3) relay_output_cases(3) [OF assms(2)] rewritten(2) by auto
    qed (use rewritten relay_output_cases(1,2) [OF assms(2)] in auto)
    then show ?thesis by blast
  qed (simp add: Some)
qed

lemma forward_relays:
  "\<exists>xs outs. relays pkg evs st (relay_state (forward_loop pkg cfg startedAt evs st)) xs outs"
proof (induction evs arbitrary: st)
  case Nil
  then show ?case using relays_refl by fastforce
next
  case (Cons e evs)
  obtain src rw sent where st: "st = (src, rw, sent)" by (cases st)
  show ?case
  proof (cases e)
    case (Reconfigure remote audioPT dtmfPT hasDTMF)
    have "relays pkg evs (endpoint_configure remote audioPT dtmfPT hasDTMF src, rw, sent) st' xs outs
        \<Longrightarrow> relays pkg (e # evs) (src, rw, sent) st' xs outs" for st' xs outs
      by (erule relays_skip) (simp add: Reconfigure)
    then show ?thesis
      using Cons.IH [of "(endpoint_configure remote audioPT dtmfPT hasDTMF src, rw, sent)"]
      unfolding st Reconfigure forward_loop.simps by blast
  next
    case e: (Turn dst t)
    have same: "\<exists>xs outs. relays pkg (e # evs) st st xs outs" using relays_refl by blast
    show ?thesis
    proof (cases t)
      case (DeadlineError err)
      then show ?thesis using e same by (simp add: st)
    next
      case (ReadError err timeout ctxErr now)
      let ?st1 = "(updateTimeout cfg startedAt now src, rw, sent)"
      obtain xs outs where "relays pkg evs ?st1 (relay_state (forward_loop pkg cfg startedAt evs ?st1)) xs outs"
        using Cons.IH by blast
      then have "relays pkg (e # evs) (src, rw, sent) (relay_state (forward_loop pkg cfg startedAt evs ?st1)) xs outs"
        by (rule relays_skip) (simp add: updateTimeout_def Let_def)
      then have later: "\<exists>xs outs. relays pkg (e # evs) (src, rw, sent)
          (relay_state (forward_loop pkg cfg startedAt evs ?st1)) xs outs" by blast
      show ?thesis
      proof (cases "ctxErr = None \<and> \<not> errors_Is err net_ErrClosed \<and> timeout")
        case True
        then have "forward_loop pkg cfg startedAt (e # evs) st = forward_loop pkg cfg startedAt evs ?st1"
          by (simp add: e st ReadError)
        then show ?thesis using later unfolding st by simp
      next
        case False
        then have "relay_state (forward_loop pkg cfg startedAt (e # evs) st) = st" by (auto simp: e st ReadError)
        then show ?thesis using same by simp
      qed
    next
      case (Datagram d a now we ce)
      obtain src1 rw1 out where rp: "relay_packet pkg now d a src dst rw = (src1, rw1, out)"
        by (cases "relay_packet pkg now d a src dst rw")
      obtain src2 w where ro: "relay_output pkg dst src1 out = (src2, w)" by fastforce
      note step = relays_datagram [OF rp ro, where evs = evs and sent = sent and now' = now and we = we and ce = ce]
      have stop: "\<exists>xs outs. relays pkg (e # evs) st (src2, rw1, sent) xs outs"
        using step [of "[]"] relays_refl [of pkg evs "(src2, rw1, sent)"] by (fastforce simp: st e Datagram)
      show ?thesis
      proof (cases w)
        case None
        then show ?thesis
          using Cons.IH [of "(src2, rw1, sent)"] step [of "[]"] by (fastforce simp: st e Datagram rp ro)
      next
        case (Some x)
        show ?thesis
        proof (cases we)
          case None
          then show ?thesis
            using Some Cons.IH [of "(src2, rw1, sent @ [x])"] step [of "[x]"] by (fastforce simp: st e Datagram rp ro)
        next
          case (Some err)
          then show ?thesis using \<open>w = Some x\<close> stop by (auto simp: st e Datagram rp ro)
        qed
      qed
    qed
  qed
qed

subsection \<open>Leases of a session\<close>

text \<open>The pool offers and counts the same as before.\<close>

definition pool_restored :: "'c pool \<Rightarrow> 'c pool \<Rightarrow> bool" where
  "pool_restored p p' =
     (open_leases p' = open_leases p \<and> pool_InUse p' = pool_InUse p
      \<and> mset (ch_buf (pool_available p')) = mset (ch_buf (pool_available p)))"

lemma same_open_leases:
  assumes "pool_inv ports ([], p, os)" and "pool_inv ports ([], p', os')" and "open_leases p' = open_leases p"
  shows "pool_restored p p'"
proof -
  have "mset (ch_buf (pool_available p')) + mset (map le_rtpPort (open_leases p)) =
      mset (ch_buf (pool_available p)) + mset (map le_rtpPort (open_leases p))"
    using assms by (simp add: pool_inv_def)
  then have "mset (ch_buf (pool_available p')) = mset (ch_buf (pool_available p))" by (rule add_right_imp_eq)
  then show ?thesis using assms by (simp add: pool_inv_def pool_restored_def pool_InUse_def)
qed

lemma release_one:
  assumes "pool_inv ports ([], p, os)" and "h < length (pool_leases p)" and "\<not> le_once (pool_leases p ! h)"
  obtains p' os' e where "lease_Release u (Some h) p os = Some (p', os', e)" "pool_inv ports ([], p', os')"
    "pool_leases p' = (pool_leases p)[h := (pool_leases p ! h)\<lparr>le_once := True, le_released := True\<rparr>]"
  using lease_Release_inv [OF assms] by metis

text \<open>Two leases at the end of the pool, released one after the other.\<close>

lemma release_both:
  assumes "pool_inv ports ([], p, os)" and "pool_leases p = ls @ [l1, l2]" and "\<not> le_once l1" and "\<not> le_once l2"
  obtains p1 os1 e1 p2 os2 e2 where
    "lease_Release u (Some (length ls)) p os = Some (p1, os1, e1)"
    "lease_Release u (Some (Suc (length ls))) p1 os1 = Some (p2, os2, e2)"
    "pool_inv ports ([], p2, os2)" "open_leases p2 = filter (\<lambda>l. \<not> le_once l) ls"
proof -
  obtain p1 os1 e1 where r1: "lease_Release u (Some (length ls)) p os = Some (p1, os1, e1)"
    "pool_inv ports ([], p1, os1)" "pool_leases p1 = ls @ [l1\<lparr>le_once := True, le_released := True\<rparr>, l2]"
    by (rule release_one [OF assms(1), of "length ls" u]) (use assms in \<open>auto simp: nth_append\<close>)
  obtain p2 os2 e2 where r2: "lease_Release u (Some (Suc (length ls))) p1 os1 = Some (p2, os2, e2)"
    "pool_inv ports ([], p2, os2)"
    "pool_leases p2 = ls @ [l1\<lparr>le_once := True, le_released := True\<rparr>, l2\<lparr>le_once := True, le_released := True\<rparr>]"
    by (rule release_one [OF r1(2), of "Suc (length ls)" u])
      (use assms r1(3) in \<open>auto simp: nth_append list_update_append\<close>)
  show ?thesis by (rule that [OF r1(1) r2(1,2)]) (simp add: open_leases_def r2(3))
qed

text \<open>What \<open>New\<close> leaves: a session with two fresh leases, or the leases that were open before.\<close>

definition new_outcome :: "media_config \<Rightarrow> 'c pool \<Rightarrow> 'c pool \<Rightarrow> media_session result \<Rightarrow> bool" where
  "new_outcome cfg p p' r =
     (case r of
        Inl _ \<Rightarrow> open_leases p' = open_leases p
      | Inr s \<Rightarrow>
          pt_lease (ms_caller s) = length (pool_leases p) \<and> pt_lease (ms_callee s) = Suc (length (pool_leases p))
          \<and> \<not> ms_closed s \<and> ms_cfg s = cfg
          \<and> (\<exists>port1 conns1 port2 conns2.
               pool_leases p' = pool_leases p @ [new_lease port1 conns1, new_lease port2 conns2]))"

lemma factory_New_leased:
  assumes "acquire_pool u cs p os = Some (p1, os1, Inr (length (pool_leases p)))"
    and "acquire_pool u cs' p1 os1 = Some (p2, os2, Inr (Suc (length (pool_leases p))))"
    and "pool_leases p2 = pool_leases p @ [new_lease port1 conns1, new_lease port2 conns2]"
    and "pool_inv ports ([], p2, os2)"
  shows "\<exists>p' os' r. factory_New u cfg cs cs' rand1 rand2 uuid meta p os = Some (p', os', r)
    \<and> pool_inv ports ([], p', os') \<and> new_outcome cfg p p' r"
proof -
  obtain p3 os3 e3 p4 os4 e4 where r4: "lease_Release u (Some (length (pool_leases p))) p2 os2 = Some (p3, os3, e3)"
    "lease_Release u (Some (Suc (length (pool_leases p)))) p3 os3 = Some (p4, os4, e4)" "pool_inv ports ([], p4, os4)"
    "open_leases p4 = filter (\<lambda>l. \<not> le_once l) (pool_leases p)"
    by (rule release_both [OF assms(4,3)]) (simp_all add: new_lease_def)
  have abort: ?thesis if "factory_New u cfg cs cs' rand1 rand2 uuid meta p os =
      map_option (\<lambda>(p3, os3). (p3, os3, Inl e))
        (release_leases u [length (pool_leases p), Suc (length (pool_leases p))] p2 os2)" for e
    using that r4 by (auto simp: new_outcome_def open_leases_def [of p])
  show ?thesis
  proof (cases "NewRewriter rand1")
    case (Inl e)
    then show ?thesis by (intro abort [of e]) (simp add: factory_New_def assms)
  next
    case r1: (Inr rw1)
    show ?thesis
    proof (cases "NewRewriter rand2")
      case (Inl e)
      then show ?thesis by (intro abort [of e]) (simp add: factory_New_def assms r1)
    next
      case r2: (Inr rw2)
      show ?thesis
      proof (cases uuid)
        case (Inl e)
        then show ?thesis by (intro abort [of "Wrapf ''generate media session ID: %w'' e"]) (simp add: factory_New_def assms r1 r2)
      next
        case (Inr ident)
        then show ?thesis
          using assms(3,4)
          by (cases conns1; cases conns2)
            (auto simp: factory_New_def assms(1,2) r1 r2 new_outcome_def new_session_def newEndpoint_def)
      qed
    qed
  qed
qed

lemma factory_New_outcome:
  assumes "pool_inv ports ([], p, os)"
  shows "\<exists>p' os' r. factory_New u cfg cs cs' rand1 rand2 uuid meta p os = Some (p', os', r)
    \<and> pool_inv ports ([], p', os') \<and> new_outcome cfg p p' r"
proof -
  obtain p1 os1 r1 where a1: "acquire_pool u cs p os = Some (p1, os1, r1)" "pool_inv ports ([], p1, os1)" "leased p r1 p1"
    by (rule acquire_pool_inv [OF assms])
  show ?thesis
  proof (cases r1)
    case (Inl e)
    then show ?thesis using a1 by (simp add: factory_New_def new_outcome_def leased_def open_leases_def)
  next
    case (Inr h1)
    then obtain port1 conns1 where l1: "h1 = length (pool_leases p)"
      "pool_leases p1 = pool_leases p @ [new_lease port1 conns1]" using a1(3) by (auto simp: leased_def)
    obtain p2 os2 r2 where a2: "acquire_pool u cs' p1 os1 = Some (p2, os2, r2)" "pool_inv ports ([], p2, os2)" "leased p1 r2 p2"
      by (rule acquire_pool_inv [OF a1(2)])
    show ?thesis
    proof (cases r2)
      case (Inl e)
      then have l2: "pool_leases p2 = pool_leases p @ [new_lease port1 conns1]" using a2(3) l1 by (simp add: leased_def)
      obtain p3 os3 e3 where r3: "lease_Release u (Some h1) p2 os2 = Some (p3, os3, e3)" "pool_inv ports ([], p3, os3)"
        "pool_leases p3 = pool_leases p @ [(new_lease port1 conns1)\<lparr>le_once := True, le_released := True\<rparr>]"
        by (rule release_one [OF a2(2), of h1 u]) (use l1 l2 in \<open>auto simp: new_lease_def\<close>)
      then show ?thesis using a1 Inr a2 Inl by (simp add: factory_New_def new_outcome_def open_leases_def)
    next
      case r2: (Inr h2)
      then obtain port2 conns2 where l2: "h2 = Suc (length (pool_leases p))"
        "pool_leases p2 = pool_leases p @ [new_lease port1 conns1, new_lease port2 conns2]"
        using a2(3) l1 by (auto simp: leased_def)
      show ?thesis
        by (rule factory_New_leased [of u cs p os p1 os1 cs' p2 os2]) (use a1 Inr a2 r2 l1 l2 in auto)
    qed
  qed
qed

lemma four_ports:
  fixes a b :: "16 word"
  assumes "a \<noteq> b" and "even (unat a)" and "even (unat b)" and "unat (a + 1) = unat a + 1" and "unat (b + 1) = unat b + 1"
  shows "distinct [a, a + 1, b, b + 1]"
proof -
  have "a \<noteq> b + 1" "b \<noteq> a + 1" using assms(2-5) by (metis even_Suc Suc_eq_plus1)+
  then show ?thesis using assms(1) by auto
qed

lemma new_leases_ports:
  assumes "pool_New c = Some (Inr p0)" and "pool_inv (pool_ports c) ([], p', os')"
    and "pool_leases p' = ls @ [new_lease port1 conns1, new_lease port2 conns2]"
  shows "distinct [port1, port1 + 1, port2, port2 + 1]"
proof -
  have op: "open_leases p' = filter (\<lambda>l. \<not> le_once l) ls @ [new_lease port1 conns1, new_lease port2 conns2]"
    by (simp add: open_leases_def assms(3) new_lease_def)
  have "port1 \<noteq> port2"
    using open_ports_distinct [OF assms(2) pool_ports_distinct] by (simp add: op new_lease_def)
  moreover have "port1 \<in> set (pool_ports c)" "port2 \<in> set (pool_ports c)"
    using open_lease_port [OF assms(2), of "new_lease port1 conns1"] open_lease_port [OF assms(2), of "new_lease port2 conns2"]
    by (simp_all add: op) (simp_all add: new_lease_def)
  ultimately show ?thesis using pool_ports_even [OF _ pool_New_Inr(2) [OF assms(1)]] by (intro four_ports) auto
qed

subsection \<open>Properties\<close>


text \<open>C27: Media ports are not lost. On a quiet pool, \<open>New\<close> either fails and leaves the pool offering
  and counting exactly what it did before, whichever step failed, or returns a session whose four
  advertised RTP and RTCP ports are pairwise different; closing that session gives the pool back
  what it offered before, and closing it again does nothing.\<close>
theorem session_ports_returned:
  assumes "pool_New c = Some (Inr p0)" and "(pool_step u)\<^sup>*\<^sup>* ([], p0, os0) (ts, p, os)" and "set ts \<subseteq> {Finished}"
  shows "\<exists>p' os' r. factory_New u cfg cs cs' rand1 rand2 uuid meta p os = Some (p', os', r) \<and>
    (case r of
       Inl _ \<Rightarrow> pool_restored p p'
     | Inr s \<Rightarrow> pool_InUse p' = pool_InUse p + 2 \<and>
         (\<exists>rtp1 rtcp1 rtp2 rtcp2. LocalEndpoint p' s CallerLeg = Inr (rtp1, rtcp1) \<and>
            LocalEndpoint p' s CalleeLeg = Inr (rtp2, rtcp2) \<and>
            distinct [ap_Port rtp1, ap_Port rtcp1, ap_Port rtp2, ap_Port rtcp2]) \<and>
         (\<exists>s' p'' os'' e. session_Close u s p' os' = Some (s', p'', os'', e) \<and> pool_restored p p'' \<and>
            session_Close u s' p'' os'' = Some (s', p'', os'', None)))"
proof -
  have inv: "pool_inv (pool_ports c) ([], p, os)"
    by (rule pool_inv_finished [OF assms(3) pool_reached [OF assms(1,2)]])
  obtain p' os' r where new: "factory_New u cfg cs cs' rand1 rand2 uuid meta p os = Some (p', os', r)"
    and inv': "pool_inv (pool_ports c) ([], p', os')" and out: "new_outcome cfg p p' r"
    using factory_New_outcome [OF inv] by blast
  show ?thesis
  proof (cases r)
    case (Inl e)
    then show ?thesis using new out same_open_leases [OF inv inv'] by (auto simp: new_outcome_def)
  next
    case (Inr s)
    then obtain port1 conns1 port2 conns2 where s: "pt_lease (ms_caller s) = length (pool_leases p)"
      "pt_lease (ms_callee s) = Suc (length (pool_leases p))" "\<not> ms_closed s"
      and ls: "pool_leases p' = pool_leases p @ [new_lease port1 conns1, new_lease port2 conns2]"
      using out by (auto simp: new_outcome_def)
    have "pool_InUse p' = pool_InUse p + 2"
      using inv inv' by (simp add: pool_inv_def pool_InUse_def open_leases_def ls new_lease_def)
    moreover obtain p1 os1 e1 p2 os2 e2 where rel:
      "lease_Release u (Some (length (pool_leases p))) p' os' = Some (p1, os1, e1)"
      "lease_Release u (Some (Suc (length (pool_leases p)))) p1 os1 = Some (p2, os2, e2)"
      "pool_inv (pool_ports c) ([], p2, os2)" "open_leases p2 = filter (\<lambda>l. \<not> le_once l) (pool_leases p)"
      by (rule release_both [OF inv' ls]) (simp_all add: new_lease_def)
    moreover have "pool_restored p p2"
      by (rule same_open_leases [OF inv rel(3)]) (simp only: rel(4) open_leases_def [of p])
    moreover have "session_Close u s p' os' = Some (s\<lparr>ms_closed := True\<rparr>, p2, os2, errors_Join [e1, e2])"
      using rel(1,2) s by (simp add: session_Close_def)
    moreover have "session_Close u (s\<lparr>ms_closed := True\<rparr>) p2 os2 = Some (s\<lparr>ms_closed := True\<rparr>, p2, os2, None)"
      by (simp add: session_Close_def)
    moreover have "\<exists>rtp1 rtcp1 rtp2 rtcp2. LocalEndpoint p' s CallerLeg = Inr (rtp1, rtcp1) \<and>
        LocalEndpoint p' s CalleeLeg = Inr (rtp2, rtcp2) \<and>
        distinct [ap_Port rtp1, ap_Port rtcp1, ap_Port rtp2, ap_Port rtcp2]"
      using new_leases_ports [OF assms(1) inv' ls]
      by (simp add: LocalEndpoint_def session_endpoint_def CallerLeg_def CalleeLeg_def s ls nth_append
          lease_RTPPort_def lease_RTCPPort_def new_lease_def)
    ultimately show ?thesis using new Inr by (intro exI conjI) auto
  qed
qed

subsection \<open>A concrete relay\<close>

definition relay_remote :: sdp_endpoint where
  "relay_remote = \<lparr>ep_RTP = AddrPortFrom (Addr4 167772161) 4000, ep_RTCP = AddrPortFrom (Addr4 167772161) 4001,
     ep_Direction = DirectionSendRecv, ep_Codecs = []\<rparr>"

definition relay_endpoint :: "string \<Rightarrow> nat \<Rightarrow> endpoint" where
  "relay_endpoint leg h = endpoint_configure relay_remote 0 101 True (newEndpoint leg h)"

definition relay_packet_in :: "unit packet" where
  "relay_packet_in = \<lparr>pk_PayloadType = 0, pk_SequenceNumber = 7, pk_Timestamp = 160, pk_SSRC = 9, pk_Payload = [1], pk_Header = ()\<rparr>"

definition relay_pkg :: "unit rtp_pkg" where
  "relay_pkg = \<lparr>rtp_Unmarshal = \<lambda>_. Inr (2, relay_packet_in), rtp_MarshalTo = \<lambda>n packet. Inr (pk_Payload packet)\<rparr>"

definition relay_rw :: rewriter where
  "relay_rw = \<lparr>rw_ssrc = 0, rw_sequence = 0, rw_timestamp = 0, rw_inputBase = 0, rw_outputBase = 0,
     rw_initialized = False, rw_packets = 0, rw_bytes = 0, rw_lastTimestamp = 0\<rparr>"

definition relay_events :: "relay_event list" where
  "relay_events = [Turn (relay_endpoint CalleeLeg 1) (Datagram [0] (AddrPortFrom (Addr4 167772161) 4444) 5 None None)]"

definition relay_cfg :: media_config where
  "relay_cfg = \<lparr>mc_AdvertisedIP = Addr4 167772200, mc_ReadPollInterval = 1, mc_InactivityTimeout = 2,
     mc_RTCPInterval = 1, mc_SummaryInterval = 1, mc_SummaryTimeout = 1\<rparr>"

lemma relay_rw_new: "NewRewriter (Inr (replicate 10 0)) = Inr relay_rw"
  by (simp add: NewRewriter_def relay_rw_def be_uint_def numeral_eq_Suc)

lemma relay_fresh: "snd (Observe relay_packet_in now n (NewTracker 8000)) = PacketNew"
  by (simp add: Observe_def Let_def NewTracker_def sequenceWindow_def relay_packet_in_def observe_sequence_def)

lemma relay_runs:
  "\<exists>src' rw'. relay_state (forwardRTP relay_pkg relay_cfg 0 sample_full (relay_endpoint CalleeLeg 1) relay_events
     (relay_endpoint CallerLeg 0, relay_rw, [])) = (src', rw', [([1], AddrPortFrom (Addr4 167772161) 4000)])"
proof -
  obtain tr where tr: "Observe relay_packet_in 5 1 (NewTracker 8000) = (tr, PacketNew)"
    using relay_fresh [of 5 1] by (metis prod.collapse)
  have conn: "\<exists>x. lease_RTPConn (Some (pool_leases sample_full ! 0)) = Inr x"
    "\<exists>x. lease_RTPConn (Some (pool_leases sample_full ! 1)) = Inr x"
    by (simp_all add: lease_RTPConn_def sample_full_def sample_pool_def sample_lease_def new_lease_def)
  obtain src rw where "forward_turn relay_pkg relay_cfg 0 (relay_endpoint CalleeLeg 1)
      (Datagram [0] (AddrPortFrom (Addr4 167772161) 4444) 5 None None) (relay_endpoint CallerLeg 0, relay_rw, [])
    = Inr (src, rw, [([1], AddrPortFrom (Addr4 167772161) 4000)])"
    using tr
    by (simp add: relay_packet_def acceptsRTP_def relay_endpoint_def endpoint_configure_def newEndpoint_def
        relay_remote_def relay_pkg_def payloadMapping_def canSend_def canReceive_def DirectionSendRecv_def
        relay_output_def rtpTarget_def Rewrite_def Let_def relay_packet_in_def)
  then show ?thesis
    using conn by (auto simp: forwardRTP_def relay_events_def relay_endpoint_def endpoint_configure_def newEndpoint_def Let_def)
qed


theorem session_ports_returned_witness:
  "\<exists>p' os' r. factory_New sample_udp relay_cfg (\<lambda>_. context_Background) (\<lambda>_. context_Background)
       (Inr (replicate 10 0)) (Inr (replicate 10 0)) (Inr ''m'') (NewMetadata ''t'' ''c'' ''n'' ''a'' ''b'')
       (sample_pool [] [20000, 20002] 0) 0 = Some (p', os', r) \<and>
     (case r of Inl _ \<Rightarrow> pool_restored (sample_pool [] [20000, 20002] 0) p' | Inr s \<Rightarrow> pool_InUse p' = 2)"
proof -
  have zero: "pool_InUse (sample_pool [] [20000, 20002] 0) = 0" by (simp add: pool_InUse_def sample_pool_def)
  show ?thesis
    using session_ports_returned [OF sample_pool_New rtranclp.rtrancl_refl, of sample_udp relay_cfg "\<lambda>_. context_Background"
        "\<lambda>_. context_Background" "Inr (replicate 10 0)" "Inr (replicate 10 0)" "Inr ''m''"
        "NewMetadata ''t'' ''c'' ''n'' ''a'' ''b''" 0]
    by (fastforce simp: zero split: sum.splits)
qed

end
