(* ===== verification/Call.thy ===== *)
theory Call
  imports Go_Channels
begin

text \<open>
  \<open>internal/core/call\<close>: the business call, its state machine and the actor that is its only
  writer. The publisher an actor is given is a parameter \<open>pub\<close> of the definitions, as it is an
  interface in the code; \<open>pub c e b\<close> publishes event \<open>e\<close> under context \<open>c\<close> to the publisher's state
  \<open>b\<close>, and is \<open>None\<close> while the call blocks. The clock is the sequence of its readings
  (\<open>actor_clock\<close>), with the number of readings taken so far (\<open>actor_reads\<close>). A command carries a
  ticket that stands for its reply channel.
\<close>

subsection \<open>Data\<close>

datatype state =
    StateNew | StateRouting | StateRinging | StateEarlyMedia | StateAnswered | StateHeld
  | StateTerminating | StateTerminated | StateFailed
  | OtherState string

record call =
  call_ID :: string
  call_TenantID :: string
  call_NodeID :: string
  call_Direction :: string
  call_CallerLeg :: string
  call_CalleeLeg :: string
  call_State :: state
  call_StartedAt :: time
  call_AnsweredAt :: time
  call_EndedAt :: time
  call_Cause :: string

record event =
  ev_Sequence :: "64 word"
  ev_TenantID :: string
  ev_CallID :: string
  ev_LegID :: string
  ev_NodeID :: string
  ev_CallerLeg :: string
  ev_CalleeLeg :: string
  ev_Direction :: string
  ev_OldState :: state
  ev_NewState :: state
  ev_Reason :: string
  ev_ProtocolEvent :: string
  ev_OccurredAt :: time

record transition =
  tr_State :: state
  tr_LegID :: string
  tr_Reason :: string
  tr_ProtocolEvent :: string

record command =
  cmd_transition :: transition
  cmd_ticket :: nat

datatype phase = Stopped | Running | Exited "go_error option"

record actor =
  actor_call :: call
  actor_mailbox :: "command chan"
  actor_phase :: phase
  actor_snapshot :: call
  actor_sequence :: "64 word"
  actor_replies :: "(nat \<times> go_error option) list"
  actor_clock :: "nat \<Rightarrow> time"
  actor_reads :: nat

type_synonym 'b publisher = "ctx \<Rightarrow> event \<Rightarrow> 'b \<Rightarrow> ('b \<times> go_error option) option"

definition DirectionInternal :: string where "DirectionInternal = ''internal''"

definition MaxMailboxCapacity :: int where "MaxMailboxCapacity = 1024"

definition ErrActorClosed :: go_error where
  "ErrActorClosed = Sentinel ''call actor closed''"

definition ErrInvalidTransition :: go_error where
  "ErrInvalidTransition = Sentinel ''invalid call state transition''"

subsection \<open>Calls\<close>

text \<open>The three results of \<open>uuid.NewV7\<close> (package \<open>google/uuid\<close>) are arguments.\<close>

definition call_New ::
  "string \<Rightarrow> string \<Rightarrow> time \<Rightarrow> string result \<Rightarrow> string result \<Rightarrow> string result \<Rightarrow> call result" where
  "call_New tenantID nodeID now uuid1 uuid2 uuid3 =
     (if tenantID = '''' then Inl (Errorf ''tenant ID is required'')
      else if nodeID = '''' then Inl (Errorf ''node ID is required'')
      else case uuid1 of
        Inl e \<Rightarrow> Inl (Wrapf ''generate call ID: %w'' e)
      | Inr callID \<Rightarrow>
          (case uuid2 of
             Inl e \<Rightarrow> Inl (Wrapf ''generate caller leg ID: %w'' e)
           | Inr callerLegID \<Rightarrow>
               (case uuid3 of
                  Inl e \<Rightarrow> Inl (Wrapf ''generate callee leg ID: %w'' e)
                | Inr calleeLegID \<Rightarrow>
                    Inr \<lparr>call_ID = callID, call_TenantID = tenantID, call_NodeID = nodeID,
                         call_Direction = DirectionInternal,
                         call_CallerLeg = callerLegID, call_CalleeLeg = calleeLegID,
                         call_State = StateNew, call_StartedAt = now,
                         call_AnsweredAt = 0, call_EndedAt = 0, call_Cause = ''''\<rparr>)))"

fun allowedTransition :: "state \<Rightarrow> state \<Rightarrow> bool" where
  "allowedTransition StateNew t = (t = StateRouting \<or> t = StateFailed \<or> t = StateTerminating)"
| "allowedTransition StateRouting t =
     (t = StateRinging \<or> t = StateEarlyMedia \<or> t = StateAnswered \<or> t = StateFailed \<or> t = StateTerminating)"
| "allowedTransition StateRinging t =
     (t = StateEarlyMedia \<or> t = StateAnswered \<or> t = StateFailed \<or> t = StateTerminating)"
| "allowedTransition StateEarlyMedia t =
     (t = StateAnswered \<or> t = StateFailed \<or> t = StateTerminating)"
| "allowedTransition StateAnswered t = (t = StateHeld \<or> t = StateTerminating)"
| "allowedTransition StateHeld t = (t = StateAnswered \<or> t = StateTerminating)"
| "allowedTransition StateTerminating t = (t = StateTerminated \<or> t = StateFailed)"
| "allowedTransition StateTerminated t = False"
| "allowedTransition StateFailed t = False"
| "allowedTransition (OtherState _) t = False"

definition isTerminal :: "state \<Rightarrow> bool" where
  "isTerminal s = (s = StateTerminated \<or> s = StateFailed)"

subsection \<open>The actor\<close>

definition storeSnapshot :: "actor \<Rightarrow> actor" where
  "storeSnapshot a = a\<lparr>actor_snapshot := actor_call a\<rparr>"

definition NewActor ::
  "int \<Rightarrow> call \<Rightarrow> 'p option \<Rightarrow> (nat \<Rightarrow> time) option \<Rightarrow> actor result" where
  "NewActor mailboxCapacity current publisher clock =
     (if mailboxCapacity \<le> 0 \<or> mailboxCapacity > MaxMailboxCapacity
      then Inl (Errorf ''mailbox capacity must be between 1 and %d'')
      else case publisher of
        None \<Rightarrow> Inl (Errorf ''event publisher is required'')
      | Some _ \<Rightarrow>
          (case clock of
             None \<Rightarrow> Inl (Errorf ''clock is required'')
           | Some clk \<Rightarrow>
               Inr (storeSnapshot
                 \<lparr>actor_call = current, actor_mailbox = chan_make (nat mailboxCapacity),
                  actor_phase = Stopped, actor_snapshot = current, actor_sequence = 0,
                  actor_replies = [], actor_clock = clk, actor_reads = 0\<rparr>)))"

definition clock_Now :: "actor \<Rightarrow> time \<times> actor" where
  "clock_Now a = (actor_clock a (actor_reads a), a\<lparr>actor_reads := Suc (actor_reads a)\<rparr>)"

definition actor_publish ::
  "'b publisher \<Rightarrow> ctx \<Rightarrow> string \<Rightarrow> string \<Rightarrow> state \<Rightarrow> state \<Rightarrow> string \<Rightarrow> actor \<Rightarrow> 'b \<Rightarrow>
     (actor \<times> 'b \<times> go_error option) option" where
  "actor_publish pub c protocolEvent reason oldState newState legID a b =
     (let a1 = a\<lparr>actor_sequence := actor_sequence a + 1\<rparr>;
          (now, a2) = clock_Now a1;
          cl = actor_call a2
      in case pub c
           \<lparr>ev_Sequence = actor_sequence a2, ev_TenantID = call_TenantID cl, ev_CallID = call_ID cl,
            ev_LegID = legID, ev_NodeID = call_NodeID cl, ev_CallerLeg = call_CallerLeg cl,
            ev_CalleeLeg = call_CalleeLeg cl, ev_Direction = call_Direction cl,
            ev_OldState = oldState, ev_NewState = newState, ev_Reason = reason,
            ev_ProtocolEvent = protocolEvent, ev_OccurredAt = now\<rparr> b of
           None \<Rightarrow> None
         | Some (b', err) \<Rightarrow> Some (a2, b', err))"

text \<open>The assignments of \<open>apply\<close> to the call before the event is published.\<close>

definition enter_state :: "transition \<Rightarrow> time \<Rightarrow> call \<Rightarrow> call" where
  "enter_state t now cl =
     (let c1 = cl\<lparr>call_State := tr_State t\<rparr>;
          c2 = (if tr_State t = StateAnswered then c1\<lparr>call_AnsweredAt := now\<rparr> else c1)
      in if isTerminal (tr_State t) then c2\<lparr>call_EndedAt := now, call_Cause := tr_Reason t\<rparr> else c2)"

definition actor_apply ::
  "'b publisher \<Rightarrow> ctx \<Rightarrow> transition \<Rightarrow> actor \<Rightarrow> 'b \<Rightarrow> (actor \<times> 'b \<times> go_error option) option" where
  "actor_apply pub c t a b =
     (if tr_State t = call_State (actor_call a) then Some (a, b, None)
      else if \<not> allowedTransition (call_State (actor_call a)) (tr_State t)
      then Some (a, b, Some (Wrapf ''%w: %s to %s'' ErrInvalidTransition))
      else
        let oldState = call_State (actor_call a);
            (now, a1) = clock_Now a;
            a2 = a1\<lparr>actor_call := enter_state t now (actor_call a1)\<rparr>
        in case actor_publish pub c (tr_ProtocolEvent t) (tr_Reason t) oldState (tr_State t) (tr_LegID t) a2 b of
             None \<Rightarrow> None
           | Some (a3, b', Some e) \<Rightarrow>
               Some (a3\<lparr>actor_call := (actor_call a3)\<lparr>call_State := oldState\<rparr>\<rparr>, b',
                     Some (Wrapf ''publish call transition: %w'' e))
           | Some (a3, b', None) \<Rightarrow> Some (storeSnapshot a3, b', None))"

text \<open>The first statement of \<open>Run\<close>: the event that announces the call.\<close>

definition actor_start :: "'b publisher \<Rightarrow> ctx \<Rightarrow> actor \<Rightarrow> 'b \<Rightarrow> (actor \<times> 'b) option" where
  "actor_start pub c a b =
     (case actor_publish pub c ''created'' '''' (call_State (actor_call a)) (OtherState '''') '''' a b of
        None \<Rightarrow> None
      | Some (a', b', Some e) \<Rightarrow>
          Some (a'\<lparr>actor_phase := Exited (Some (Wrapf ''publish initial call event: %w'' e))\<rparr>, b')
      | Some (a', b', None) \<Rightarrow> Some (a'\<lparr>actor_phase := Running\<rparr>, b'))"

definition shutdown_transition :: "state \<Rightarrow> transition" where
  "shutdown_transition s =
     \<lparr>tr_State = s, tr_LegID = '''', tr_Reason = ''context canceled'', tr_ProtocolEvent = ''shutdown''\<rparr>"

text \<open>
  The \<open>ctx.Done()\<close> arm of the loop of \<open>Run\<close>. The two contexts are what the one-second shutdown
  context reports at the first and at the second transition.
\<close>

definition actor_shutdown :: "'b publisher \<Rightarrow> ctx \<Rightarrow> ctx \<Rightarrow> actor \<Rightarrow> 'b \<Rightarrow> (actor \<times> 'b) option" where
  "actor_shutdown pub c1 c2 a b =
     (if isTerminal (call_State (actor_call a)) then Some (a\<lparr>actor_phase := Exited None\<rparr>, b)
      else case actor_apply pub c1 (shutdown_transition StateTerminating) a b of
        None \<Rightarrow> None
      | Some (a1, b1, Some e) \<Rightarrow> Some (a1\<lparr>actor_phase := Exited (Some e)\<rparr>, b1)
      | Some (a1, b1, None) \<Rightarrow>
          (case actor_apply pub c2 (shutdown_transition StateTerminated) a1 b1 of
             None \<Rightarrow> None
           | Some (a2, b2, r) \<Rightarrow> Some (a2\<lparr>actor_phase := Exited r\<rparr>, b2)))"

text \<open>The mailbox arm of the loop of \<open>Run\<close>: apply, reply, and leave the loop in a terminal state.\<close>

definition actor_receive :: "'b publisher \<Rightarrow> ctx \<Rightarrow> actor \<Rightarrow> 'b \<Rightarrow> (actor \<times> 'b) option" where
  "actor_receive pub c a b =
     (case chan_recv (actor_mailbox a) of
        None \<Rightarrow> None
      | Some (cmd, mailbox') \<Rightarrow>
          (case actor_apply pub c (cmd_transition cmd) (a\<lparr>actor_mailbox := mailbox'\<rparr>) b of
             None \<Rightarrow> None
           | Some (a1, b1, r) \<Rightarrow>
               let a2 = a1\<lparr>actor_replies := actor_replies a1 @ [(cmd_ticket cmd, r)]\<rparr>
               in Some (if r = None \<and> isTerminal (call_State (actor_call a2))
                        then a2\<lparr>actor_phase := Exited None\<rparr> else a2, b1)))"

datatype run_arm = ArmDone ctx ctx | ArmCommand ctx

text \<open>One iteration of the loop of \<open>Run\<close>; the arm is the one the \<open>select\<close> takes.\<close>

fun run_iteration :: "'b publisher \<Rightarrow> run_arm \<Rightarrow> actor \<Rightarrow> 'b \<Rightarrow> (actor \<times> 'b) option" where
  "run_iteration pub (ArmDone c1 c2) a b = actor_shutdown pub c1 c2 a b"
| "run_iteration pub (ArmCommand c) a b = actor_receive pub c a b"

fun run_loop :: "'b publisher \<Rightarrow> run_arm list \<Rightarrow> actor \<Rightarrow> 'b \<Rightarrow> (actor \<times> 'b) option" where
  "run_loop pub [] a b = Some (a, b)"
| "run_loop pub (arm # arms) a b =
     (if actor_phase a \<noteq> Running then Some (a, b)
      else case run_iteration pub arm a b of
             None \<Rightarrow> None
           | Some (a', b') \<Rightarrow> run_loop pub arms a' b')"

definition actor_Run :: "'b publisher \<Rightarrow> ctx \<Rightarrow> run_arm list \<Rightarrow> actor \<Rightarrow> 'b \<Rightarrow> (actor \<times> 'b) option" where
  "actor_Run pub c arms a b =
     (case actor_start pub c a b of None \<Rightarrow> None | Some (a', b') \<Rightarrow> run_loop pub arms a' b')"

definition actor_done :: "actor \<Rightarrow> bool" where
  "actor_done a = (case actor_phase a of Exited _ \<Rightarrow> True | _ \<Rightarrow> False)"

definition actor_Snapshot :: "actor \<Rightarrow> call" where
  "actor_Snapshot a = actor_snapshot a"

text \<open>
  The two \<open>select\<close> statements of \<open>Transition\<close>, run by the caller: an outcome is possible exactly
  when its arm is ready. \<open>None\<close> in the first is the arm that queued the command.
\<close>

inductive Transition_enqueue :: "ctx \<Rightarrow> command \<Rightarrow> actor \<Rightarrow> actor \<Rightarrow> go_error option \<Rightarrow> bool" where
  enqueue_closed: "actor_done a \<Longrightarrow> Transition_enqueue c cmd a a (Some ErrActorClosed)"
| enqueue_ctx: "ctx_Err c = Some e \<Longrightarrow> Transition_enqueue c cmd a a (Some e)"
| enqueue_sent: "chan_send cmd (actor_mailbox a) = Some m \<Longrightarrow>
    Transition_enqueue c cmd a (a\<lparr>actor_mailbox := m\<rparr>) None"

inductive Transition_await :: "ctx \<Rightarrow> command \<Rightarrow> actor \<Rightarrow> go_error option \<Rightarrow> bool" where
  await_reply: "(cmd_ticket cmd, r) \<in> set (actor_replies a) \<Longrightarrow> Transition_await c cmd a r"
| await_closed: "actor_done a \<Longrightarrow> Transition_await c cmd a (Some ErrActorClosed)"
| await_ctx: "ctx_Err c = Some e \<Longrightarrow> Transition_await c cmd a (Some e)"

subsection \<open>Specification: the lifecycle a log of events tells\<close>

text \<open>
  \<open>lifecycle cl log s\<close>: the log is empty, or it starts with the event that announces the call
  \<open>cl\<close> and every later event continues from the state the one before it reached by an allowed
  transition, ending in \<open>s\<close>; every event carries the identifiers of \<open>cl\<close>.
\<close>

fun chain :: "state \<Rightarrow> event list \<Rightarrow> state \<Rightarrow> bool" where
  "chain s [] t = (s = t)"
| "chain s (e # es) t =
     (ev_OldState e = s \<and> allowedTransition s (ev_NewState e) \<and> chain (ev_NewState e) es t)"

definition correlated :: "call \<Rightarrow> event \<Rightarrow> bool" where
  "correlated cl e \<longleftrightarrow>
     ev_CallID e = call_ID cl \<and> ev_TenantID e = call_TenantID cl \<and> ev_NodeID e = call_NodeID cl \<and>
     ev_CallerLeg e = call_CallerLeg cl \<and> ev_CalleeLeg e = call_CalleeLeg cl \<and>
     ev_Direction e = call_Direction cl"

definition announces :: "call \<Rightarrow> event \<Rightarrow> bool" where
  "announces cl e \<longleftrightarrow>
     ev_ProtocolEvent e = ''created'' \<and> ev_OldState e = call_State cl \<and> ev_NewState e = OtherState ''''"

definition lifecycle :: "call \<Rightarrow> event list \<Rightarrow> state \<Rightarrow> bool" where
  "lifecycle cl log s \<longleftrightarrow>
     (case log of
        [] \<Rightarrow> s = call_State cl
      | e # es \<Rightarrow> announces cl e \<and> chain (call_State cl) es s) \<and>
     (\<forall>e \<in> set log. correlated cl e)"

definition same_identity :: "call \<Rightarrow> call \<Rightarrow> bool" where
  "same_identity cl cl' \<longleftrightarrow>
     call_ID cl' = call_ID cl \<and> call_TenantID cl' = call_TenantID cl \<and>
     call_NodeID cl' = call_NodeID cl \<and> call_Direction cl' = call_Direction cl \<and>
     call_CallerLeg cl' = call_CallerLeg cl \<and> call_CalleeLeg cl' = call_CalleeLeg cl \<and>
     call_StartedAt cl' = call_StartedAt cl"

definition numbered :: "event list \<Rightarrow> actor \<Rightarrow> bool" where
  "numbered log a \<longleftrightarrow>
     (\<exists>ks n. map ev_Sequence log = map of_nat ks \<and> sorted_wrt (<) ks \<and>
        (\<forall>k \<in> set ks. k \<le> n) \<and> actor_sequence a = of_nat n \<and> n \<le> actor_reads a)"

fun phase_ok :: "phase \<Rightarrow> event list \<Rightarrow> state \<Rightarrow> bool" where
  "phase_ok Stopped log s = (log = [])"
| "phase_ok Running log s = (log \<noteq> [] \<and> \<not> isTerminal s)"
| "phase_ok (Exited None) log s = (log \<noteq> [] \<and> isTerminal s)"
| "phase_ok (Exited (Some e)) log s = (\<not> isTerminal s)"

definition actor_inv :: "call \<Rightarrow> actor \<Rightarrow> event list \<Rightarrow> bool" where
  "actor_inv cl a log \<longleftrightarrow>
     same_identity cl (actor_call a) \<and> same_identity cl (actor_snapshot a) \<and>
     call_State (actor_snapshot a) = call_State (actor_call a) \<and>
     lifecycle cl log (call_State (actor_call a)) \<and> numbered log a \<and>
     chan_ok (actor_mailbox a) \<and>
     phase_ok (actor_phase a) log (call_State (actor_call a))"

subsection \<open>Interleavings\<close>

text \<open>
  What can happen around one actor: its goroutine starts, runs an iteration of its loop, a client
  submits a transition, or the environment moves the publisher's state (a consumer takes events
  away).
\<close>

inductive actor_step ::
  "'b publisher \<Rightarrow> ('b \<Rightarrow> 'b \<Rightarrow> bool) \<Rightarrow> actor \<times> 'b \<Rightarrow> actor \<times> 'b \<Rightarrow> bool"
  for pub env where
  step_start: "actor_phase a = Stopped \<Longrightarrow> actor_start pub c a b = Some (a', b') \<Longrightarrow>
    actor_step pub env (a, b) (a', b')"
| step_run: "actor_phase a = Running \<Longrightarrow> run_iteration pub arm a b = Some (a', b') \<Longrightarrow>
    actor_step pub env (a, b) (a', b')"
| step_submit: "Transition_enqueue c cmd a a' r \<Longrightarrow> actor_step pub env (a, b) (a', b)"
| step_env: "env b b' \<Longrightarrow> actor_step pub env (a, b) (a, b')"

inductive_cases actor_stepE: "actor_step pub env s s'"

inductive actor_reach ::
  "'b publisher \<Rightarrow> ('b \<Rightarrow> 'b \<Rightarrow> bool) \<Rightarrow> actor \<times> 'b \<Rightarrow> actor \<times> 'b \<Rightarrow> bool"
  for pub env s0 where
  reach_refl: "actor_reach pub env s0 s0"
| reach_step: "actor_reach pub env s0 s \<Longrightarrow> actor_step pub env s s' \<Longrightarrow> actor_reach pub env s0 s'"

subsection \<open>Lemmas on the state machine\<close>

lemma isTerminal_simps [simp]:
  "isTerminal StateTerminated" "isTerminal StateFailed" "\<not> isTerminal StateNew"
  "\<not> isTerminal StateTerminating" "\<not> isTerminal StateAnswered"
  by (simp_all add: isTerminal_def)

lemma terminal_no_transition: "isTerminal s \<Longrightarrow> \<not> allowedTransition s t"
  by (auto simp: isTerminal_def)

lemma allowedTransition_neq: "allowedTransition s t \<Longrightarrow> s \<noteq> t"
  by (cases s) auto

lemma allowedTransition_target: "allowedTransition s t \<Longrightarrow> t \<noteq> OtherState x"
  by (cases s) auto

lemma chain_append: "chain s (xs @ ys) u \<longleftrightarrow> (\<exists>t. chain s xs t \<and> chain t ys u)"
  by (induction xs arbitrary: s) auto

lemma chain_snoc:
  "chain s es t \<Longrightarrow> ev_OldState e = t \<Longrightarrow> allowedTransition t (ev_NewState e) \<Longrightarrow>
     chain s (es @ [e]) (ev_NewState e)"
  by (auto simp: chain_append)

lemma enter_state_simps [simp]:
  "call_State (enter_state t now cl) = tr_State t"
  "same_identity c0 (enter_state t now cl) = same_identity c0 cl"
  "call_ID (enter_state t now cl) = call_ID cl"
  "call_TenantID (enter_state t now cl) = call_TenantID cl"
  "call_NodeID (enter_state t now cl) = call_NodeID cl"
  "call_Direction (enter_state t now cl) = call_Direction cl"
  "call_CallerLeg (enter_state t now cl) = call_CallerLeg cl"
  "call_CalleeLeg (enter_state t now cl) = call_CalleeLeg cl"
  by (simp_all add: enter_state_def same_identity_def Let_def)

lemma same_identity_state [simp]: "same_identity c0 (cl\<lparr>call_State := s\<rparr>) = same_identity c0 cl"
  by (simp add: same_identity_def)

lemma lifecycle_snoc:
  assumes "lifecycle cl log s" and "log \<noteq> []" and "ev_OldState e = s"
    and "allowedTransition s (ev_NewState e)" and "correlated cl e"
  shows "lifecycle cl (log @ [e]) (ev_NewState e)"
  using assms by (cases log) (auto simp: lifecycle_def chain_append)

lemma lifecycle_first:
  "lifecycle cl [e] (call_State cl) \<longleftrightarrow> announces cl e \<and> correlated cl e"
  by (simp add: lifecycle_def)

lemma numbered_refused:
  assumes "numbered log a" and "actor_sequence a' = actor_sequence a + 1"
    and "actor_reads a < actor_reads a'"
  shows "numbered log a'"
proof -
  from assms(1) obtain ks n where ks: "map ev_Sequence log = map of_nat ks" "sorted_wrt (<) ks"
    "\<forall>k \<in> set ks. k \<le> n" "actor_sequence a = of_nat n" "n \<le> actor_reads a"
    unfolding numbered_def by blast
  have "\<forall>k \<in> set ks. k \<le> Suc n" using ks(3) by auto
  moreover have "actor_sequence a' = of_nat (Suc n)" "Suc n \<le> actor_reads a'"
    using ks(4,5) assms(2,3) by simp_all
  ultimately show ?thesis using ks(1,2) unfolding numbered_def by blast
qed

lemma numbered_snoc:
  assumes "numbered log a" and "actor_sequence a' = actor_sequence a + 1"
    and "actor_reads a < actor_reads a'" and "ev_Sequence e = actor_sequence a'"
  shows "numbered (log @ [e]) a'"
proof -
  from assms(1) obtain ks n where ks: "map ev_Sequence log = map of_nat ks" "sorted_wrt (<) ks"
    "\<forall>k \<in> set ks. k \<le> n" "actor_sequence a = of_nat n" "n \<le> actor_reads a"
    unfolding numbered_def by blast
  with assms have "map ev_Sequence (log @ [e]) = map of_nat (ks @ [Suc n]) \<and> sorted_wrt (<) (ks @ [Suc n]) \<and>
      (\<forall>k \<in> set (ks @ [Suc n]). k \<le> Suc n) \<and> actor_sequence a' = of_nat (Suc n) \<and> Suc n \<le> actor_reads a'"
    by (auto simp: sorted_wrt_append add.commute less_Suc_eq_le)
  then show ?thesis unfolding numbered_def by blast
qed

lemma numbered_frame [simp]:
  "numbered log (a\<lparr>actor_mailbox := m\<rparr>) = numbered log a"
  "numbered log (a\<lparr>actor_phase := ph\<rparr>) = numbered log a"
  "numbered log (a\<lparr>actor_replies := rs\<rparr>) = numbered log a"
  by (simp_all add: numbered_def)

text \<open>The event \<open>apply\<close> builds for a transition \<open>t\<close> of the actor \<open>a\<close>.\<close>

definition transition_event :: "transition \<Rightarrow> actor \<Rightarrow> event" where
  "transition_event t a =
     \<lparr>ev_Sequence = actor_sequence a + 1, ev_TenantID = call_TenantID (actor_call a),
      ev_CallID = call_ID (actor_call a), ev_LegID = tr_LegID t, ev_NodeID = call_NodeID (actor_call a),
      ev_CallerLeg = call_CallerLeg (actor_call a), ev_CalleeLeg = call_CalleeLeg (actor_call a),
      ev_Direction = call_Direction (actor_call a), ev_OldState = call_State (actor_call a),
      ev_NewState = tr_State t, ev_Reason = tr_Reason t, ev_ProtocolEvent = tr_ProtocolEvent t,
      ev_OccurredAt = actor_clock a (Suc (actor_reads a))\<rparr>"

definition entered :: "transition \<Rightarrow> actor \<Rightarrow> actor" where
  "entered t a =
     a\<lparr>actor_call := enter_state t (actor_clock a (actor_reads a)) (actor_call a),
       actor_sequence := actor_sequence a + 1, actor_reads := Suc (Suc (actor_reads a))\<rparr>"

lemma actor_apply_effective:
  assumes "tr_State t \<noteq> call_State (actor_call a)"
    and "allowedTransition (call_State (actor_call a)) (tr_State t)"
  shows "actor_apply pub c t a b =
     (case pub c (transition_event t a) b of
        None \<Rightarrow> None
      | Some (b', Some e) \<Rightarrow>
          Some ((entered t a)\<lparr>actor_call := (actor_call (entered t a))\<lparr>call_State := call_State (actor_call a)\<rparr>\<rparr>,
                b', Some (Wrapf ''publish call transition: %w'' e))
      | Some (b', None) \<Rightarrow> Some (storeSnapshot (entered t a), b', None))"
  using assms
  by (auto simp: actor_apply_def actor_publish_def clock_Now_def transition_event_def entered_def Let_def
      split: option.splits)

lemma actor_apply_cases:
  assumes "actor_apply pub c t a b = Some (a', b', r)"
  obtains
    (same) "tr_State t = call_State (actor_call a)" "a' = a" "b' = b" "r = None"
  | (invalid) "tr_State t \<noteq> call_State (actor_call a)"
      "\<not> allowedTransition (call_State (actor_call a)) (tr_State t)" "a' = a" "b' = b"
      "r = Some (Wrapf ''%w: %s to %s'' ErrInvalidTransition)"
  | (refused) e where "allowedTransition (call_State (actor_call a)) (tr_State t)"
      "pub c (transition_event t a) b = Some (b', Some e)"
      "a' = (entered t a)\<lparr>actor_call := (actor_call (entered t a))\<lparr>call_State := call_State (actor_call a)\<rparr>\<rparr>"
      "r = Some (Wrapf ''publish call transition: %w'' e)"
  | (accepted) "allowedTransition (call_State (actor_call a)) (tr_State t)"
      "pub c (transition_event t a) b = Some (b', None)"
      "a' = storeSnapshot (entered t a)" "r = None"
proof (cases "tr_State t = call_State (actor_call a)")
  case True
  with assms have "a' = a" "b' = b" "r = None" by (simp_all add: actor_apply_def)
  with True show ?thesis by (rule same)
next
  case neq: False
  show ?thesis
  proof (cases "allowedTransition (call_State (actor_call a)) (tr_State t)")
    case True
    note eff = actor_apply_effective [OF neq True, of pub c b]
    show ?thesis
    proof (cases "pub c (transition_event t a) b")
      case None
      with assms eff show ?thesis by simp
    next
      case (Some p)
      obtain b1 r1 where p: "p = (b1, r1)" by (cases p)
      show ?thesis
      proof (cases r1)
        case None
        with assms eff Some p have "a' = storeSnapshot (entered t a)" "b' = b1" "r = None" by simp_all
        with Some p None have "pub c (transition_event t a) b = Some (b', None)" by simp
        with True show ?thesis using \<open>a' = _\<close> \<open>r = None\<close> by (rule accepted)
      next
        case (Some e)
        with assms eff \<open>pub c (transition_event t a) b = Some p\<close> p
        have "a' = (entered t a)\<lparr>actor_call := (actor_call (entered t a))\<lparr>call_State := call_State (actor_call a)\<rparr>\<rparr>"
          "b' = b1" "r = Some (Wrapf ''publish call transition: %w'' e)" by simp_all
        moreover from this have "pub c (transition_event t a) b = Some (b', Some e)"
          using \<open>pub c (transition_event t a) b = Some p\<close> p Some by simp
        ultimately show ?thesis using True by (intro refused [of e])
      qed
    qed
  next
    case False
    with neq assms have "a' = a" "b' = b" "r = Some (Wrapf ''%w: %s to %s'' ErrInvalidTransition)"
      by (simp_all add: actor_apply_def)
    with neq False show ?thesis by (rule invalid)
  qed
qed

lemma entered_simps [simp]:
  "actor_mailbox (entered t a) = actor_mailbox a" "actor_phase (entered t a) = actor_phase a"
  "actor_snapshot (entered t a) = actor_snapshot a" "actor_replies (entered t a) = actor_replies a"
  "actor_clock (entered t a) = actor_clock a" "call_State (actor_call (entered t a)) = tr_State t"
  "same_identity cl (actor_call (entered t a)) = same_identity cl (actor_call a)"
  "actor_sequence (entered t a) = actor_sequence a + 1"
  "actor_reads (entered t a) = Suc (Suc (actor_reads a))"
  by (simp_all add: entered_def)

lemma storeSnapshot_simps [simp]:
  "actor_mailbox (storeSnapshot a) = actor_mailbox a" "actor_phase (storeSnapshot a) = actor_phase a"
  "actor_snapshot (storeSnapshot a) = actor_call a" "actor_call (storeSnapshot a) = actor_call a"
  "actor_replies (storeSnapshot a) = actor_replies a" "actor_clock (storeSnapshot a) = actor_clock a"
  "actor_sequence (storeSnapshot a) = actor_sequence a" "actor_reads (storeSnapshot a) = actor_reads a"
  by (simp_all add: storeSnapshot_def)

lemma transition_event_simps [simp]:
  "ev_OldState (transition_event t a) = call_State (actor_call a)"
  "ev_NewState (transition_event t a) = tr_State t"
  "ev_Sequence (transition_event t a) = actor_sequence a + 1"
  "ev_Reason (transition_event t a) = tr_Reason t"
  "ev_ProtocolEvent (transition_event t a) = tr_ProtocolEvent t"
  "ev_LegID (transition_event t a) = tr_LegID t"
  "ev_OccurredAt (transition_event t a) = actor_clock a (Suc (actor_reads a))"
  by (simp_all add: transition_event_def)

lemma correlated_transition_event [simp]:
  "same_identity cl (actor_call a) \<Longrightarrow> correlated cl (transition_event t a)"
  by (simp add: correlated_def transition_event_def same_identity_def)

subsection \<open>The publisher interface\<close>

text \<open>
  What an actor relies on of its publisher: an event whose publication returns no error has been
  appended to the accepted events, one whose publication fails has not, the environment's steps
  on the publisher never take back an accepted event, and both keep the publisher's invariant.
\<close>

locale call_publisher =
  fixes pub :: "'b publisher" and env :: "'b \<Rightarrow> 'b \<Rightarrow> bool" and accepted :: "'b \<Rightarrow> event list"
    and bus_inv :: "'b \<Rightarrow> bool"
  assumes accept: "pub c e b = Some (b', None) \<Longrightarrow> accepted b' = accepted b @ [e]"
    and refuse: "pub c e b = Some (b', Some err) \<Longrightarrow> accepted b' = accepted b"
    and env_accepted: "env b b' \<Longrightarrow> accepted b' = accepted b"
    and pub_inv: "pub c e b = Some (b', r) \<Longrightarrow> bus_inv b \<Longrightarrow> bus_inv b'"
    and env_inv: "env b b' \<Longrightarrow> bus_inv b \<Longrightarrow> bus_inv b'"
begin

lemma apply_bus:
  assumes "actor_apply pub c t a b = Some (a', b', r)" and "bus_inv b"
  shows "bus_inv b'"
  using assms(1) by (cases rule: actor_apply_cases) (use assms(2) pub_inv in blast)+

lemma start_bus:
  assumes "actor_start pub c a b = Some (a', b')" and "bus_inv b"
  shows "bus_inv b'"
proof -
  from assms(1) obtain e r where "pub c e b = Some (b', r)"
    by (auto simp: actor_start_def actor_publish_def clock_Now_def Let_def split: option.splits)
  then show ?thesis using assms(2) by (rule pub_inv)
qed

lemma iteration_bus:
  assumes "run_iteration pub arm a b = Some (a', b')" and "bus_inv b"
  shows "bus_inv b'"
proof (cases arm)
  case (ArmDone c1 c2)
  with assms show ?thesis
    by (auto simp: actor_shutdown_def split: if_splits option.splits) (metis apply_bus)+
next
  case (ArmCommand c)
  with assms show ?thesis
    by (auto simp: actor_receive_def Let_def split: option.splits) (metis apply_bus)+
qed

lemma step_bus:
  assumes "actor_step pub env (a, b) (a', b')" and "bus_inv b"
  shows "bus_inv b'"
  using assms(1) by cases (use assms(2) start_bus iteration_bus env_inv in blast)+

lemma reach_bus:
  assumes "actor_reach pub env (a0, b0) s" and "bus_inv b0"
  shows "bus_inv (snd s)"
  using assms(1)
proof induction
  case reach_refl
  then show ?case using assms(2) by simp
next
  case (reach_step s s')
  then show ?case using step_bus [of "fst s" "snd s" "fst s'" "snd s'"] by simp
qed

text \<open>The part of the invariant an application of a transition keeps, in every phase.\<close>

lemma apply_inv:
  assumes "actor_apply pub c t a b = Some (a', b', r)"
    and "same_identity cl (actor_call a)" "same_identity cl (actor_snapshot a)"
    and "call_State (actor_snapshot a) = call_State (actor_call a)"
    and "lifecycle cl (accepted b) (call_State (actor_call a))" "accepted b \<noteq> []"
    and "numbered (accepted b) a"
  shows "same_identity cl (actor_call a') \<and> same_identity cl (actor_snapshot a') \<and>
     call_State (actor_snapshot a') = call_State (actor_call a') \<and>
     lifecycle cl (accepted b') (call_State (actor_call a')) \<and> accepted b' \<noteq> [] \<and>
     numbered (accepted b') a' \<and> actor_mailbox a' = actor_mailbox a \<and> actor_phase a' = actor_phase a \<and>
     actor_replies a' = actor_replies a \<and>
     (r = None \<longrightarrow> call_State (actor_call a') = tr_State t) \<and>
     (r \<noteq> None \<longrightarrow> call_State (actor_call a') = call_State (actor_call a))"
  using assms(1)
proof (cases rule: actor_apply_cases)
  case (refused e)
  then show ?thesis using assms refuse [OF refused(2)]
    by (simp add: numbered_refused)
next
  case accepted
  have "lifecycle cl (accepted b @ [transition_event t a]) (ev_NewState (transition_event t a))"
    using assms accepted(1) by (intro lifecycle_snoc) simp_all
  moreover have "numbered (accepted b @ [transition_event t a]) a'"
    by (rule numbered_snoc [of _ a]) (use assms(7) accepted(3) in simp_all)
  ultimately show ?thesis using assms accepted accept [OF accepted(2)] by simp
qed (use assms in simp_all)

lemma start_inv:
  assumes "actor_start pub c a b = Some (a', b')" and "actor_inv cl a (accepted b)"
    and "actor_phase a = Stopped" and "\<not> isTerminal (call_State cl)"
  shows "actor_inv cl a' (accepted b')"
proof -
  from assms(2,3) have inv: "accepted b = []" "same_identity cl (actor_call a)"
    "same_identity cl (actor_snapshot a)" "call_State (actor_snapshot a) = call_State (actor_call a)"
    "call_State (actor_call a) = call_State cl" "numbered (accepted b) a" "chan_ok (actor_mailbox a)"
    by (auto simp: actor_inv_def lifecycle_def)
  from assms(1) obtain e r where e: "pub c e b = Some (b', r)"
    "announces cl e" "correlated cl e" "ev_Sequence e = actor_sequence a + 1"
    and a': "a' = a\<lparr>actor_sequence := actor_sequence a + 1, actor_reads := Suc (actor_reads a),
               actor_phase := (case r of None \<Rightarrow> Running
                  | Some x \<Rightarrow> Exited (Some (Wrapf ''publish initial call event: %w'' x)))\<rparr>"
    using inv(2,5)
    by (auto simp: actor_start_def actor_publish_def clock_Now_def Let_def announces_def correlated_def
        same_identity_def split: option.splits)
  show ?thesis
  proof (cases r)
    case None
    have "numbered (accepted b @ [e]) a'"
      by (rule numbered_snoc [of _ a]) (use inv(6) a' e(4) in simp_all)
    with None e a' inv assms(4) accept [of c e b b'] show ?thesis
      by (simp add: actor_inv_def lifecycle_def)
  next
    case (Some x)
    have "numbered (accepted b) a'"
      by (rule numbered_refused [of _ a]) (use inv(6) a' in simp_all)
    with Some e a' inv assms(4) refuse [of c e b b' x] show ?thesis
      by (simp add: actor_inv_def lifecycle_def)
  qed
qed

lemma receive_inv:
  assumes "actor_receive pub c a b = Some (a', b')" and "actor_inv cl a (accepted b)"
    and "actor_phase a = Running"
  shows "actor_inv cl a' (accepted b')"
proof -
  from assms(1) obtain cmd m a1 r where m: "chan_recv (actor_mailbox a) = Some (cmd, m)"
    and ap: "actor_apply pub c (cmd_transition cmd) (a\<lparr>actor_mailbox := m\<rparr>) b = Some (a1, b', r)"
    and a': "a' = (let a2 = a1\<lparr>actor_replies := actor_replies a1 @ [(cmd_ticket cmd, r)]\<rparr>
             in if r = None \<and> isTerminal (call_State (actor_call a2)) then a2\<lparr>actor_phase := Exited None\<rparr> else a2)"
    by (auto simp: actor_receive_def Let_def split: option.splits)
  have mb: "chan_ok m"
    using assms(2) m by (auto simp: actor_inv_def chan_recv_Some chan_ok_def)
  have "same_identity cl (actor_call a1) \<and> same_identity cl (actor_snapshot a1) \<and>
     call_State (actor_snapshot a1) = call_State (actor_call a1) \<and>
     lifecycle cl (accepted b') (call_State (actor_call a1)) \<and> accepted b' \<noteq> [] \<and>
     numbered (accepted b') a1 \<and> actor_mailbox a1 = m \<and> actor_phase a1 = Running \<and>
     (r \<noteq> None \<longrightarrow> call_State (actor_call a1) = call_State (actor_call a))"
    using apply_inv [OF ap, of cl] assms(2,3) by (simp add: actor_inv_def)
  then show ?thesis using a' mb assms(2,3)
    by (auto simp: actor_inv_def Let_def)
qed

lemma shutdown_inv:
  assumes "actor_shutdown pub c1 c2 a b = Some (a', b')" and "actor_inv cl a (accepted b)"
    and "actor_phase a = Running"
  shows "actor_inv cl a' (accepted b')"
proof -
  from assms(2,3) have nt: "\<not> isTerminal (call_State (actor_call a))" by (simp add: actor_inv_def)
  with assms(1) obtain a1 b1 r1 where
    ap1: "actor_apply pub c1 (shutdown_transition StateTerminating) a b = Some (a1, b1, r1)"
    by (auto simp: actor_shutdown_def split: option.splits)
  note inv1 = apply_inv [OF ap1, of cl]
  show ?thesis
  proof (cases r1)
    case (Some e)
    with assms nt ap1 inv1 show ?thesis
      by (auto simp: actor_shutdown_def actor_inv_def)
  next
    case None
    with assms(1) nt ap1 obtain a2 r2 where
      ap2: "actor_apply pub c2 (shutdown_transition StateTerminated) a1 b1 = Some (a2, b', r2)"
      and a': "a' = a2\<lparr>actor_phase := Exited r2\<rparr>"
      by (auto simp: actor_shutdown_def split: option.splits)
    have st1: "call_State (actor_call a1) = StateTerminating"
      using inv1 None assms(2,3) by (simp add: actor_inv_def shutdown_transition_def)
    show ?thesis using apply_inv [OF ap2, of cl] inv1 assms(2,3) a' st1
      by (cases r2) (auto simp: actor_inv_def shutdown_transition_def)
  qed
qed

lemma enqueue_inv:
  assumes "Transition_enqueue c cmd a a' r" and "actor_inv cl a log"
  shows "actor_inv cl a' log"
  using assms by cases (auto simp: actor_inv_def chan_send_Some chan_ok_def)

lemma step_inv:
  assumes "actor_step pub env (a, b) (a', b')" and "actor_inv cl a (accepted b)"
    and "\<not> isTerminal (call_State cl)"
  shows "actor_inv cl a' (accepted b')"
  using assms(1)
proof cases
  case (step_start c)
  then show ?thesis using start_inv assms(2,3) by blast
next
  case (step_run arm)
  then show ?thesis using receive_inv shutdown_inv assms(2) by (cases arm) auto
next
  case (step_submit c cmd r)
  then show ?thesis using enqueue_inv assms(2) by blast
next
  case step_env
  then show ?thesis using env_accepted assms(2) by simp
qed

lemma reach_inv:
  assumes "actor_reach pub env (a0, b0) s" and "actor_inv cl a0 (accepted b0)"
    and "\<not> isTerminal (call_State cl)"
  shows "actor_inv cl (fst s) (accepted (snd s))"
  using assms(1)
proof induction
  case reach_refl
  then show ?case using assms(2) by simp
next
  case (reach_step s s')
  then show ?case using step_inv [of "fst s" "snd s" "fst s'" "snd s'" cl] assms(3) by simp
qed

end

subsection \<open>Consequences of the lifecycle\<close>

lemma chain_terminal:
  assumes "chain s es t" and "isTerminal s"
  shows "es = []"
  using assms by (cases es) (auto simp: terminal_no_transition)

lemma chain_terminal_last:
  assumes "chain s (xs @ e # ys) t" and "isTerminal (ev_NewState e)"
  shows "ys = []"
  using assms by (auto simp: chain_append dest: chain_terminal)

lemma lifecycle_terminal_last:
  assumes "lifecycle cl (xs @ e # ys) t" and "isTerminal (ev_NewState e)" and "xs \<noteq> []"
  shows "ys = []"
  using assms chain_terminal_last by (cases xs) (auto simp: lifecycle_def)

lemma chain_known:
  assumes "chain s es t" and "\<And>x. s \<noteq> OtherState x"
  shows "t \<noteq> OtherState x"
  using assms
proof (induction es arbitrary: s)
  case (Cons e es)
  then show ?case using allowedTransition_target by (metis chain.simps(2))
qed simp

lemma lifecycle_known:
  "lifecycle cl log s \<Longrightarrow> call_State cl = StateNew \<Longrightarrow> s \<noteq> OtherState x"
  using chain_known by (cases log) (auto simp: lifecycle_def)

lemma numbered_strict:
  assumes "numbered log a" and "actor_reads a < 2 ^ 64"
  shows "sorted_wrt (\<lambda>e f. ev_Sequence e < ev_Sequence f) log"
proof -
  from assms(1) obtain ks n where ks: "map ev_Sequence log = map of_nat ks" "sorted_wrt (<) ks"
    "\<forall>k \<in> set ks. k \<le> n" "n \<le> actor_reads a"
    unfolding numbered_def by blast
  have "sorted_wrt (\<lambda>i j. (of_nat i :: 64 word) < of_nat j) ks"
  proof (rule sorted_wrt_mono_rel [OF _ ks(2)])
    fix i j
    assume "i \<in> set ks" "j \<in> set ks" "i < j"
    then have "i < 2 ^ 64" "j < 2 ^ 64" using ks(3,4) assms(2) by force+
    with \<open>i < j\<close> show "(of_nat i :: 64 word) < of_nat j"
      by (simp add: word_less_nat_alt unat_of_nat)
  qed
  then have "sorted_wrt (<) (map ev_Sequence log)" by (simp add: ks(1) sorted_wrt_map)
  then show ?thesis by (simp add: sorted_wrt_map)
qed

lemma NewActor_inv:
  assumes "NewActor cap cl p clk = Inr a"
  shows "actor_inv cl a []" and "actor_phase a = Stopped"
  using assms
  by (auto simp: NewActor_def actor_inv_def same_identity_def lifecycle_def numbered_def
      split: if_splits option.splits)

end
