(* ===== verification/Event_Bus.thy ===== *)
theory Event_Bus
  imports Call
begin

text \<open>
  \<open>internal/event\<close>: the bounded single-consumer queues between producers and persistence. The
  contract both queues promise is the locale \<open>event_bus\<close>; \<open>CallBus\<close> of \<open>call_bus.go\<close> is modelled
  and interpreted here. A writer is a parameter \<open>wr c e w\<close> of the consumer loop, over the
  state \<open>w\<close> of the store behind it.
\<close>

subsection \<open>The call event queue\<close>

datatype serve = Serving | Returned "go_error option"

type_synonym ('e, 'w) writer = "ctx \<Rightarrow> 'e \<Rightarrow> 'w \<Rightarrow> 'w \<times> go_error option"

type_synonym ('e, 'b) bus_publish = "ctx \<Rightarrow> 'e \<Rightarrow> 'b \<Rightarrow> ('b \<times> go_error option) option"

type_synonym ('e, 'b, 'w) bus_deliver =
  "ctx \<Rightarrow> ('e, 'w) writer \<Rightarrow> 'b \<Rightarrow> 'w \<Rightarrow> ('b \<times> 'w \<times> serve) option"

definition NewCallBus :: "int \<Rightarrow> event chan result" where
  "NewCallBus capacity =
     (if capacity \<le> 0 then Inl (Errorf ''call event capacity must be positive'')
      else Inr (chan_make (nat capacity)))"

definition CallBus_Publish :: "(event, event chan) bus_publish" where
  "CallBus_Publish c e b = select_send c e b"

text \<open>One iteration of the loop of \<open>Run\<close>.\<close>

definition CallBus_deliver :: "(event, event chan, 'w) bus_deliver" where
  "CallBus_deliver c wr b w =
     (case select_recv c b of
        None \<Rightarrow> None
      | Some (ContextDone, b') \<Rightarrow> Some (b', w, Returned None)
      | Some (Received e, b') \<Rightarrow>
          (case wr c e w of
             (w', None) \<Rightarrow> Some (b', w', Serving)
           | (w', Some err) \<Rightarrow> Some (b', w', Returned (Some (Wrapf ''write call event: %w'' err)))))"

fun CallBus_loop ::
  "(event, 'w) writer \<Rightarrow> ctx list \<Rightarrow> event chan \<Rightarrow> 'w \<Rightarrow> (event chan \<times> 'w \<times> serve) option" where
  "CallBus_loop wr [] b w = Some (b, w, Serving)"
| "CallBus_loop wr (c # cs) b w =
     (case CallBus_deliver c wr b w of
        None \<Rightarrow> None
      | Some (b', w', Returned r) \<Rightarrow> Some (b', w', Returned r)
      | Some (b', w', Serving) \<Rightarrow> CallBus_loop wr cs b' w')"

definition CallBus_Run ::
  "(event, 'w) writer option \<Rightarrow> ctx list \<Rightarrow> event chan \<Rightarrow> 'w \<Rightarrow> (event chan \<times> 'w \<times> serve) option" where
  "CallBus_Run writer cs b w =
     (case writer of
        None \<Rightarrow> Some (b, w, Returned (Some (Errorf ''call event writer is required'')))
      | Some wr \<Rightarrow> CallBus_loop wr cs b w)"

definition CallBus_Depth :: "event chan \<Rightarrow> nat" where
  "CallBus_Depth b = length (ch_buf b)"

subsection \<open>Producers, queue and consumer together\<close>

text \<open>
  A history of one queue: the events whose publication succeeded, and those the writer stored.
  The rules are the steps of any number of producers and of the one consumer, in any order.
\<close>

definition logged_write :: "('e, 'w) writer \<Rightarrow> ('e, 'w \<times> 'e list) writer" where
  "logged_write wr c e ws =
     (case wr c e (fst ws) of
        (w', None) \<Rightarrow> ((w', snd ws @ [e]), None)
      | (w', Some err) \<Rightarrow> ((w', snd ws), Some err))"

record ('b, 'e, 'w) bus_history =
  bh_bus :: 'b
  bh_sent :: "'e list"
  bh_writer :: 'w
  bh_stored :: "'e list"
  bh_serve :: serve

definition history_publish ::
  "('e, 'b) bus_publish \<Rightarrow> ('e, ('b, 'e, 'w) bus_history) bus_publish" where
  "history_publish publish c e h =
     (case publish c e (bh_bus h) of
        None \<Rightarrow> None
      | Some (b, None) \<Rightarrow> Some (h\<lparr>bh_bus := b, bh_sent := bh_sent h @ [e]\<rparr>, None)
      | Some (b, Some err) \<Rightarrow> Some (h\<lparr>bh_bus := b\<rparr>, Some err))"

definition history_deliver ::
  "('e, 'b, 'w \<times> 'e list) bus_deliver \<Rightarrow> ('e, 'w) writer \<Rightarrow> ctx \<Rightarrow> ('b, 'e, 'w) bus_history \<Rightarrow> ('b, 'e, 'w) bus_history option" where
  "history_deliver deliver wr c h =
     (if bh_serve h \<noteq> Serving then None
      else case deliver c (logged_write wr) (bh_bus h) (bh_writer h, bh_stored h) of
             None \<Rightarrow> None
           | Some (b, (w, stored), sv) \<Rightarrow>
               Some (h\<lparr>bh_bus := b, bh_writer := w, bh_stored := stored, bh_serve := sv\<rparr>))"

inductive bus_step ::
  "('e, 'b) bus_publish \<Rightarrow> ('e, 'b, 'w \<times> 'e list) bus_deliver \<Rightarrow> ('e, 'w) writer \<Rightarrow>
   ('b, 'e, 'w) bus_history \<Rightarrow> ('b, 'e, 'w) bus_history \<Rightarrow> bool"
  for publish :: "('e, 'b) bus_publish" and deliver :: "('e, 'b, 'w \<times> 'e list) bus_deliver"
    and wr :: "('e, 'w) writer" where
  bus_produce: "history_publish publish c e h = Some (h', r) \<Longrightarrow> bus_step publish deliver wr h h'"
| bus_consume: "history_deliver deliver wr c h = Some h' \<Longrightarrow> bus_step publish deliver wr h h'"

definition new_history :: "'b \<Rightarrow> 'w \<Rightarrow> ('b, 'e, 'w) bus_history" where
  "new_history b w = \<lparr>bh_bus = b, bh_sent = [], bh_writer = w, bh_stored = [], bh_serve = Serving\<rparr>"

text \<open>
  Nothing is lost, duplicated or reordered: what was sent is what was stored followed by what is
  queued, with the one event in between whose writer failed, after which the consumer has stopped.
\<close>

definition fifo :: "('b \<Rightarrow> 'e list) \<Rightarrow> ('b, 'e, 'w) bus_history \<Rightarrow> bool" where
  "fifo contents h \<longleftrightarrow>
     (case bh_serve h of
        Returned (Some _) \<Rightarrow> \<exists>e. bh_sent h = bh_stored h @ e # contents (bh_bus h)
      | _ \<Rightarrow> bh_sent h = bh_stored h @ contents (bh_bus h))"

subsection \<open>The queue interface\<close>

locale event_bus =
  fixes new :: "int \<Rightarrow> 'b result"
    and publish :: "('e, 'b) bus_publish" and deliver :: "('e, 'b, 'w \<times> 'e list) bus_deliver"
    and depth :: "'b \<Rightarrow> nat" and contents :: "'b \<Rightarrow> 'e list" and capacity :: "'b \<Rightarrow> nat"
  assumes new_bus: "new n = Inr b \<Longrightarrow> contents b = [] \<and> capacity b = nat n \<and> 0 < n"
    and publish_sent: "publish c e b = Some (b', None) \<Longrightarrow>
      depth b < capacity b \<and> contents b' = contents b @ [e] \<and> capacity b' = capacity b"
    and publish_refused: "publish c e b = Some (b', Some err) \<Longrightarrow> b' = b \<and> ctx_Err c = Some err"
    and publish_blocked: "publish c e b = None \<longleftrightarrow> ctx_Err c = None \<and> capacity b \<le> depth b"
    and deliver_stored: "deliver c wr b w = Some (b', w', Serving) \<Longrightarrow>
      \<exists>e. contents b = e # contents b' \<and> capacity b' = capacity b \<and> wr c e w = (w', None)"
    and deliver_failed: "deliver c wr b w = Some (b', w', Returned (Some err)) \<Longrightarrow>
      \<exists>e x. contents b = e # contents b' \<and> capacity b' = capacity b \<and> wr c e w = (w', Some x)"
    and deliver_stopped: "deliver c wr b w = Some (b', w', Returned None) \<Longrightarrow>
      b' = b \<and> w' = w \<and> ctx_Err c \<noteq> None"
    and depth_contents: "depth b = length (contents b)"
begin

lemma step_fifo:
  assumes "bus_step publish deliver wr h h'" and "fifo contents h"
    and "depth (bh_bus h) \<le> capacity (bh_bus h)"
  shows "fifo contents h' \<and> depth (bh_bus h') \<le> capacity (bh_bus h') \<and>
     capacity (bh_bus h') = capacity (bh_bus h)"
  using assms(1)
proof cases
  case (bus_produce c e r)
  then show ?thesis
  proof (cases "publish c e (bh_bus h)")
    case None
    with bus_produce show ?thesis by (simp add: history_publish_def)
  next
    case (Some p)
    then obtain b r' where "publish c e (bh_bus h) = Some (b, r')" by (cases p) simp
    then show ?thesis
      using bus_produce assms(2,3) publish_sent [of c e "bh_bus h" b] publish_refused [of c e "bh_bus h" b]
      by (cases r') (auto simp: history_publish_def fifo_def depth_contents
          split: serve.splits option.splits)
  qed
next
  case (bus_consume c)
  then obtain b w st sv where
    d: "deliver c (logged_write wr) (bh_bus h) (bh_writer h, bh_stored h) = Some (b, (w, st), sv)"
    and sv: "bh_serve h = Serving"
    and h': "h' = h\<lparr>bh_bus := b, bh_writer := w, bh_stored := st, bh_serve := sv\<rparr>"
    by (auto simp: history_deliver_def split: option.splits if_splits)
  have sent: "bh_sent h = bh_stored h @ contents (bh_bus h)"
    using assms(2) sv by (simp add: fifo_def)
  show ?thesis
  proof (cases sv)
    case Serving
    with d deliver_stored obtain e where "contents (bh_bus h) = e # contents b"
      "capacity b = capacity (bh_bus h)" "logged_write wr c e (bh_writer h, bh_stored h) = ((w, st), None)"
      by metis
    then show ?thesis using sent h' Serving assms(3)
      by (auto simp: fifo_def logged_write_def depth_contents split: prod.splits option.splits)
  next
    case (Returned r)
    show ?thesis
    proof (cases r)
      case None
      with d Returned deliver_stopped have "b = bh_bus h \<and> (w, st) = (bh_writer h, bh_stored h)" by blast
      then show ?thesis using sent h' Returned None assms(3) by (auto simp: fifo_def)
    next
      case (Some x)
      with d Returned deliver_failed obtain e y where "contents (bh_bus h) = e # contents b"
        "capacity b = capacity (bh_bus h)" "logged_write wr c e (bh_writer h, bh_stored h) = ((w, st), Some y)"
        by metis
      then show ?thesis using sent h' Returned Some assms(3)
        by (auto simp: fifo_def logged_write_def depth_contents split: prod.splits option.splits)
    qed
  qed
qed

lemma run_fifo:
  assumes "new n = Inr b" and "(bus_step publish deliver wr)\<^sup>*\<^sup>* (new_history b w) h"
  shows "fifo contents h \<and> depth (bh_bus h) \<le> nat n"
proof -
  have "fifo contents h \<and> depth (bh_bus h) \<le> capacity (bh_bus h) \<and> capacity (bh_bus h) = nat n"
    using assms(2)
  proof induction
    case base
    then show ?case using new_bus [OF assms(1)] by (simp add: fifo_def new_history_def depth_contents)
  next
    case (step h h')
    then show ?case using step_fifo [OF step(2)] by simp
  qed
  then show ?thesis by simp
qed

end

interpretation callbus: event_bus NewCallBus CallBus_Publish CallBus_deliver CallBus_Depth ch_buf ch_cap
proof
  fix n b
  assume "NewCallBus n = Inr b"
  then show "ch_buf b = [] \<and> ch_cap b = nat n \<and> 0 < n"
    by (auto simp: NewCallBus_def split: if_splits)
next
  fix c e b b'
  assume "CallBus_Publish c e b = Some (b', None)"
  then show "CallBus_Depth b < ch_cap b \<and> ch_buf b' = ch_buf b @ [e] \<and> ch_cap b' = ch_cap b"
    by (auto simp: CallBus_Publish_def CallBus_Depth_def dest!: select_send_accepted)
next
  fix c e b b' err
  assume "CallBus_Publish c e b = Some (b', Some err)"
  then show "b' = b \<and> ctx_Err c = Some err"
    by (auto simp: CallBus_Publish_def dest!: select_send_refused)
next
  fix c e b
  show "CallBus_Publish c e b = None \<longleftrightarrow> ctx_Err c = None \<and> ch_cap b \<le> CallBus_Depth b"
    by (auto simp: CallBus_Publish_def CallBus_Depth_def select_send_def chan_send_def
        split: option.splits if_splits)
next
  fix c and wr :: "(event, 'w \<times> event list) writer" and b w b' w'
  assume "CallBus_deliver c wr b w = Some (b', w', Serving)"
  then show "\<exists>e. ch_buf b = e # ch_buf b' \<and> ch_cap b' = ch_cap b \<and> wr c e w = (w', None)"
    by (auto simp: CallBus_deliver_def dest!: select_recv_Received
        split: option.splits received.splits prod.splits)
next
  fix c and wr :: "(event, 'w \<times> event list) writer" and b w b' w' err
  assume "CallBus_deliver c wr b w = Some (b', w', Returned (Some err))"
  then show "\<exists>e x. ch_buf b = e # ch_buf b' \<and> ch_cap b' = ch_cap b \<and> wr c e w = (w', Some x)"
    by (auto simp: CallBus_deliver_def dest!: select_recv_Received
        split: option.splits received.splits prod.splits)
next
  fix c and wr :: "(event, 'w \<times> event list) writer" and b w b' w'
  assume "CallBus_deliver c wr b w = Some (b', w', Returned None)"
  then show "b' = b \<and> w' = w \<and> ctx_Err c \<noteq> None"
    by (auto simp: CallBus_deliver_def dest!: select_recv_ContextDone
        split: option.splits received.splits prod.splits)
next
  fix b :: "event chan"
  show "CallBus_Depth b = length (ch_buf b)" by (simp add: CallBus_Depth_def)
qed

subsection \<open>The queue as an actor's publisher\<close>

definition consumes ::
  "(event, 'w) writer \<Rightarrow> (event chan, event, 'w) bus_history \<Rightarrow> (event chan, event, 'w) bus_history \<Rightarrow> bool" where
  "consumes wr h h' \<longleftrightarrow> (\<exists>c. history_deliver CallBus_deliver wr c h = Some h')"

definition queue_inv :: "nat \<Rightarrow> (event chan, event, 'w) bus_history \<Rightarrow> bool" where
  "queue_inv n h \<longleftrightarrow>
     fifo ch_buf h \<and> CallBus_Depth (bh_bus h) \<le> ch_cap (bh_bus h) \<and> ch_cap (bh_bus h) = n"

interpretation calllog: call_publisher
  "history_publish CallBus_Publish" "consumes wr" bh_sent "queue_inv n" for wr n
proof
  fix c e and h h' :: "(event chan, event, 'w) bus_history"
  assume "history_publish CallBus_Publish c e h = Some (h', None)"
  then show "bh_sent h' = bh_sent h @ [e]"
    by (auto simp: history_publish_def split: option.splits)
next
  fix c e and h h' :: "(event chan, event, 'w) bus_history" and err
  assume "history_publish CallBus_Publish c e h = Some (h', Some err)"
  then show "bh_sent h' = bh_sent h"
    by (auto simp: history_publish_def split: option.splits)
next
  fix wr and h h' :: "(event chan, event, 'w) bus_history"
  assume "consumes wr h h'"
  then show "bh_sent h' = bh_sent h"
    by (cases "bh_serve h = Serving") (auto simp: consumes_def history_deliver_def split: option.splits)
next
  fix c e and h h' :: "(event chan, event, 'w) bus_history" and r n
  assume pub: "history_publish CallBus_Publish c e h = Some (h', r)" and inv: "queue_inv n h"
  from pub have "bus_step CallBus_Publish CallBus_deliver wr h h'" for wr by (rule bus_produce)
  from callbus.step_fifo [OF this] inv show "queue_inv n h'" by (simp add: queue_inv_def)
next
  fix wr and h h' :: "(event chan, event, 'w) bus_history" and n
  assume "consumes wr h h'" and inv: "queue_inv n h"
  then have "bus_step CallBus_Publish CallBus_deliver wr h h'"
    by (auto simp: consumes_def intro: bus_consume)
  from callbus.step_fifo [OF this] inv show "queue_inv n h'" by (simp add: queue_inv_def)
qed

lemma NewCallBus_inv:
  "NewCallBus n = Inr b \<Longrightarrow> queue_inv (nat n) (new_history b w)"
  by (auto simp: NewCallBus_def queue_inv_def new_history_def fifo_def CallBus_Depth_def split: if_splits)

subsection \<open>Properties of the actor on its queue\<close>

text \<open>A concrete call and its environment, for the witnesses.\<close>

definition sample_call :: call where
  "sample_call =
     \<lparr>call_ID = ''c'', call_TenantID = ''t'', call_NodeID = ''n'', call_Direction = DirectionInternal,
      call_CallerLeg = ''a'', call_CalleeLeg = ''b'', call_State = StateNew, call_StartedAt = 7,
      call_AnsweredAt = 0, call_EndedAt = 0, call_Cause = ''''\<rparr>"

definition sample_actor :: actor where
  "sample_actor =
     \<lparr>actor_call = sample_call, actor_mailbox = chan_make 4, actor_phase = Stopped,
      actor_snapshot = sample_call, actor_sequence = 0, actor_replies = [],
      actor_clock = (\<lambda>k. 100 + int k), actor_reads = 0\<rparr>"

lemma sample_NewActor: "NewActor 4 sample_call (Some ()) (Some (\<lambda>k. 100 + int k)) = Inr sample_actor"
  by (simp add: NewActor_def MaxMailboxCapacity_def storeSnapshot_def sample_actor_def)

lemma sample_New: "call_New ''t'' ''n'' 7 (Inr ''c'') (Inr ''a'') (Inr ''b'') = Inr sample_call"
  by (simp add: call_New_def sample_call_def)

definition accepting_writer :: "(event, nat) writer" where
  "accepting_writer c e w = (Suc w, None)"

lemma New_state:
  "call_New tenant node now u1 u2 u3 = Inr cl \<Longrightarrow> call_State cl = StateNew"
  by (auto simp: call_New_def split: if_splits sum.splits)

lemma history_inv:
  assumes "call_New tenant node now u1 u2 u3 = Inr cl" and "NewActor cap cl p clk = Inr a0"
    and "actor_reach (history_publish CallBus_Publish) (consumes wr) (a0, new_history b0 w) (a, h)"
  shows "actor_inv cl a (bh_sent h)"
proof -
  have "actor_inv cl a0 (bh_sent (new_history b0 w))"
    using NewActor_inv(1) [OF assms(2)] by (simp add: new_history_def)
  then show ?thesis
    using calllog.reach_inv [OF assms(3)] New_state [OF assms(1)] by simp
qed


text \<open>C25: as long as the actor's clock has been read fewer than \<open>2^64\<close> times, the sequence numbers
  of the accepted events strictly increase, and an event that reports a terminal state is the last
  one; once the actor has left its loop without an error its call is in a terminal state.\<close>

theorem call_event_order:
  assumes "call_New tenant node now u1 u2 u3 = Inr cl"
    and "NewActor cap cl p clk = Inr a0"
    and "actor_reach (history_publish CallBus_Publish) (consumes wr) (a0, new_history b0 w) (a, h)"
    and "actor_reads a < 2 ^ 64"
  shows "sorted_wrt (\<lambda>e f. ev_Sequence e < ev_Sequence f) (bh_sent h) \<and>
     (\<forall>xs e ys. bh_sent h = xs @ e # ys \<and> isTerminal (ev_NewState e) \<and> xs \<noteq> [] \<longrightarrow> ys = []) \<and>
     (actor_phase a = Exited None \<longrightarrow> isTerminal (call_State (actor_Snapshot a)))"
proof -
  note inv = history_inv [OF assms(1-3)]
  have "sorted_wrt (\<lambda>e f. ev_Sequence e < ev_Sequence f) (bh_sent h)"
    using inv numbered_strict assms(4) by (auto simp: actor_inv_def)
  moreover have "\<forall>xs e ys. bh_sent h = xs @ e # ys \<and> isTerminal (ev_NewState e) \<and> xs \<noteq> [] \<longrightarrow> ys = []"
    using inv lifecycle_terminal_last by (fastforce simp: actor_inv_def)
  moreover have "actor_phase a = Exited None \<longrightarrow> isTerminal (call_State (actor_Snapshot a))"
    using inv by (auto simp: actor_inv_def actor_Snapshot_def)
  ultimately show ?thesis by blast
qed

lemma known_can_terminate:
  "\<not> isTerminal s \<Longrightarrow> (\<And>x. s \<noteq> OtherState x) \<Longrightarrow>
     s = StateTerminating \<or> allowedTransition s StateTerminating"
  by (cases s) (auto simp: isTerminal_def)

lemma apply_accepted:
  assumes "allowedTransition (call_State (actor_call a)) (tr_State t)"
    and "ctx_Err c = None" and "CallBus_Depth (bh_bus h) < ch_cap (bh_bus h)"
  shows "actor_apply (history_publish CallBus_Publish) c t a h =
     Some (storeSnapshot (entered t a),
           h\<lparr>bh_bus := (bh_bus h)\<lparr>ch_buf := ch_buf (bh_bus h) @ [transition_event t a]\<rparr>,
             bh_sent := bh_sent h @ [transition_event t a]\<rparr>, None)"
  using assms allowedTransition_neq [OF assms(1)]
  by (simp add: actor_apply_effective history_publish_def CallBus_Publish_def CallBus_Depth_def
      select_send_Background)

text \<open>C26: cancelling the context of a running actor ends its call. Whatever state the call has
  reached, if the shutdown context has not expired and the event queue has room for two events, the
  \<open>ctx.Done()\<close> arm returns without an error, the snapshot shows \<open>StateTerminated\<close> with the reason
  \<open>context canceled\<close>, and the last event accepted by the queue reports it.\<close>

theorem call_shutdown_terminates:
  assumes "call_New tenant node now u1 u2 u3 = Inr cl"
    and "NewActor cap cl p clk = Inr a0"
    and "actor_reach (history_publish CallBus_Publish) (consumes wr) (a0, new_history b0 w) (a, h)"
    and "actor_phase a = Running" and "ctx_Err c1 = None" and "ctx_Err c2 = None"
    and "CallBus_Depth (bh_bus h) + 2 \<le> ch_cap (bh_bus h)"
  shows "\<exists>a' h' es. run_iteration (history_publish CallBus_Publish) (ArmDone c1 c2) a h = Some (a', h') \<and>
     actor_phase a' = Exited None \<and> call_State (actor_Snapshot a') = StateTerminated \<and>
     call_Cause (actor_Snapshot a') = ''context canceled'' \<and>
     bh_sent h' = bh_sent h @ es \<and> es \<noteq> [] \<and> ev_NewState (last es) = StateTerminated"
proof -
  let ?s = "call_State (actor_call a)"
  have inv: "actor_inv cl a (bh_sent h)" by (rule history_inv [OF assms(1-3)])
  then have nt: "\<not> isTerminal ?s" using assms(4) by (simp add: actor_inv_def)
  have "\<And>x. ?s \<noteq> OtherState x"
    using inv lifecycle_known New_state [OF assms(1)] by (auto simp: actor_inv_def)
  from known_can_terminate [OF nt this]
  consider "?s = StateTerminating" | "allowedTransition ?s StateTerminating" by blast
  then show ?thesis
  proof cases
    case 1
    then have "actor_apply (history_publish CallBus_Publish) c1 (shutdown_transition StateTerminating) a h =
        Some (a, h, None)" by (simp add: actor_apply_def shutdown_transition_def)
    then show ?thesis using 1 nt assms(5-7)
      by (simp add: actor_shutdown_def apply_accepted shutdown_transition_def storeSnapshot_def entered_def
          enter_state_def transition_event_def actor_Snapshot_def Let_def)
  next
    case 2
    let ?t = "shutdown_transition StateTerminating"
    have "tr_State ?t = StateTerminating" by (simp add: shutdown_transition_def)
    then show ?thesis using 2 nt assms(5-7)
      by (simp add: actor_shutdown_def apply_accepted storeSnapshot_def entered_def
          enter_state_def transition_event_def actor_Snapshot_def shutdown_transition_def CallBus_Depth_def Let_def)
  qed
qed

text \<open>A transition whose event the publisher refuses is not observable. Whatever the publisher,
  the actor returns an error that wraps the publisher's, and the call's state, the snapshot and the
  identity of the call are those of before; only the sequence number has moved on, which is why the
  numbers of the accepted events may have gaps.\<close>

theorem call_refused_transition:
  assumes "actor_apply pub c t a b = Some (a', b', r)"
    and "pub c (transition_event t a) b = Some (b1, Some e)"
    and "allowedTransition (call_State (actor_call a)) (tr_State t)"
  shows "r = Some (Wrapf ''publish call transition: %w'' e) \<and> error_is r e \<and> b' = b1 \<and>
     call_State (actor_call a') = call_State (actor_call a) \<and> actor_Snapshot a' = actor_Snapshot a \<and>
     same_identity (actor_call a) (actor_call a') \<and> actor_sequence a' = actor_sequence a + 1"
  using assms allowedTransition_neq [OF assms(3)]
  by (auto simp: actor_apply_effective entered_def actor_Snapshot_def same_identity_def enter_state_def Let_def)

subsection \<open>A concrete run\<close>

text \<open>The sample call is announced and then cancelled, on a queue of four events.\<close>



definition sample_created :: event where
  "sample_created =
     \<lparr>ev_Sequence = 1, ev_TenantID = ''t'', ev_CallID = ''c'', ev_LegID = '''', ev_NodeID = ''n'',
      ev_CallerLeg = ''a'', ev_CalleeLeg = ''b'', ev_Direction = DirectionInternal,
      ev_OldState = StateNew, ev_NewState = OtherState '''', ev_Reason = '''',
      ev_ProtocolEvent = ''created'', ev_OccurredAt = 100\<rparr>"

definition sample_running :: actor where
  "sample_running = sample_actor\<lparr>actor_sequence := 1, actor_reads := 1, actor_phase := Running\<rparr>"

definition sample_history :: "(event chan, event, nat) bus_history" where
  "sample_history = (new_history (chan_make 4) 0)
     \<lparr>bh_bus := \<lparr>ch_cap = 4, ch_buf = [sample_created]\<rparr>, bh_sent := [sample_created]\<rparr>"

lemma sample_start:
  "actor_start (history_publish CallBus_Publish) context_Background sample_actor (new_history (chan_make 4) 0) =
     Some (sample_running, sample_history)"
  by (simp add: actor_start_def actor_publish_def clock_Now_def history_publish_def CallBus_Publish_def
      select_send_def chan_send_def new_history_def context_Background_def sample_actor_def sample_call_def
      sample_created_def sample_running_def sample_history_def chan_make_def Let_def)

lemma sample_reach:
  "actor_reach (history_publish CallBus_Publish) (consumes accepting_writer)
     (sample_actor, new_history (chan_make 4) 0) (sample_running, sample_history)"
  by (rule reach_step [OF reach_refl], rule step_start [OF _ sample_start]) (simp add: sample_actor_def)

lemma sample_bus: "NewCallBus 4 = Inr (chan_make 4)"
  by (simp add: NewCallBus_def)

lemma sample_running_phase: "actor_phase sample_running = Running" "actor_reads sample_running = 1"
  by (simp_all add: sample_running_def)

lemma sample_room: "CallBus_Depth (bh_bus sample_history) + 2 \<le> ch_cap (bh_bus sample_history)"
  by (simp add: sample_history_def CallBus_Depth_def new_history_def)


lemma sample_cancel:
  "\<exists>a h. run_iteration (history_publish CallBus_Publish) (ArmDone context_Background context_Background)
       sample_running sample_history = Some (a, h) \<and>
     actor_phase a = Exited None \<and> actor_reads a = 5 \<and> length (bh_sent h) = 3"
proof -
  have "call_State (actor_call sample_running) = StateNew" "actor_reads sample_running = 1"
    by (simp_all add: sample_running_def sample_actor_def sample_call_def)
  then show ?thesis
    by (simp add: actor_shutdown_def apply_accepted storeSnapshot_def entered_def shutdown_transition_def
        CallBus_Depth_def sample_history_def new_history_def context_Background_def)
qed

theorem call_event_order_witness:
  "\<exists>a h. actor_reach (history_publish CallBus_Publish) (consumes accepting_writer)
       (sample_actor, new_history (chan_make 4) 0) (a, h) \<and> length (bh_sent h) = 3 \<and>
     sorted_wrt (\<lambda>e f. ev_Sequence e < ev_Sequence f) (bh_sent h) \<and>
     isTerminal (call_State (actor_Snapshot a))"
proof -
  from sample_cancel obtain a h where
    run: "run_iteration (history_publish CallBus_Publish) (ArmDone context_Background context_Background)
       sample_running sample_history = Some (a, h)"
    and a: "actor_phase a = Exited None" "actor_reads a < 2 ^ 64" "length (bh_sent h) = 3" by auto
  have reach: "actor_reach (history_publish CallBus_Publish) (consumes accepting_writer)
       (sample_actor, new_history (chan_make 4) 0) (a, h)"
    by (rule reach_step [OF sample_reach]) (rule step_run [OF sample_running_phase(1) run])
  from call_event_order [OF sample_New sample_NewActor reach a(2)] reach a show ?thesis by blast
qed

theorem call_shutdown_terminates_witness:
  "\<exists>a' h' es. run_iteration (history_publish CallBus_Publish) (ArmDone context_Background context_Background)
       sample_running sample_history = Some (a', h') \<and>
     actor_phase a' = Exited None \<and> call_State (actor_Snapshot a') = StateTerminated \<and>
     call_Cause (actor_Snapshot a') = ''context canceled'' \<and>
     bh_sent h' = bh_sent sample_history @ es \<and> es \<noteq> [] \<and> ev_NewState (last es) = StateTerminated"
  using call_shutdown_terminates [OF sample_New sample_NewActor sample_reach sample_running_phase(1) _ _ sample_room]
  by (simp add: context_Background_def)

definition refusing_publisher :: "unit publisher" where
  "refusing_publisher c e b = Some (b, Some context_Canceled)"

definition sample_fail :: transition where
  "sample_fail = \<lparr>tr_State = StateFailed, tr_LegID = '''', tr_Reason = ''busy'', tr_ProtocolEvent = ''486''\<rparr>"

theorem call_refused_transition_witness:
  "\<exists>a' r. actor_apply refusing_publisher context_Background sample_fail sample_actor () = Some (a', (), r) \<and>
     error_is r context_Canceled \<and> call_State (actor_call a') = StateNew \<and>
     actor_Snapshot a' = actor_Snapshot sample_actor"
proof -
  have st: "call_State (actor_call sample_actor) = StateNew" "tr_State sample_fail = StateFailed"
    by (simp_all add: sample_actor_def sample_call_def sample_fail_def)
  have pub: "refusing_publisher context_Background (transition_event sample_fail sample_actor) () =
      Some ((), Some context_Canceled)"
    by (simp add: refusing_publisher_def)
  have "\<exists>a' b' r. actor_apply refusing_publisher context_Background sample_fail sample_actor () = Some (a', b', r)"
    using pub st by (simp add: actor_apply_effective)
  then obtain a' b' r where run:
    "actor_apply refusing_publisher context_Background sample_fail sample_actor () = Some (a', b', r)"
    by blast
  from call_refused_transition [OF run pub] run st show ?thesis by auto
qed

end
