(* ===== verification/Media_Bus.thy ===== *)
theory Media_Bus
  imports Media_Session Event_Bus
begin

text \<open>
  \<open>MediaBus\<close> of \<open>internal/event/media_bus.go\<close>, the queue between the media sessions and the
  writer of quality summaries, interpreted as an \<open>event_bus\<close>, and composed with the report loop of
  a session: what a session samples is queued, or counted in its own later samples.
\<close>

definition NewMediaBus :: "int \<Rightarrow> summary chan result" where
  "NewMediaBus capacity =
     (if capacity \<le> 0 then Inl (Errorf ''media summary capacity must be positive'')
      else Inr (chan_make (nat capacity)))"

definition PublishMediaSummary :: "(summary, summary chan) bus_publish" where
  "PublishMediaSummary c summary b = select_send c summary b"

text \<open>One iteration of the loop of \<open>Run\<close>.\<close>

definition MediaBus_deliver :: "(summary, summary chan, 'w) bus_deliver" where
  "MediaBus_deliver c wr b w =
     (case select_recv c b of
        None \<Rightarrow> None
      | Some (ContextDone, b') \<Rightarrow> Some (b', w, Returned None)
      | Some (Received summary, b') \<Rightarrow>
          (case wr c summary w of
             (w', None) \<Rightarrow> Some (b', w', Serving)
           | (w', Some err) \<Rightarrow> Some (b', w', Returned (Some (Wrapf ''write media summary: %w'' err)))))"

fun MediaBus_loop ::
  "(summary, 'w) writer \<Rightarrow> ctx list \<Rightarrow> summary chan \<Rightarrow> 'w \<Rightarrow> (summary chan \<times> 'w \<times> serve) option" where
  "MediaBus_loop wr [] b w = Some (b, w, Serving)"
| "MediaBus_loop wr (c # cs) b w =
     (case MediaBus_deliver c wr b w of
        None \<Rightarrow> None
      | Some (b', w', Returned r) \<Rightarrow> Some (b', w', Returned r)
      | Some (b', w', Serving) \<Rightarrow> MediaBus_loop wr cs b' w')"

definition MediaBus_Run ::
  "(summary, 'w) writer option \<Rightarrow> ctx list \<Rightarrow> summary chan \<Rightarrow> 'w \<Rightarrow> (summary chan \<times> 'w \<times> serve) option" where
  "MediaBus_Run writer cs b w =
     (case writer of
        None \<Rightarrow> Some (b, w, Returned (Some (Errorf ''media summary writer is required'')))
      | Some wr \<Rightarrow> MediaBus_loop wr cs b w)"

definition MediaBus_Depth :: "summary chan \<Rightarrow> nat" where
  "MediaBus_Depth b = length (ch_buf b)"

lemma MediaBus_deliver_cases:
  assumes "MediaBus_deliver c wr b w = Some (b', w', sv)"
  obtains (stored) e where "ch_buf b = e # ch_buf b'" "ch_cap b' = ch_cap b" "wr c e w = (w', None)" "sv = Serving"
    | (failed) e err where "ch_buf b = e # ch_buf b'" "ch_cap b' = ch_cap b" "wr c e w = (w', Some err)"
        "sv = Returned (Some (Wrapf ''write media summary: %w'' err))"
    | (stopped) "b' = b" "w' = w" "ctx_Err c \<noteq> None" "sv = Returned None"
  using assms
  by (auto simp: MediaBus_deliver_def dest!: select_recv_Received select_recv_ContextDone
      split: option.splits received.splits prod.splits)

interpretation mediabus: event_bus NewMediaBus PublishMediaSummary MediaBus_deliver MediaBus_Depth ch_buf ch_cap
proof
  fix n b
  assume "NewMediaBus n = Inr b"
  then show "ch_buf b = [] \<and> ch_cap b = nat n \<and> 0 < n"
    by (auto simp: NewMediaBus_def split: if_splits)
next
  fix c e b b'
  assume "PublishMediaSummary c e b = Some (b', None)"
  then show "MediaBus_Depth b < ch_cap b \<and> ch_buf b' = ch_buf b @ [e] \<and> ch_cap b' = ch_cap b"
    by (auto simp: PublishMediaSummary_def MediaBus_Depth_def dest!: select_send_accepted)
next
  fix c e b b' err
  assume "PublishMediaSummary c e b = Some (b', Some err)"
  then show "b' = b \<and> ctx_Err c = Some err"
    by (auto simp: PublishMediaSummary_def dest!: select_send_refused)
next
  fix c e b
  show "PublishMediaSummary c e b = None \<longleftrightarrow> ctx_Err c = None \<and> ch_cap b \<le> MediaBus_Depth b"
    by (auto simp: PublishMediaSummary_def MediaBus_Depth_def select_send_def chan_send_def
        split: option.splits if_splits)
qed (auto simp: MediaBus_Depth_def elim!: MediaBus_deliver_cases)

subsection \<open>A session, its queue and the consumer together\<close>

text \<open>
  The state is a session, the number of its summary ticks, and the history of the queue. The steps
  are the turns of the session's report loop, whatever else the workers of the session do to it,
  publications of other sessions, and the consumer.
\<close>

fun is_sample :: "report_arm \<Rightarrow> bool" where
  "is_sample (SummaryTick c now now') = True"
| "is_sample arm = False"

inductive quality_step ::
  "rtcp_pkg \<Rightarrow> 'c pool \<Rightarrow> (summary, 'w) writer \<Rightarrow>
   media_session \<times> nat \<times> (summary chan, summary, 'w) bus_history \<Rightarrow>
   media_session \<times> nat \<times> (summary chan, summary, 'w) bus_history \<Rightarrow> bool"
  for pkg :: rtcp_pkg and p :: "'c pool" and wr :: "(summary, 'w) writer" where
  quality_report: "report_turn pkg p (history_publish PublishMediaSummary) arm s h = Some ((s', h'), r) \<Longrightarrow>
    quality_step pkg p wr (s, k, h) (s', if is_sample arm then Suc k else k, h')"
| quality_worker: "ms_id s' = ms_id s \<Longrightarrow> ms_summaryDrops s' = ms_summaryDrops s \<Longrightarrow>
    quality_step pkg p wr (s, k, h) (s', k, h)"
| quality_other: "history_publish PublishMediaSummary c e h = Some (h', r) \<Longrightarrow> sm_MediaSessionID e \<noteq> ms_id s \<Longrightarrow>
    quality_step pkg p wr (s, k, h) (s, k, h')"
| quality_consume: "history_deliver MediaBus_deliver wr c h = Some h' \<Longrightarrow>
    quality_step pkg p wr (s, k, h) (s, k, h')"

inductive_cases quality_stepE: "quality_step pkg p wr (s, k, h) (s', k', h')"

definition own_summaries :: "media_session \<Rightarrow> summary list \<Rightarrow> summary list" where
  "own_summaries s ms = filter (\<lambda>m. sm_MediaSessionID m = ms_id s) ms"

text \<open>Every tick is either a summary in the queue or a drop, and the summaries report the drops before them.\<close>

definition accounted :: "media_session \<Rightarrow> nat \<Rightarrow> summary list \<Rightarrow> bool" where
  "accounted s k ms \<longleftrightarrow>
     length ms + unat (ms_summaryDrops s) = k \<and> sorted (map sm_DroppedSummaries ms) \<and>
     (\<forall>m \<in> set ms. sm_DroppedSummaries m \<le> ms_summaryDrops s)"

lemma accounted_queued:
  "accounted s k ms \<Longrightarrow> sm_DroppedSummaries m = ms_summaryDrops s \<Longrightarrow> accounted s (Suc k) (ms @ [m])"
  by (auto simp: accounted_def sorted_append)

lemma accounted_dropped:
  assumes "accounted s k ms" and "Suc k < 2 ^ 64"
  shows "accounted (s\<lparr>ms_summaryDrops := ms_summaryDrops s + 1\<rparr>) (Suc k) ms"
proof -
  have "Suc (unat (ms_summaryDrops s)) < 2 ^ 64" using assms by (simp add: accounted_def)
  then have "unat (ms_summaryDrops s + 1) = Suc (unat (ms_summaryDrops s))"
    by (simp add: unat_word_ariths)
  moreover have "m \<le> ms_summaryDrops s + 1" if "m \<le> ms_summaryDrops s" for m
    using that calculation by (simp add: word_le_nat_alt)
  ultimately show ?thesis using assms(1) by (auto simp: accounted_def)
qed

lemma history_publish_sent:
  "history_publish pub c e h = Some (h', r) \<Longrightarrow>
     bh_sent h' = (if r = None then bh_sent h @ [e] else bh_sent h)"
  by (auto simp: history_publish_def split: option.splits)

lemma history_deliver_sent:
  "history_deliver deliver wr c h = Some h' \<Longrightarrow> bh_sent h' = bh_sent h"
  by (cases "bh_serve h = Serving") (auto simp: history_deliver_def split: option.splits)

lemma report_turn_bus:
  assumes "report_turn pkg p (history_publish PublishMediaSummary) arm s h = Some ((s', h'), r)"
  shows "h' = h \<or> (\<exists>c e x. history_publish PublishMediaSummary c e h = Some (h', x))"
    and "ms_id s' = ms_id s"
    and "accounted s k (own_summaries s (bh_sent h)) \<Longrightarrow> (if is_sample arm then Suc k else k) < 2 ^ 64 \<Longrightarrow>
      accounted s' (if is_sample arm then Suc k else k) (own_summaries s (bh_sent h'))"
proof -
  show "h' = h \<or> (\<exists>c e x. history_publish PublishMediaSummary c e h = Some (h', x))"
    using assms by (cases arm) (auto simp: publishSummary_def Let_def split: prod.splits if_splits option.splits)
  show "ms_id s' = ms_id s"
    using assms by (cases arm) (auto simp: publishSummary_def Let_def split: prod.splits if_splits option.splits)
  assume acc: "accounted s k (own_summaries s (bh_sent h))" and lt: "(if is_sample arm then Suc k else k) < 2 ^ 64"
  show "accounted s' (if is_sample arm then Suc k else k) (own_summaries s (bh_sent h'))"
  proof (cases arm)
    case (SummaryTick c now now')
    have snap: "sm_MediaSessionID (session_Snapshot now now' s) = ms_id s"
      "sm_DroppedSummaries (session_Snapshot now now' s) = ms_summaryDrops s"
      by (simp_all add: session_Snapshot_def Let_def)
    from assms SummaryTick obtain x where
      x: "history_publish PublishMediaSummary c (session_Snapshot now now' s) h = Some (h', x)"
        "s' = (if x = None then s else s\<lparr>ms_summaryDrops := ms_summaryDrops s + 1\<rparr>)"
      by (auto simp: publishSummary_def split: option.splits)
    show ?thesis
    proof (cases x)
      case None
      then show ?thesis
        using accounted_queued [OF acc snap(2)] history_publish_sent [OF x(1)] x(2) SummaryTick snap(1)
        by (simp add: own_summaries_def)
    next
      case (Some e)
      then show ?thesis
        using accounted_dropped [OF acc] lt history_publish_sent [OF x(1)] x(2) SummaryTick by simp
    qed
  qed (use assms acc in \<open>auto simp: accounted_def Let_def split: prod.splits if_splits\<close>)
qed

lemma quality_bus_step:
  assumes "quality_step pkg p wr (s, k, h) (s', k', h')"
  shows "h' = h \<or> bus_step PublishMediaSummary MediaBus_deliver wr h h'"
  using assms by (auto elim!: quality_stepE dest: report_turn_bus(1) intro: bus_step.intros)

lemma quality_accounted:
  assumes "quality_step pkg p wr (s, k, h) (s', k', h')" and "accounted s k (own_summaries s (bh_sent h))"
    and "k' < 2 ^ 64"
  shows "accounted s' k' (own_summaries s' (bh_sent h'))"
  using assms(1)
proof (rule quality_stepE)
  fix arm r
  assume "k' = (if is_sample arm then Suc k else k)"
    "report_turn pkg p (history_publish PublishMediaSummary) arm s h = Some ((s', h'), r)"
  then show ?thesis
    using report_turn_bus(2) [of pkg p arm s h s' h' r] report_turn_bus(3) [of pkg p arm s h s' h' r k] assms(2,3)
    by (simp add: own_summaries_def)
next
  fix c e r
  assume "history_publish PublishMediaSummary c e h = Some (h', r)" "sm_MediaSessionID e \<noteq> ms_id s"
    "s' = s" "k' = k"
  then show ?thesis using assms(2) by (auto simp: own_summaries_def dest!: history_publish_sent)
qed (use assms(2) in \<open>auto simp: own_summaries_def accounted_def dest: history_deliver_sent\<close>)

lemma quality_step_id:
  "quality_step pkg p wr (s, k, h) (s', k', h') \<Longrightarrow> ms_id s' = ms_id s \<and> k \<le> k'"
  by (auto elim!: quality_stepE dest: report_turn_bus(2))

lemma quality_inv:
  assumes "(quality_step pkg p wr)\<^sup>*\<^sup>* st st'" and "st = (s0, 0, new_history b w)" and "ms_summaryDrops s0 = 0"
  shows "(bus_step PublishMediaSummary MediaBus_deliver wr)\<^sup>*\<^sup>* (new_history b w) (snd (snd st')) \<and>
     ms_id (fst st') = ms_id s0 \<and>
     (fst (snd st') < 2 ^ 64 \<longrightarrow> accounted (fst st') (fst (snd st')) (own_summaries (fst st') (bh_sent (snd (snd st')))))"
  using assms(1)
proof (induction rule: rtranclp_induct)
  case base
  then show ?case using assms(2,3) by (simp add: accounted_def own_summaries_def new_history_def)
next
  case (step st1 st2)
  obtain s k h s' k' h' where st: "st1 = (s, k, h)" "st2 = (s', k', h')" by (cases st1, cases st2) auto
  with step(2) have q: "quality_step pkg p wr (s, k, h) (s', k', h')" by simp
  show ?case
    using step(3) quality_bus_step [OF q] quality_accounted [OF q] quality_step_id [OF q] st
    by (auto intro: rtranclp.rtrancl_into_rtrancl)
qed

subsection \<open>Properties\<close>

text \<open>C28: No quality sample disappears silently. However the report loop of a session, its other
  workers, other sessions on the same queue and the consumer interleave, the queue stays within its
  capacity and hands the summaries to the writer in the order they were accepted, without loss or
  duplicate; each summary tick of the session is either one accepted summary or one counted drop;
  and the drop counts in its accepted summaries never decrease.\<close>

theorem summaries_accounted:
  assumes "NewMediaBus n = Inr b" and "ms_summaryDrops s0 = 0"
    and "(quality_step pkg p wr)\<^sup>*\<^sup>* (s0, 0, new_history b w) (s, k, h)" and "k < 2 ^ 64"
  shows "fifo ch_buf h \<and> MediaBus_Depth (bh_bus h) \<le> nat n \<and>
     length (own_summaries s0 (bh_sent h)) + unat (ms_summaryDrops s) = k \<and>
     sorted (map sm_DroppedSummaries (own_summaries s0 (bh_sent h)))"
  using mediabus.run_fifo [OF assms(1), of wr w h] quality_inv [OF assms(3) refl assms(2)] assms(4)
  by (auto simp: accounted_def own_summaries_def)

text \<open>On a queue of one summary, a tick that is queued and a tick whose deadline passes.\<close>

definition quality_session :: media_session where
  "quality_session = new_session ''m'' (NewMetadata ''t'' ''c'' ''n'' ''a'' ''b'') relay_cfg 0 1 relay_rw relay_rw"

definition quality_pkg :: rtcp_pkg where
  "quality_pkg = \<lparr>rtcp_Unmarshal = (\<lambda>_. Inr []), rtcp_Marshal = (\<lambda>_. Inr [])\<rparr>"

definition quality_writer :: "(summary, nat) writer" where
  "quality_writer c m w = (Suc w, None)"

lemma quality_ticks:
  "\<exists>s h. (quality_step quality_pkg sample_full quality_writer)\<^sup>*\<^sup>*
     (quality_session, 0, new_history (chan_make 1) 0) (s, 2, h) \<and> ms_summaryDrops s = 1"
proof -
  let ?late = "\<lparr>ctx_Err = Some context_DeadlineExceeded, ctx_pick = True\<rparr>"
  let ?pub = "history_publish PublishMediaSummary"
  let ?h = "new_history (chan_make 1) 0 :: (summary chan, summary, nat) bus_history"
  obtain h1 where
    h1: "report_turn quality_pkg sample_full ?pub (SummaryTick context_Background 5 5) quality_session ?h
       = Some ((quality_session, h1), None)" "length (ch_buf (bh_bus h1)) = 1" "ch_cap (bh_bus h1) = 1"
    by (simp add: publishSummary_def history_publish_def PublishMediaSummary_def select_send_def chan_send_def
        new_history_def context_Background_def chan_make_def)
  obtain s2 h2 where
    h2: "report_turn quality_pkg sample_full ?pub (SummaryTick ?late 6 6) quality_session h1 = Some ((s2, h2), None)"
    "ms_summaryDrops s2 = 1"
    using h1(2,3)
    by (simp add: publishSummary_def history_publish_def PublishMediaSummary_def select_send_def chan_send_def
        quality_session_def new_session_def)
  have "quality_step quality_pkg sample_full quality_writer (quality_session, 0, ?h) (quality_session, Suc 0, h1)"
    using quality_report [OF h1(1), of quality_writer 0] by simp
  moreover have "quality_step quality_pkg sample_full quality_writer (quality_session, Suc 0, h1) (s2, 2, h2)"
    using quality_report [OF h2(1), of quality_writer "Suc 0"] by (simp add: numeral_2_eq_2)
  ultimately show ?thesis using h2(2) by (blast intro: rtranclp.intros)
qed

theorem summaries_accounted_witness:
  "\<exists>s h. (quality_step quality_pkg sample_full quality_writer)\<^sup>*\<^sup>*
       (quality_session, 0, new_history (chan_make 1) 0) (s, 2, h) \<and> ms_summaryDrops s = 1 \<and> fifo ch_buf h \<and>
     length (own_summaries quality_session (bh_sent h)) = 1"
proof -
  obtain s h where
    run: "(quality_step quality_pkg sample_full quality_writer)\<^sup>*\<^sup>*
       (quality_session, 0, new_history (chan_make 1) 0) (s, 2, h)" and one: "ms_summaryDrops s = 1"
    using quality_ticks by blast
  have bus: "NewMediaBus 1 = Inr (chan_make 1)" by (simp add: NewMediaBus_def)
  have "ms_summaryDrops quality_session = 0" by (simp add: quality_session_def new_session_def)
  from summaries_accounted [OF bus this run] one run show ?thesis by (intro exI [of _ s] exI [of _ h]) simp
qed

end
