(* ===== verification/Mysql_Store.thy ===== *)
theory Mysql_Store
  imports Memory_Store Digest_Auth Media_Bus
begin

text \<open>
  \<open>internal/platform/mysql/store.go\<close>: the durable store, over the tables of \<open>migrations/\<close>. The SQL
  statements of the source are functions on these tables. The server and its driver are not part of
  the sources; what the statements leave to them is the record \<open>mysql\<close>: the comparison of the
  default collation, what the columns \<open>DATETIME(6)\<close> and \<open>DECIMAL(4,3)\<close> keep of a value, the order of
  the rows of a result, and which of the calls an operation makes fail. A call that reports an error
  has changed nothing, and a transaction takes effect at its commit.
\<close>

subsection \<open>Tables\<close>

text \<open>Table \<open>registrations\<close>: primary key \<open>registration_id\<close>, unique key of tenant, address and hash.\<close>

record reg_row =
  rr_ID :: string
  rr_TenantID :: string
  rr_AoR :: string
  rr_Contact :: string
  rr_ContactHash :: "byte list"
  rr_RouteTarget :: string
  rr_Transport :: string
  rr_ReceivedIP :: string
  rr_ReceivedPort :: "16 word"
  rr_UserAgent :: string
  rr_Q :: float32
  rr_ExpiresAt :: time
  rr_UpdatedAt :: time

text \<open>Table \<open>calls\<close>, the call detail records: primary key \<open>call_id\<close>; \<open>None\<close> is \<open>NULL\<close>.\<close>

record call_row =
  cr_CallID :: string
  cr_TenantID :: string
  cr_NodeID :: string
  cr_Direction :: string
  cr_CallerLeg :: string
  cr_CalleeLeg :: string
  cr_State :: state
  cr_StartedAt :: time
  cr_AnsweredAt :: "time option"
  cr_EndedAt :: "time option"
  cr_Cause :: string
  cr_UpdatedAt :: time

text \<open>Table \<open>call_events\<close>: primary key \<open>(call_id, sequence)\<close>.\<close>

record event_row =
  er_CallID :: string
  er_Sequence :: "64 word"
  er_TenantID :: string
  er_LegID :: string
  er_NodeID :: string
  er_OldState :: state
  er_NewState :: state
  er_Reason :: string
  er_ProtocolEvent :: string
  er_OccurredAt :: time

text \<open>Table \<open>media_quality_samples\<close>, with the columns of one leg as a record.\<close>

record leg_columns =
  lc_packets :: "64 word"
  lc_bytes :: "64 word"
  lc_lost :: "64 word"
  lc_reordered :: "64 word"
  lc_duplicates :: "64 word"
  lc_jitter_samples :: rat
  lc_rtt_microseconds :: int
  lc_timed_out :: bool

record sample_row =
  sr_TenantID :: string
  sr_CallID :: string
  sr_MediaSessionID :: string
  sr_NodeID :: string
  sr_CallerLegID :: string
  sr_CalleeLegID :: string
  sr_SampledAt :: time
  sr_Caller :: leg_columns
  sr_Callee :: leg_columns
  sr_OneWay :: bool
  sr_DroppedSummaries :: "64 word"

record database =
  tb_credentials :: "credential list"
  tb_registrations :: "reg_row list"
  tb_calls :: "call_row list"
  tb_events :: "event_row list"
  tb_samples :: "sample_row list"

record mysql =
  my_eq :: "string \<Rightarrow> string \<Rightarrow> bool"
  my_datetime :: "time \<Rightarrow> time"
  my_decimal :: "float32 \<Rightarrow> float32"
  my_rows :: "database \<Rightarrow> reg_row list \<Rightarrow> reg_row list"
  my_fails :: "ctx \<Rightarrow> database \<Rightarrow> nat \<Rightarrow> go_error option"

definition sql_ErrNoRows :: go_error where
  "sql_ErrNoRows = Sentinel ''sql: no rows in result set''"

definition IsNotFound :: "go_error option \<Rightarrow> bool" where
  "IsNotFound err = error_is err sql_ErrNoRows"

text \<open>The error of an \<open>INSERT\<close> that would break a unique key.\<close>

definition duplicate_entry :: go_error where
  "duplicate_entry = Errorf ''Error 1062: Duplicate entry''"

subsection \<open>Calls to the server\<close>

text \<open>The \<open>k\<close>-th kind of call an operation makes, with the text its error is wrapped in, and what follows.\<close>

definition server :: "mysql \<Rightarrow> ctx \<Rightarrow> database \<Rightarrow> nat \<Rightarrow> string \<Rightarrow> 'a result \<Rightarrow> 'a result" where
  "server my c db k msg next =
     (case ctx_Err c of
        Some e \<Rightarrow> Inl (Wrapf msg e)
      | None \<Rightarrow> (case my_fails my c db k of Some e \<Rightarrow> Inl (Wrapf msg e) | None \<Rightarrow> next))"

text \<open>The loop over the rows of a result: \<open>Scan\<close>, and then \<open>f\<close> on the row.\<close>

fun scan_rows ::
  "mysql \<Rightarrow> ctx \<Rightarrow> database \<Rightarrow> string \<Rightarrow> ('r \<Rightarrow> 'a result) \<Rightarrow> nat \<Rightarrow> 'r list \<Rightarrow> 'a list result" where
  "scan_rows my c db msg f k [] = Inr []"
| "scan_rows my c db msg f k (r # rs) =
     server my c db k msg
       (case f r of
          Inl e \<Rightarrow> Inl e
        | Inr x \<Rightarrow> (case scan_rows my c db msg f (Suc k) rs of Inl e \<Rightarrow> Inl e | Inr xs \<Rightarrow> Inr (x # xs)))"

text \<open>The state after an operation that returns an error or the new tables.\<close>

definition outcome :: "database \<Rightarrow> database result \<Rightarrow> database \<times> go_error option" where
  "outcome db r = (case r of Inl e \<Rightarrow> (db, Some e) | Inr db' \<Rightarrow> (db', None))"

subsection \<open>Connecting\<close>

record dsn_config =
  dsn_ParseTime :: bool
  dsn_Loc :: string
  dsn_rest :: string

definition Open ::
  "(string \<Rightarrow> dsn_config result) \<Rightarrow> (dsn_config \<Rightarrow> 'h result) \<Rightarrow> (ctx \<Rightarrow> 'h \<Rightarrow> go_error option) \<Rightarrow> ctx \<Rightarrow> string \<Rightarrow> 'h result" where
  "Open ParseDSN sql_Open PingContext c dsn =
     (case ParseDSN dsn of
        Inl e \<Rightarrow> Inl (Wrapf ''parse MySQL DSN: %w'' e)
      | Inr config \<Rightarrow>
          (case sql_Open (config\<lparr>dsn_ParseTime := True, dsn_Loc := ''UTC''\<rparr>) of
             Inl e \<Rightarrow> Inl (Wrapf ''open MySQL: %w'' e)
           | Inr db \<Rightarrow>
               (case PingContext c db of
                  Some e \<Rightarrow> Inl (Wrapf ''ping MySQL: %w'' e)
                | None \<Rightarrow> Inr db)))"

definition mysql_NewStore :: "'h option \<Rightarrow> 'h result" where
  "mysql_NewStore db = (case db of None \<Rightarrow> Inl (Errorf ''database is required'') | Some h \<Rightarrow> Inr h)"

subsection \<open>Credentials\<close>

definition mysql_LookupCredential :: "mysql \<Rightarrow> database \<Rightarrow> lookup_credential" where
  "mysql_LookupCredential my db c realm username =
     server my c db 0 ''query credential: %w''
       (case filter (\<lambda>r. my_eq my (cred_Realm r) realm \<and> my_eq my (cred_Username r) username) (tb_credentials db) of
          [] \<Rightarrow> Inl (Wrapf ''query credential: %w'' sql_ErrNoRows)
        | r # _ \<Rightarrow> Inr r)"

subsection \<open>Registrations\<close>

text \<open>The row \<open>Upsert\<close> inserts, as the columns keep it.\<close>

definition registration_row :: "mysql \<Rightarrow> binding \<Rightarrow> reg_row" where
  "registration_row my b =
     \<lparr>rr_ID = bi_ID b, rr_TenantID = bi_TenantID b, rr_AoR = bi_AoR b, rr_Contact = bi_Contact b,
      rr_ContactHash = sha256_Sum (string_bytes (bi_Contact b)), rr_RouteTarget = bi_RouteTarget b,
      rr_Transport = bi_Transport b, rr_ReceivedIP = addr_String (ap_Addr (bi_Received b)),
      rr_ReceivedPort = ap_Port (bi_Received b), rr_UserAgent = bi_UserAgent b, rr_Q = my_decimal my (bi_Q b),
      rr_ExpiresAt = my_datetime my (bi_ExpiresAt b), rr_UpdatedAt = my_datetime my (bi_UpdatedAt b)\<rparr>"

text \<open>\<open>WHERE tenant_id = ? AND aor = ? AND expires_at > ?\<close>\<close>

definition of_address :: "mysql \<Rightarrow> string \<Rightarrow> string \<Rightarrow> reg_row \<Rightarrow> bool" where
  "of_address my tenantID aor r \<longleftrightarrow> my_eq my (rr_TenantID r) tenantID \<and> my_eq my (rr_AoR r) aor"

definition active_rows :: "mysql \<Rightarrow> string \<Rightarrow> string \<Rightarrow> time \<Rightarrow> reg_row list \<Rightarrow> reg_row list" where
  "active_rows my tenantID aor now rows =
     filter (\<lambda>r. of_address my tenantID aor r \<and> my_datetime my now < rr_ExpiresAt r) rows"

text \<open>
  \<open>INSERT ... ON DUPLICATE KEY UPDATE\<close>: the row that has the primary key of the new one, or else the
  row that has its unique key, gets the listed columns.
\<close>

definition same_contact :: "mysql \<Rightarrow> reg_row \<Rightarrow> reg_row \<Rightarrow> bool" where
  "same_contact my new r \<longleftrightarrow> of_address my (rr_TenantID new) (rr_AoR new) r \<and> rr_ContactHash r = rr_ContactHash new"

definition updated_row :: "reg_row \<Rightarrow> reg_row \<Rightarrow> reg_row" where
  "updated_row new r =
     r\<lparr>rr_ID := rr_ID new, rr_RouteTarget := rr_RouteTarget new, rr_Transport := rr_Transport new,
       rr_ReceivedIP := rr_ReceivedIP new, rr_ReceivedPort := rr_ReceivedPort new, rr_UserAgent := rr_UserAgent new,
       rr_Q := rr_Q new, rr_ExpiresAt := rr_ExpiresAt new, rr_UpdatedAt := rr_UpdatedAt new\<rparr>"

definition insert_registration :: "mysql \<Rightarrow> reg_row \<Rightarrow> reg_row list \<Rightarrow> reg_row list" where
  "insert_registration my new rows =
     (if list_ex (\<lambda>r. rr_ID r = rr_ID new) rows
      then map (\<lambda>r. if rr_ID r = rr_ID new then updated_row new r else r) rows
      else if list_ex (same_contact my new) rows
      then map (\<lambda>r. if same_contact my new r then updated_row new r else r) rows
      else rows @ [new])"

definition mysql_Upsert :: "mysql \<Rightarrow> ctx \<Rightarrow> binding \<Rightarrow> int \<Rightarrow> database \<Rightarrow> database \<times> go_error option" where
  "mysql_Upsert my c b maxBindings db = outcome db
     (server my c db 0 ''begin registration transaction: %w''
       (server my c db 1 ''lock registration bindings: %w''
         (case scan_rows my c db ''scan locked registration: %w'' (\<lambda>r. Inr (rr_Contact r)) 6
                 (my_rows my db (active_rows my (bi_TenantID b) (bi_AoR b) (bi_UpdatedAt b) (tb_registrations db))) of
            Inl e \<Rightarrow> Inl e
          | Inr contacts \<Rightarrow>
              server my c db 2 ''close registration rows: %w''
                (server my c db 3 ''iterate registration rows: %w''
                  (if bi_Contact b \<notin> set contacts \<and> maxBindings \<le> int (length contacts) then Inl ErrBindingLimit
                   else server my c db 4 ''upsert registration: %w''
                          (server my c db 5 ''commit registration transaction: %w''
                            (Inr (db\<lparr>tb_registrations :=
                                     insert_registration my (registration_row my b) (tb_registrations db)\<rparr>))))))))"

definition mysql_Delete :: "mysql \<Rightarrow> ctx \<Rightarrow> string \<Rightarrow> string \<Rightarrow> string \<Rightarrow> database \<Rightarrow> database \<times> go_error option" where
  "mysql_Delete my c tenantID aor contact db = outcome db
     (server my c db 0 ''delete registration: %w''
       (Inr (db\<lparr>tb_registrations := filter (\<lambda>r. \<not> (of_address my tenantID aor r \<and> my_eq my (rr_Contact r) contact))
                                     (tb_registrations db)\<rparr>)))"

definition mysql_DeleteAll :: "mysql \<Rightarrow> ctx \<Rightarrow> string \<Rightarrow> string \<Rightarrow> database \<Rightarrow> database \<times> go_error option" where
  "mysql_DeleteAll my c tenantID aor db = outcome db
     (server my c db 0 ''delete all registrations: %w''
       (Inr (db\<lparr>tb_registrations := filter (\<lambda>r. \<not> of_address my tenantID aor r) (tb_registrations db)\<rparr>)))"

definition row_binding :: "reg_row \<Rightarrow> binding result" where
  "row_binding r =
     (case ParseAddr (rr_ReceivedIP r) of
        Inl e \<Rightarrow> Inl (Wrapf ''parse stored received IP: %w'' e)
      | Inr address \<Rightarrow>
          Inr \<lparr>bi_ID = rr_ID r, bi_TenantID = rr_TenantID r, bi_AoR = rr_AoR r, bi_Contact = rr_Contact r,
               bi_RouteTarget = rr_RouteTarget r, bi_Transport = rr_Transport r,
               bi_Received = AddrPortFrom address (rr_ReceivedPort r), bi_UserAgent = rr_UserAgent r,
               bi_Q = rr_Q r, bi_ExpiresAt = rr_ExpiresAt r, bi_UpdatedAt = rr_UpdatedAt r\<rparr>)"

definition mysql_ListActive :: "mysql \<Rightarrow> ctx \<Rightarrow> string \<Rightarrow> string \<Rightarrow> time \<Rightarrow> database \<Rightarrow> binding list result" where
  "mysql_ListActive my c tenantID aor now db =
     server my c db 0 ''query active registrations: %w''
       (case scan_rows my c db ''scan active registration: %w'' row_binding 2
               (my_rows my db (active_rows my tenantID aor now (tb_registrations db))) of
          Inl e \<Rightarrow> Inl e
        | Inr bindings \<Rightarrow> server my c db 1 ''iterate active registrations: %w'' (Inr bindings))"

definition mysql_DeleteExpired :: "mysql \<Rightarrow> ctx \<Rightarrow> time \<Rightarrow> database \<Rightarrow> database \<times> int result" where
  "mysql_DeleteExpired my c now db =
     (let expired = (\<lambda>r. rr_ExpiresAt r \<le> my_datetime my now)
      in case server my c db 0 ''delete expired registrations: %w''
                (Inr (db\<lparr>tb_registrations := filter (\<lambda>r. \<not> expired r) (tb_registrations db)\<rparr>)) of
           Inl e \<Rightarrow> (db, Inl e)
         | Inr db' \<Rightarrow>
             (db', server my c db 1 ''read deleted registration count: %w''
                     (Inr (int (length (filter expired (tb_registrations db)))))))"

definition mysql_store :: "mysql \<Rightarrow> database registration_store" where
  "mysql_store my =
     \<lparr>st_Upsert = mysql_Upsert my, st_Delete = mysql_Delete my, st_DeleteAll = mysql_DeleteAll my,
      st_ListActive = mysql_ListActive my, st_DeleteExpired = mysql_DeleteExpired my\<rparr>"

subsection \<open>Call records and quality samples\<close>

definition call_row_of :: "mysql \<Rightarrow> event \<Rightarrow> call_row" where
  "call_row_of my e =
     (let at_event = my_datetime my (ev_OccurredAt e)
      in \<lparr>cr_CallID = ev_CallID e, cr_TenantID = ev_TenantID e, cr_NodeID = ev_NodeID e, cr_Direction = ev_Direction e,
          cr_CallerLeg = ev_CallerLeg e, cr_CalleeLeg = ev_CalleeLeg e, cr_State = ev_NewState e,
          cr_StartedAt = at_event,
          cr_AnsweredAt = (if ev_NewState e = StateAnswered then Some at_event else None),
          cr_EndedAt = (if ev_NewState e = StateTerminated \<or> ev_NewState e = StateFailed then Some at_event else None),
          cr_Cause = ev_Reason e, cr_UpdatedAt = at_event\<rparr>)"

definition coalesce :: "'a option \<Rightarrow> 'a option \<Rightarrow> 'a option" where
  "coalesce x y = (case x of None \<Rightarrow> y | Some _ \<Rightarrow> x)"

definition updated_call :: "mysql \<Rightarrow> call_row \<Rightarrow> call_row \<Rightarrow> call_row" where
  "updated_call my new r =
     r\<lparr>cr_State := cr_State new, cr_AnsweredAt := coalesce (cr_AnsweredAt r) (cr_AnsweredAt new),
       cr_EndedAt := coalesce (cr_EndedAt new) (cr_EndedAt r),
       cr_Cause := (if my_eq my (cr_Cause new) '''' then cr_Cause r else cr_Cause new), cr_UpdatedAt := cr_UpdatedAt new\<rparr>"

fun upsert_call :: "mysql \<Rightarrow> call_row \<Rightarrow> call_row list \<Rightarrow> call_row list" where
  "upsert_call my new [] = [new]"
| "upsert_call my new (r # rs) =
     (if cr_CallID r = cr_CallID new then updated_call my new r # rs else r # upsert_call my new rs)"

definition event_row_of :: "mysql \<Rightarrow> event \<Rightarrow> event_row" where
  "event_row_of my e =
     \<lparr>er_CallID = ev_CallID e, er_Sequence = ev_Sequence e, er_TenantID = ev_TenantID e, er_LegID = ev_LegID e,
      er_NodeID = ev_NodeID e, er_OldState = ev_OldState e, er_NewState = ev_NewState e, er_Reason = ev_Reason e,
      er_ProtocolEvent = ev_ProtocolEvent e, er_OccurredAt = my_datetime my (ev_OccurredAt e)\<rparr>"

definition insert_event :: "event_row \<Rightarrow> event_row list \<Rightarrow> event_row list option" where
  "insert_event new rows =
     (if list_ex (\<lambda>r. er_CallID r = er_CallID new \<and> er_Sequence r = er_Sequence new) rows then None
      else Some (rows @ [new]))"

definition WriteCallEvent :: "mysql \<Rightarrow> (event, database) writer" where
  "WriteCallEvent my c e db = outcome db
     (server my c db 0 ''begin call event transaction: %w''
       (server my c db 1 ''upsert call CDR: %w''
         (server my c db 2 ''insert call event: %w''
           (case insert_event (event_row_of my e) (tb_events db) of
              None \<Rightarrow> Inl (Wrapf ''insert call event: %w'' duplicate_entry)
            | Some events \<Rightarrow>
                server my c db 3 ''commit call event transaction: %w''
                  (Inr (db\<lparr>tb_calls := upsert_call my (call_row_of my e) (tb_calls db), tb_events := events\<rparr>))))))"

definition duration_Microseconds :: "duration \<Rightarrow> int" where
  "duration_Microseconds d = sgn d * (\<bar>d\<bar> div 1000)"

definition leg_columns_of :: "leg_summary \<Rightarrow> leg_columns" where
  "leg_columns_of l =
     \<lparr>lc_packets = s_Packets (ls_Inbound l), lc_bytes = s_Bytes (ls_Inbound l), lc_lost = s_Lost (ls_Inbound l),
      lc_reordered = s_Reordered (ls_Inbound l), lc_duplicates = s_Duplicates (ls_Inbound l),
      lc_jitter_samples = s_JitterSamples (ls_Inbound l), lc_rtt_microseconds = duration_Microseconds (ls_RTT l),
      lc_timed_out = ls_TimedOut l\<rparr>"

definition sample_row_of :: "mysql \<Rightarrow> summary \<Rightarrow> sample_row" where
  "sample_row_of my s =
     \<lparr>sr_TenantID = sm_TenantID s, sr_CallID = sm_CallID s, sr_MediaSessionID = sm_MediaSessionID s,
      sr_NodeID = sm_NodeID s, sr_CallerLegID = sm_CallerLegID s, sr_CalleeLegID = sm_CalleeLegID s,
      sr_SampledAt = my_datetime my (sm_SampledAt s), sr_Caller = leg_columns_of (sm_Caller s),
      sr_Callee = leg_columns_of (sm_Callee s), sr_OneWay = sm_OneWay s, sr_DroppedSummaries = sm_DroppedSummaries s\<rparr>"

definition WriteMediaSummary :: "mysql \<Rightarrow> (summary, database) writer" where
  "WriteMediaSummary my c s db = outcome db
     (server my c db 0 ''insert media quality sample: %w'' (Inr (db\<lparr>tb_samples := tb_samples db @ [sample_row_of my s]\<rparr>)))"

subsection \<open>The two registration stores\<close>

datatype reg_op =
    OpUpsert binding int
  | OpDelete string string string
  | OpDeleteAll string string
  | OpList string string time
  | OpExpire time

datatype reg_result = Changed "go_error option" | Listed "binding list result" | Swept "int result"

fun run_op :: "'s registration_store \<Rightarrow> ctx \<Rightarrow> reg_op \<Rightarrow> 's \<Rightarrow> 's \<times> reg_result" where
  "run_op st c (OpUpsert b n) s = (case st_Upsert st c b n s of (s', r) \<Rightarrow> (s', Changed r))"
| "run_op st c (OpDelete t a ct) s = (case st_Delete st c t a ct s of (s', r) \<Rightarrow> (s', Changed r))"
| "run_op st c (OpDeleteAll t a) s = (case st_DeleteAll st c t a s of (s', r) \<Rightarrow> (s', Changed r))"
| "run_op st c (OpList t a now) s = (s, Listed (st_ListActive st c t a now s))"
| "run_op st c (OpExpire now) s = (case st_DeleteExpired st c now s of (s', r) \<Rightarrow> (s', Swept r))"

fun run_ops :: "'s registration_store \<Rightarrow> ctx \<Rightarrow> reg_op list \<Rightarrow> 's \<Rightarrow> reg_result list" where
  "run_ops st c [] s = []"
| "run_ops st c (x # xs) s = (case run_op st c x s of (s', r) \<Rightarrow> r # run_ops st c xs s')"

text \<open>Results are the same up to the order of a list, which neither store fixes.\<close>

fun same_result :: "reg_result \<Rightarrow> reg_result \<Rightarrow> bool" where
  "same_result (Listed (Inr xs)) (Listed (Inr ys)) = (mset xs = mset ys)"
| "same_result r r' = (r = r')"

text \<open>A server that compares texts exactly, returns every row once, and is available.\<close>

definition plain :: "mysql \<Rightarrow> bool" where
  "plain my \<longleftrightarrow> my_eq my = (=) \<and> (\<forall>db rows. mset (my_rows my db rows) = mset rows) \<and> (\<forall>c db k. my_fails my c db k = None)"

text \<open>A binding whose columns keep its values; addresses are IPv4.\<close>

definition representable :: "mysql \<Rightarrow> binding \<Rightarrow> bool" where
  "representable my b \<longleftrightarrow>
     my_datetime my (bi_ExpiresAt b) = bi_ExpiresAt b \<and> my_datetime my (bi_UpdatedAt b) = bi_UpdatedAt b \<and>
     my_decimal my (bi_Q b) = bi_Q b \<and> (\<exists>w p. bi_Received b = AddrPortFrom (Addr4 w) p)"

text \<open>
  The operations on which the stores promise the same: identifiers are new, no two contacts share a
  hash, times are as the columns keep them, and a contact that is registered again has not expired.
\<close>

fun comparable :: "mysql \<Rightarrow> memory \<Rightarrow> reg_op \<Rightarrow> bool" where
  "comparable my m (OpUpsert b n) \<longleftrightarrow>
     representable my b \<and>
     (\<forall>(k, x) \<in> set m. bi_ID x \<noteq> bi_ID b \<and>
        (sha256_Sum (string_bytes (bi_Contact x)) = sha256_Sum (string_bytes (bi_Contact b)) \<longrightarrow> bi_Contact x = bi_Contact b)) \<and>
     (case map_of m (key_of b) of None \<Rightarrow> True | Some x \<Rightarrow> active (bi_UpdatedAt b) x)"
| "comparable my m (OpList t a now) \<longleftrightarrow> my_datetime my now = now"
| "comparable my m (OpExpire now) \<longleftrightarrow> my_datetime my now = now"
| "comparable my m _ \<longleftrightarrow> True"

fun comparable_ops :: "mysql \<Rightarrow> picks \<Rightarrow> ctx \<Rightarrow> reg_op list \<Rightarrow> memory \<Rightarrow> bool" where
  "comparable_ops my p c [] m = True"
| "comparable_ops my p c (x # xs) m \<longleftrightarrow>
     comparable my m x \<and> comparable_ops my p c xs (fst (run_op (memory_store p) c x m))"

text \<open>The rows are the entries of the map, in order.\<close>

definition agree :: "mysql \<Rightarrow> database \<Rightarrow> memory \<Rightarrow> bool" where
  "agree my db m \<longleftrightarrow>
     tb_registrations db = map (registration_row my \<circ> snd) m \<and> memory_inv m \<and> (\<forall>(k, x) \<in> set m. representable my x)"

lemma server_plain: "plain my \<Longrightarrow> ctx_Err c = None \<Longrightarrow> server my c db k msg next = next"
  by (simp add: server_def plain_def)

lemma scan_plain:
  assumes "plain my" and "ctx_Err c = None" and "\<And>r. r \<in> set rows \<Longrightarrow> f r = Inr (g r)"
  shows "scan_rows my c db msg f k rows = Inr (map g rows)"
  using assms(3)
proof (induction rows arbitrary: k)
  case (Cons r rs)
  then show ?case by (simp add: server_plain [OF assms(1,2)])
qed simp

lemma my_rows_set: "plain my \<Longrightarrow> set (my_rows my db rows) = set rows"
  unfolding plain_def by (metis set_mset_mset)

lemma my_rows_length: "plain my \<Longrightarrow> length (my_rows my db rows) = length rows"
  unfolding plain_def by (metis size_mset)

lemma registration_row_sel [simp]:
  "rr_ID (registration_row my b) = bi_ID b" "rr_TenantID (registration_row my b) = bi_TenantID b"
  "rr_AoR (registration_row my b) = bi_AoR b" "rr_Contact (registration_row my b) = bi_Contact b"
  "rr_ContactHash (registration_row my b) = sha256_Sum (string_bytes (bi_Contact b))"
  "rr_ExpiresAt (registration_row my b) = my_datetime my (bi_ExpiresAt b)"
  by (simp_all add: registration_row_def)

lemma row_binding_row: "representable my b \<Longrightarrow> row_binding (registration_row my b) = Inr b"
  by (auto simp: representable_def row_binding_def registration_row_def ParseAddr_v4_string)

lemma agree_active:
  assumes "agree my db m" and "plain my" and "my_datetime my now = now"
  shows "active_rows my t a now (tb_registrations db) =
    map (registration_row my \<circ> snd) (filter (\<lambda>(k, x). of_aor t a k \<and> active now x) m)"
proof -
  have "(of_address my t a (registration_row my (snd e)) \<and> now < my_datetime my (bi_ExpiresAt (snd e))) =
      (case e of (k, x) \<Rightarrow> of_aor t a k \<and> active now x)" if "e \<in> set m" for e
    using that assms
    by (cases e) (auto simp: agree_def plain_def memory_inv_def representable_def of_address_def of_aor_def active_def key_of_def)
  then have "filter (\<lambda>r. of_address my t a r \<and> my_datetime my now < rr_ExpiresAt r) (map (registration_row my \<circ> snd) m) =
      map (registration_row my \<circ> snd) (filter (\<lambda>(k, x). of_aor t a k \<and> active now x) m)"
    unfolding filter_map assms(3) comp_def registration_row_sel
    by (intro arg_cong [where f = "map _"] filter_cong) simp_all
  then show ?thesis using assms(1) by (simp add: active_rows_def agree_def)
qed

lemma same_contact_key:
  assumes "plain my" and "memory_inv m" and "e \<in> set m" and "comparable my m (OpUpsert b n)"
  shows "same_contact my (registration_row my b) (registration_row my (snd e)) \<longleftrightarrow> fst e = key_of b"
proof (cases e)
  case (Pair k x)
  then have "key_of x = k" using assms(2,3) by (auto simp: memory_inv_def)
  then show ?thesis using assms(1,3,4) Pair by (auto simp: same_contact_def of_address_def plain_def key_of_def)
qed

lemma update_map:
  "distinct (map fst m) \<Longrightarrow>
     AList.update k v m = (if k \<in> fst ` set m then map (\<lambda>e. if fst e = k then (k, v) else e) m else m @ [(k, v)])"
proof (induction m)
  case (Cons e m)
  have "map (\<lambda>e. if fst e = k then (k, v) else e) m = m" if "k \<notin> fst ` set m"
    using that by (intro map_idI) auto
  then show ?case using Cons by (cases e) auto
qed simp

lemma updated_registration_row:
  "key_of x = key_of b \<Longrightarrow> updated_row (registration_row my b) (registration_row my x) = registration_row my b"
  by (simp add: updated_row_def registration_row_def key_of_def)

lemma insert_agrees:
  assumes "plain my" and "memory_inv m" and "comparable my m (OpUpsert b n)"
  shows "insert_registration my (registration_row my b) (map (registration_row my \<circ> snd) m) =
    map (registration_row my \<circ> snd) (AList.update (key_of b) b m)"
proof -
  let ?new = "registration_row my b" and ?rows = "map (registration_row my \<circ> snd) m"
  have ids: "\<not> list_ex (\<lambda>r. rr_ID r = rr_ID ?new) ?rows" using assms(3) by (fastforce simp: list_ex_iff)
  note same = same_contact_key [OF assms(1,2) _ assms(3)]
  have ex: "list_ex (same_contact my ?new) ?rows \<longleftrightarrow> key_of b \<in> fst ` set m"
    using same by (force simp: list_ex_iff)
  have upd: "map (\<lambda>r. if same_contact my ?new r then updated_row ?new r else r) ?rows =
      map (registration_row my \<circ> snd) (map (\<lambda>e. if fst e = key_of b then (key_of b, b) else e) m)"
    using same assms(2) by (auto simp: memory_inv_def intro!: updated_registration_row)
  have dist: "distinct (map fst m)" using assms(2) by (simp add: memory_inv_def)
  show ?thesis
    unfolding insert_registration_def update_map [OF dist] if_not_P [OF ids] ex upd by simp
qed

lemma upsert_agrees:
  assumes "plain my" and "ctx_Err c = None" and "agree my db m" and "comparable my m (OpUpsert b n)"
    and "mysql_Upsert my c b n db = (db', r)" and "memory_Upsert c b n m = (m', r')"
  shows "agree my db' m' \<and> r = r'"
proof -
  let ?live = "filter (\<lambda>(k, x). of_aor (bi_TenantID b) (bi_AoR b) k \<and> active (bi_UpdatedAt b) x) m"
  let ?rows = "my_rows my db (active_rows my (bi_TenantID b) (bi_AoR b) (bi_UpdatedAt b) (tb_registrations db))"
  have inv: "memory_inv m" and rep: "representable my b" using assms(3,4) by (auto simp: agree_def)
  have rows: "active_rows my (bi_TenantID b) (bi_AoR b) (bi_UpdatedAt b) (tb_registrations db) = map (registration_row my \<circ> snd) ?live"
    by (rule agree_active [OF assms(3,1)]) (use rep in \<open>simp add: representable_def\<close>)
  have scan: "scan_rows my c db msg (\<lambda>r. Inr (rr_Contact r)) k ?rows = Inr (map rr_Contact ?rows)" for msg k
    by (rule scan_plain [OF assms(1,2)]) simp
  have count: "length (map rr_Contact ?rows) = length ?live" using my_rows_length [OF assms(1)] by (simp add: rows)
  have contacts: "set (map rr_Contact ?rows) = (\<lambda>e. bi_Contact (snd e)) ` set ?live"
    unfolding set_map my_rows_set [OF assms(1)] rows image_image by (simp only: comp_def registration_row_sel)
  have keys: "key_of (snd e) = fst e" if "e \<in> set m" for e using that inv by (auto simp: memory_inv_def)
  have live: "e \<in> set ?live \<and> bi_Contact b = bi_Contact (snd e) \<longleftrightarrow> e \<in> set m \<and> fst e = key_of b \<and> active (bi_UpdatedAt b) (snd e)" for e
  proof (cases e)
    case (Pair k x)
    show ?thesis using keys [of e] unfolding Pair by (auto simp: of_aor_def key_of_def)
  qed
  have "bi_Contact b \<in> set (map rr_Contact ?rows) \<longleftrightarrow> (\<exists>e. e \<in> set m \<and> fst e = key_of b \<and> active (bi_UpdatedAt b) (snd e))"
    unfolding contacts image_iff Bex_def live ..
  also have "\<dots> \<longleftrightarrow> (\<exists>x. map_of m (key_of b) = Some x \<and> active (bi_UpdatedAt b) x)"
    unfolding memory_lookup [OF inv] by (metis fst_conv snd_conv prod.collapse)
  finally have stored: "bi_Contact b \<in> set (map rr_Contact ?rows) \<longleftrightarrow> map_of m (key_of b) \<noteq> None"
    using assms(4) by (auto split: option.splits)
  have all: "\<forall>(k, x) \<in> set (AList.update (key_of b) b m). representable my x"
    using assms(3) rep set_update_subset [of "key_of b" b m] by (fastforce simp: agree_def)
  have ins: "insert_registration my (registration_row my b) (tb_registrations db) =
      map (registration_row my \<circ> snd) (AList.update (key_of b) b m)"
    using insert_agrees [OF assms(1) inv assms(4)] assms(3) by (simp add: agree_def)
  define new where "new = AList.update (key_of b) b m"
  define full where "full \<longleftrightarrow> map_of m (key_of b) = None \<and> n \<le> int (length ?live)"
  have mysql: "mysql_Upsert my c b n db =
      (if full then (db, Some ErrBindingLimit) else (db\<lparr>tb_registrations := map (registration_row my \<circ> snd) new\<rparr>, None))"
    unfolding mysql_Upsert_def server_plain [OF assms(1,2)] scan sum.case stored count ins full_def new_def outcome_def
    by simp
  have memory: "memory_Upsert c b n m = (if full then (m, Some ErrBindingLimit) else (new, None))"
    unfolding memory_Upsert_def full_def new_def Let_def assms(2) option.case key_of_def by simp
  have "agree my (db\<lparr>tb_registrations := map (registration_row my \<circ> snd) new\<rparr>) new"
    using all memory_inv_update [OF inv, of b] by (simp add: agree_def new_def)
  then show ?thesis using assms(3,5,6) mysql memory by (auto split: if_splits)
qed

lemma agree_filter:
  assumes "agree my db m"
    and "\<And>e. key_of (snd e) = fst e \<Longrightarrow> representable my (snd e) \<Longrightarrow> P (registration_row my (snd e)) = Q e"
  shows "agree my (db\<lparr>tb_registrations := filter P (tb_registrations db)\<rparr>) (filter Q m)"
    and "length (filter (\<lambda>r. \<not> P r) (tb_registrations db)) = length (filter (\<lambda>e. \<not> Q e) m)"
proof -
  have eq: "P (registration_row my (snd e)) = Q e" if "e \<in> set m" for e
    by (rule assms(2)) (use assms(1) that in \<open>auto simp: agree_def memory_inv_def\<close>)
  have rows: "tb_registrations db = map (registration_row my \<circ> snd) m" using assms(1) by (simp add: agree_def)
  have "filter P (tb_registrations db) = map (registration_row my \<circ> snd) (filter Q m)"
    unfolding rows filter_map comp_def by (intro arg_cong [where f = "map _"] filter_cong) (simp_all add: eq)
  then show "agree my (db\<lparr>tb_registrations := filter P (tb_registrations db)\<rparr>) (filter Q m)"
    using assms(1) by (auto simp: agree_def memory_inv_filter)
  have "filter (\<lambda>e. \<not> P (registration_row my (snd e))) m = filter (\<lambda>e. \<not> Q e) m"
    by (intro filter_cong) (simp_all add: eq)
  then show "length (filter (\<lambda>r. \<not> P r) (tb_registrations db)) = length (filter (\<lambda>e. \<not> Q e) m)"
    unfolding rows filter_map comp_def by simp
qed

lemma list_agrees:
  assumes "plain my" and "ctx_Err c = None" and "agree my db m" and "my_datetime my now = now"
  shows "\<exists>xs ys. mysql_ListActive my c t a now db = Inr xs \<and> memory_ListActive p c t a now m = Inr ys \<and> mset xs = mset ys"
proof -
  let ?live = "filter (\<lambda>(k, x). of_aor t a k \<and> active now x) m"
  let ?rows = "my_rows my db (active_rows my t a now (tb_registrations db))"
  define g where "g r = (case row_binding r of Inr x \<Rightarrow> x | Inl _ \<Rightarrow> undefined)" for r
  have rows: "active_rows my t a now (tb_registrations db) = map (registration_row my \<circ> snd) ?live"
    by (rule agree_active [OF assms(3,1,4)])
  have decode: "row_binding (registration_row my (snd e)) = Inr (snd e)" if "e \<in> set m" for e
    using that assms(3) by (cases e) (auto simp: agree_def intro!: row_binding_row)
  have "scan_rows my c db msg row_binding k ?rows = Inr (map g ?rows)" for msg k
    by (rule scan_plain [OF assms(1,2)]) (auto simp: my_rows_set [OF assms(1)] rows g_def dest!: decode)
  then have list: "mysql_ListActive my c t a now db = Inr (map g ?rows)"
    by (simp add: mysql_ListActive_def server_plain [OF assms(1,2)])
  have "mset ?rows = mset (map (registration_row my \<circ> snd) ?live)" using assms(1) by (simp add: plain_def rows)
  then have "mset (map g ?rows) = mset (map g (map (registration_row my \<circ> snd) ?live))" by (simp only: mset_map)
  also have "map g (map (registration_row my \<circ> snd) ?live) = map snd ?live"
    unfolding map_map by (rule map_cong [OF refl]) (auto simp: g_def dest!: decode)
  also have "mset (map snd ?live) = mset (map snd (filter (\<lambda>(k, x). of_aor t a k \<and> active now x) (visit (p m now) m)))"
    by (simp add: mset_filter)
  finally show ?thesis using list by (simp add: memory_ListActive_def assms(2))
qed

lemma op_agrees:
  assumes "plain my" and "ctx_Err c = None" and "agree my db m" and "comparable my m x"
    and "run_op (mysql_store my) c x db = (db', r)" and "run_op (memory_store p) c x m = (m', r')"
  shows "agree my db' m' \<and> same_result r r'"
proof (cases x)
  case (OpUpsert b n)
  then show ?thesis
    using upsert_agrees [OF assms(1,2,3), of b n] assms(4-6) by (auto simp: mysql_store_def split: prod.splits)
next
  case (OpDelete t a ct)
  have "agree my (db\<lparr>tb_registrations := filter (\<lambda>r. \<not> (of_address my t a r \<and> my_eq my (rr_Contact r) ct)) (tb_registrations db)\<rparr>)
      (filter (\<lambda>e. (t, a, ct) \<noteq> fst e) m)"
    by (rule agree_filter(1) [OF assms(3)]) (use assms(1) in \<open>auto simp: of_address_def plain_def key_of_def\<close>)
  then show ?thesis
    using assms(5,6) OpDelete
    by (auto simp: mysql_store_def mysql_Delete_def memory_Delete_def server_plain [OF assms(1,2)] outcome_def assms(2)
        AList.delete_eq split_def)
next
  case (OpDeleteAll t a)
  have "agree my (db\<lparr>tb_registrations := filter (\<lambda>r. \<not> of_address my t a r) (tb_registrations db)\<rparr>)
      (filter (\<lambda>(k, _). \<not> of_aor t a k) m)"
    by (rule agree_filter(1) [OF assms(3)]) (use assms(1) in \<open>auto simp: of_address_def of_aor_def plain_def key_of_def\<close>)
  then show ?thesis
    using assms(5,6) OpDeleteAll
    by (auto simp: mysql_store_def mysql_DeleteAll_def memory_DeleteAll_def server_plain [OF assms(1,2)] outcome_def assms(2))
next
  case (OpList t a now)
  then show ?thesis
    using list_agrees [OF assms(1,2,3), of now t a p] assms(3-6) by (auto simp: mysql_store_def)
next
  case (OpExpire now)
  have live: "(\<not> rr_ExpiresAt (registration_row my (snd e)) \<le> my_datetime my now) = (case e of (_, y) \<Rightarrow> active now y)"
    if "representable my (snd e)" for e :: "binding_key \<times> binding"
    using that assms(4) OpExpire by (auto simp: representable_def active_def)
  note kept = agree_filter [OF assms(3), where P = "\<lambda>r. \<not> rr_ExpiresAt r \<le> my_datetime my now" and Q = "\<lambda>(_, y). active now y", OF live]
  have "length (filter (\<lambda>r. rr_ExpiresAt r \<le> my_datetime my now) (tb_registrations db)) = length (filter (\<lambda>(_, y). \<not> active now y) m)"
    using kept(2) by (simp add: split_def)
  then show ?thesis
    using kept(1) assms(5,6) OpExpire
    by (auto simp: mysql_store_def mysql_DeleteExpired_def memory_DeleteExpired_def server_plain [OF assms(1,2)] assms(2) Let_def)
qed

lemma ops_agree:
  assumes "plain my" and "ctx_Err c = None" and "agree my db m" and "comparable_ops my p c ops m"
  shows "list_all2 same_result (run_ops (mysql_store my) c ops db) (run_ops (memory_store p) c ops m)"
  using assms(3,4)
proof (induction ops arbitrary: db m)
  case (Cons x xs)
  obtain db' r m' r' where run: "run_op (mysql_store my) c x db = (db', r)" "run_op (memory_store p) c x m = (m', r')"
    by fastforce
  have "agree my db' m' \<and> same_result r r'"
    by (rule op_agrees [OF assms(1,2) Cons.prems(1) _ run]) (use Cons.prems(2) in simp)
  then show ?case using Cons run by simp
qed simp


text \<open>A server that is available, and a phone that registers, registers again, is listed and expires.\<close>

definition exact_mysql :: mysql where
  "exact_mysql =
     \<lparr>my_eq = (=), my_datetime = (\<lambda>t. t), my_decimal = (\<lambda>q. q), my_rows = (\<lambda>_ rows. rev rows),
      my_fails = (\<lambda>_ _ _. None)\<rparr>"

definition empty_database :: "credential list \<Rightarrow> database" where
  "empty_database cs = \<lparr>tb_credentials = cs, tb_registrations = [], tb_calls = [], tb_events = [], tb_samples = []\<rparr>"

definition sample_ops :: "reg_op list" where
  "sample_ops =
     [OpUpsert sample_binding 1, OpUpsert (sample_binding\<lparr>bi_ID := ''id2'', bi_ExpiresAt := 170\<rparr>) 1,
      OpUpsert (sample_binding\<lparr>bi_ID := ''id3'', bi_AoR := ''sip:eve@pbx''\<rparr>) 0,
      OpList ''t'' ''sip:bob@pbx'' 120, OpExpire 170]"

lemma sample_ops_memory:
  "comparable_ops exact_mysql sample_picks context_Background sample_ops NewRegistrationStore"
  "run_ops (memory_store sample_picks) context_Background sample_ops NewRegistrationStore =
     [Changed None, Changed None, Changed (Some ErrBindingLimit),
      Listed (Inr [sample_binding\<lparr>bi_ID := ''id2'', bi_ExpiresAt := 170\<rparr>]), Swept (Inr 1)]"
  by (simp_all add: sample_ops_def sample_binding_def exact_mysql_def representable_def NewRegistrationStore_def
      memory_Upsert_def memory_ListActive_def memory_DeleteExpired_def context_Background_def key_of_def of_aor_def active_def
      sample_picks_def)


end
