(* ===== verification/Call_Records.thy ===== *)
theory Call_Records
  imports Mysql_Store
begin

text \<open>
  What the tables of the MySQL store hold over time: the keys the schema promises, the call detail
  records as summaries of the stored events, and the record that a call actor, its event queue and
  the writer of \<open>internal/platform/mysql/store.go\<close> leave of one call.
\<close>

subsection \<open>Steps of the store\<close>

text \<open>Any operation by any client, whether it succeeds or not; \<open>writes\<close> limits the events that are written.\<close>

inductive store_step :: "mysql \<Rightarrow> (event \<Rightarrow> bool) \<Rightarrow> database \<Rightarrow> database \<Rightarrow> bool"
  for my :: mysql and writes :: "event \<Rightarrow> bool" where
  store_upsert: "mysql_Upsert my c b n db = (db', r) \<Longrightarrow> store_step my writes db db'"
| store_delete: "mysql_Delete my c t a ct db = (db', r) \<Longrightarrow> store_step my writes db db'"
| store_delete_all: "mysql_DeleteAll my c t a db = (db', r) \<Longrightarrow> store_step my writes db db'"
| store_expire: "mysql_DeleteExpired my c now db = (db', x) \<Longrightarrow> store_step my writes db db'"
| store_event: "writes e \<Longrightarrow> WriteCallEvent my c e db = (db', r) \<Longrightarrow> store_step my writes db db'"
| store_summary: "WriteMediaSummary my c s db = (db', r) \<Longrightarrow> store_step my writes db db'"

inductive_cases store_stepE: "store_step my writes db db'"

subsection \<open>Specification\<close>

text \<open>The keys of the migrations: primary keys, the unique key of a registration, and the foreign key of an event.\<close>

definition registrations_keyed :: "mysql \<Rightarrow> reg_row list \<Rightarrow> bool" where
  "registrations_keyed my rows \<longleftrightarrow> distinct (map rr_ID rows) \<and> sorted_wrt (\<lambda>r new. \<not> same_contact my new r) rows"

definition calls_keyed :: "call_row list \<Rightarrow> event_row list \<Rightarrow> bool" where
  "calls_keyed calls events \<longleftrightarrow>
     distinct (map cr_CallID calls) \<and> distinct (map (\<lambda>e. (er_CallID e, er_Sequence e)) events) \<and>
     er_CallID ` set events \<subseteq> cr_CallID ` set calls"

fun first_of :: "'a list \<Rightarrow> 'a option" where
  "first_of [] = None"
| "first_of (x # xs) = Some x"

definition events_of :: "string \<Rightarrow> event_row list \<Rightarrow> event_row list" where
  "events_of callID events = filter (\<lambda>e. er_CallID e = callID) events"

definition times_of :: "(state \<Rightarrow> bool) \<Rightarrow> event_row list \<Rightarrow> time list" where
  "times_of P events = map er_OccurredAt (filter (\<lambda>e. P (er_NewState e)) events)"

text \<open>The call detail record that a sequence of events of one call amounts to.\<close>

definition summarises :: "mysql \<Rightarrow> call_row \<Rightarrow> event_row list \<Rightarrow> bool" where
  "summarises my r es \<longleftrightarrow>
     es \<noteq> [] \<and> cr_TenantID r = er_TenantID (hd es) \<and> cr_NodeID r = er_NodeID (hd es) \<and>
     cr_StartedAt r = er_OccurredAt (hd es) \<and> cr_State r = er_NewState (last es) \<and>
     cr_UpdatedAt r = er_OccurredAt (last es) \<and>
     cr_AnsweredAt r = first_of (times_of (\<lambda>s. s = StateAnswered) es) \<and>
     cr_EndedAt r = first_of (rev (times_of isTerminal es)) \<and>
     cr_Cause r = last (er_Reason (hd es) # filter (\<lambda>x. \<not> my_eq my x '''') (map er_Reason es))"

definition calls_summarised :: "mysql \<Rightarrow> database \<Rightarrow> bool" where
  "calls_summarised my db \<longleftrightarrow> (\<forall>r \<in> set (tb_calls db). summarises my r (events_of (cr_CallID r) (tb_events db)))"

subsection \<open>What the operations do to the tables\<close>

lemma server_ok: "server my c db k msg next = Inr x \<Longrightarrow> next = Inr x"
  by (auto simp: server_def split: option.splits)

lemma outcome_cases:
  assumes "outcome db r = (db', err)"
  obtains e where "r = Inl e" "db' = db" "err = Some e" | "r = Inr db'" "err = None"
  using assms by (auto simp: outcome_def split: sum.splits)

lemma Upsert_tables:
  assumes "mysql_Upsert my c b n db = (db', r)"
  shows "db' = db \<or> db' = db\<lparr>tb_registrations := insert_registration my (registration_row my b) (tb_registrations db)\<rparr>"
  using assms unfolding mysql_Upsert_def
  by (rule outcome_cases) (auto dest!: server_ok split: sum.splits if_splits)

lemma Delete_tables:
  assumes "mysql_Delete my c t a ct db = (db', r) \<or> mysql_DeleteAll my c t a db = (db', r) \<or>
    mysql_DeleteExpired my c now db = (db', x)"
  shows "\<exists>P. db' = db\<lparr>tb_registrations := filter P (tb_registrations db)\<rparr>"
proof -
  have same: "\<exists>P. d = d\<lparr>tb_registrations := filter P (tb_registrations d)\<rparr>" for d :: database
    by (rule exI [of _ "\<lambda>_. True"]) simp
  show ?thesis
    using assms unfolding mysql_Delete_def mysql_DeleteAll_def
    by (auto elim!: outcome_cases dest!: server_ok simp: mysql_DeleteExpired_def Let_def split: sum.splits intro: same)
qed

lemma WriteCallEvent_tables:
  assumes "WriteCallEvent my c e db = (db', r)"
  obtains (failed) x where "db' = db" "r = Some x"
  | (stored) "db' = db\<lparr>tb_calls := upsert_call my (call_row_of my e) (tb_calls db), tb_events := tb_events db @ [event_row_of my e]\<rparr>"
      "\<not> list_ex (\<lambda>x. er_CallID x = ev_CallID e \<and> er_Sequence x = ev_Sequence e) (tb_events db)" "r = None"
  using assms unfolding WriteCallEvent_def
  by (rule outcome_cases) (auto dest!: server_ok simp: insert_event_def event_row_of_def split: option.splits if_splits)

lemma WriteMediaSummary_tables:
  "WriteMediaSummary my c s db = (db', r) \<Longrightarrow> db' = db \<or> db' = db\<lparr>tb_samples := tb_samples db @ [sample_row_of my s]\<rparr>"
  unfolding WriteMediaSummary_def by (erule outcome_cases) (auto dest!: server_ok)

text \<open>A step changes the registrations, or the samples, or writes one event.\<close>

lemma store_step_tables:
  assumes "store_step my writes db db'"
  obtains (registrations) b where "db' = db\<lparr>tb_registrations := insert_registration my (registration_row my b) (tb_registrations db)\<rparr>"
  | (removed) P where "db' = db\<lparr>tb_registrations := filter P (tb_registrations db)\<rparr>"
  | (sampled) rows where "db' = db\<lparr>tb_samples := rows\<rparr>"
  | (written) e where "writes e"
      "db' = db\<lparr>tb_calls := upsert_call my (call_row_of my e) (tb_calls db), tb_events := tb_events db @ [event_row_of my e]\<rparr>"
      "\<not> list_ex (\<lambda>x. er_CallID x = ev_CallID e \<and> er_Sequence x = ev_Sequence e) (tb_events db)"
proof -
  have same: thesis if "db' = db" by (rule sampled [of "tb_samples db"]) (simp add: that)
  have filtered: thesis if "\<exists>P. db' = db\<lparr>tb_registrations := filter P (tb_registrations db)\<rparr>"
    using that removed by blast
  show thesis
    using assms
  proof cases
    case (store_upsert c b n r)
    from Upsert_tables [OF store_upsert] show thesis using registrations same by blast
  next
    case (store_event e c r)
    from store_event(2) show thesis
    proof (cases rule: WriteCallEvent_tables)
      case stored
      then show thesis using written [OF store_event(1)] by blast
    qed (use same in blast)
  next
    case (store_summary c s r)
    from WriteMediaSummary_tables [OF store_summary] show thesis using sampled same by blast
  next
    case (store_delete c t a ct r)
    then show thesis by (intro filtered Delete_tables) blast
  next
    case (store_delete_all c t a r)
    then show thesis by (intro filtered Delete_tables) blast
  next
    case (store_expire c now x)
    then show thesis by (intro filtered Delete_tables) blast
  qed
qed

subsection \<open>Keys\<close>

text \<open>A collation compares texts by an equivalence.\<close>

definition collation :: "mysql \<Rightarrow> bool" where
  "collation my \<longleftrightarrow> equivp (my_eq my)"

lemma sorted_wrt_pair:
  "sorted_wrt P xs \<Longrightarrow> x \<in> set xs \<Longrightarrow> y \<in> set xs \<Longrightarrow> x = y \<or> P x y \<or> P y x"
  by (induction xs) auto

lemma same_contact_updated [simp]:
  "same_contact my (updated_row n r) s = same_contact my r s" "same_contact my r (updated_row n s) = same_contact my r s"
  "rr_ID (updated_row n r) = rr_ID n"
  by (simp_all add: same_contact_def of_address_def updated_row_def)

lemma same_contact_join:
  "collation my \<Longrightarrow> same_contact my new x \<Longrightarrow> same_contact my new y \<Longrightarrow> same_contact my y x"
  unfolding collation_def same_contact_def of_address_def by (metis equivp_symp equivp_transp)

lemma insert_registration_keyed:
  assumes "collation my" and "registrations_keyed my rows"
  shows "registrations_keyed my (insert_registration my new rows)"
proof -
  let ?byID = "\<lambda>r. if rr_ID r = rr_ID new then updated_row new r else r"
  let ?byContact = "\<lambda>r. if same_contact my new r then updated_row new r else r"
  have ids: "distinct (map rr_ID rows)" and sorted: "sorted_wrt (\<lambda>r s. \<not> same_contact my s r) rows"
    using assms(2) by (simp_all add: registrations_keyed_def)
  have sorted': "sorted_wrt (\<lambda>r s. \<not> same_contact my s r) (map ?byID rows)"
    "sorted_wrt (\<lambda>r s. \<not> same_contact my s r) (map ?byContact rows)"
    using sorted by (auto simp: sorted_wrt_map elim!: sorted_wrt_mono_rel [rotated])
  have "map rr_ID (map ?byID rows) = map rr_ID rows" by simp
  then have 1: "registrations_keyed my (map ?byID rows)" using ids sorted'(1) by (simp only: registrations_keyed_def)
  have 2: "registrations_keyed my (map ?byContact rows)" if "\<not> list_ex (\<lambda>r. rr_ID r = rr_ID new) rows"
  proof -
    have "inj_on (\<lambda>r. rr_ID (?byContact r)) (set rows)"
    proof (rule inj_onI)
      fix x y
      assume xy: "x \<in> set rows" "y \<in> set rows" "rr_ID (?byContact x) = rr_ID (?byContact y)"
      have "rr_ID x \<noteq> rr_ID new" "rr_ID y \<noteq> rr_ID new" using that xy(1,2) by (auto simp: list_ex_iff)
      with xy(3) have "same_contact my new x \<and> same_contact my new y \<or> rr_ID x = rr_ID y" by (auto split: if_splits)
      then show "x = y"
        using sorted_wrt_pair [OF sorted xy(1,2)] same_contact_join [OF assms(1)] ids xy(1,2)
        by (auto simp: distinct_map inj_on_def)
    qed
    then have "distinct (map rr_ID (map ?byContact rows))" using ids by (simp add: distinct_map comp_def)
    then show ?thesis using sorted'(2) by (simp only: registrations_keyed_def)
  qed
  have 3: "registrations_keyed my (rows @ [new])"
    if "\<not> list_ex (\<lambda>r. rr_ID r = rr_ID new) rows" "\<not> list_ex (same_contact my new) rows"
    using ids sorted that by (auto simp: registrations_keyed_def sorted_wrt_append list_ex_iff)
  show ?thesis unfolding insert_registration_def using 1 2 3 by simp
qed

lemma filter_keyed: "registrations_keyed my rows \<Longrightarrow> registrations_keyed my (filter P rows)"
  by (simp add: registrations_keyed_def distinct_map_filter sorted_wrt_filter)

lemma row_sel [simp]:
  "cr_CallID (updated_call my new r) = cr_CallID r" "cr_CallID (call_row_of my e) = ev_CallID e"
  "er_CallID (event_row_of my e) = ev_CallID e" "er_Sequence (event_row_of my e) = ev_Sequence e"
  by (simp_all add: updated_call_def call_row_of_def event_row_of_def Let_def)

lemma upsert_call_ids:
  "map cr_CallID (upsert_call my new rows) =
     (if cr_CallID new \<in> cr_CallID ` set rows then map cr_CallID rows else map cr_CallID rows @ [cr_CallID new])"
  by (induction rows) auto

lemma upsert_call_rows:
  assumes "distinct (map cr_CallID rows)" and "x \<in> set (upsert_call my new rows)"
  obtains (other) "x \<in> set rows" "cr_CallID x \<noteq> cr_CallID new"
  | (updated) r where "r \<in> set rows" "cr_CallID r = cr_CallID new" "x = updated_call my new r"
  | (inserted) "x = new" "cr_CallID new \<notin> cr_CallID ` set rows"
proof -
  have "x \<in> set rows \<and> cr_CallID x \<noteq> cr_CallID new \<or>
      (\<exists>r. r \<in> set rows \<and> cr_CallID r = cr_CallID new \<and> x = updated_call my new r) \<or>
      x = new \<and> cr_CallID new \<notin> cr_CallID ` set rows"
    using assms
  proof (induction rows)
    case (Cons r rows)
    show ?case
    proof (cases "cr_CallID r = cr_CallID new")
      case True
      then have "x = updated_call my new r \<or> x \<in> set rows" "cr_CallID new \<notin> cr_CallID ` set rows"
        using Cons.prems by auto
      then show ?thesis using True by (metis image_eqI list.set_intros)
    next
      case False
      then have "x = r \<or> x \<in> set (upsert_call my new rows)" using Cons.prems by simp
      then show ?thesis using Cons.IH Cons.prems(1) False by auto
    qed
  qed simp
  then show thesis using that by blast
qed

lemma event_keyed:
  assumes "calls_keyed calls events"
    and "\<not> list_ex (\<lambda>x. er_CallID x = ev_CallID e \<and> er_Sequence x = ev_Sequence e) events"
  shows "calls_keyed (upsert_call my (call_row_of my e) calls) (events @ [event_row_of my e])"
proof -
  have ids: "cr_CallID ` set (upsert_call my (call_row_of my e) calls) = insert (ev_CallID e) (cr_CallID ` set calls)"
    unfolding set_map [symmetric] upsert_call_ids by auto
  show ?thesis
    unfolding calls_keyed_def ids upsert_call_ids
    using assms by (auto simp: calls_keyed_def list_ex_iff)
qed

lemma store_registrations_keyed:
  assumes "store_step my writes db db'" and "collation my" and "registrations_keyed my (tb_registrations db)"
  shows "registrations_keyed my (tb_registrations db')"
  using assms(1)
  by (cases rule: store_step_tables)
    (use assms(3) in \<open>simp_all add: insert_registration_keyed [OF assms(2)] filter_keyed\<close>)

lemma store_calls_keyed:
  assumes "store_step my writes db db'" and "calls_keyed (tb_calls db) (tb_events db)"
  shows "calls_keyed (tb_calls db') (tb_events db')"
  using assms(1) by (cases rule: store_step_tables) (use assms(2) in \<open>simp_all add: event_keyed\<close>)

subsection \<open>Call detail records\<close>

lemma summarises_first: "summarises my (call_row_of my e) [event_row_of my e]"
  by (simp add: summarises_def call_row_of_def event_row_of_def times_of_def isTerminal_def Let_def)

lemma summarises_next:
  assumes "summarises my r es"
  shows "summarises my (updated_call my (call_row_of my e) r) (es @ [event_row_of my e])"
proof -
  have first: "first_of (xs @ ys) = (case first_of xs of None \<Rightarrow> first_of ys | Some x \<Rightarrow> Some x)" for xs ys :: "time list"
    by (cases xs) simp_all
  note old = assms [unfolded summarises_def]
  note rows = updated_call_def call_row_of_def event_row_of_def Let_def
  let ?r = "updated_call my (call_row_of my e) r" and ?es = "es @ [event_row_of my e]"
  have times: "times_of P ?es = times_of P es @ (if P (ev_NewState e) then [my_datetime my (ev_OccurredAt e)] else [])" for P
    by (simp add: times_of_def event_row_of_def)
  have answered: "cr_AnsweredAt r = first_of (times_of (\<lambda>s. s = StateAnswered) es)"
    and ended: "cr_EndedAt r = first_of (rev (times_of isTerminal es))"
    and cause: "cr_Cause r = last (er_Reason (hd es) # filter (\<lambda>x. \<not> my_eq my x '''') (map er_Reason es))"
    and es: "es \<noteq> []" and ids: "cr_TenantID r = er_TenantID (hd es)" "cr_NodeID r = er_NodeID (hd es)"
    and started: "cr_StartedAt r = er_OccurredAt (hd es)"
    using old by simp_all
  have r: "cr_AnsweredAt ?r = coalesce (cr_AnsweredAt r) (if ev_NewState e = StateAnswered then Some (my_datetime my (ev_OccurredAt e)) else None)"
    "cr_EndedAt ?r = coalesce (if isTerminal (ev_NewState e) then Some (my_datetime my (ev_OccurredAt e)) else None) (cr_EndedAt r)"
    "cr_Cause ?r = (if my_eq my (ev_Reason e) '''' then cr_Cause r else ev_Reason e)"
    "er_Reason (event_row_of my e) = ev_Reason e"
    "cr_TenantID ?r = cr_TenantID r" "cr_NodeID ?r = cr_NodeID r" "cr_StartedAt ?r = cr_StartedAt r"
    "cr_State ?r = er_NewState (event_row_of my e)" "cr_UpdatedAt ?r = er_OccurredAt (event_row_of my e)"
    by (simp_all add: rows isTerminal_def)
  have 1: "cr_AnsweredAt ?r = first_of (times_of (\<lambda>s. s = StateAnswered) ?es)"
    unfolding times first r answered coalesce_def by (simp split: option.split)
  have 2: "cr_EndedAt ?r = first_of (rev (times_of isTerminal ?es))"
    unfolding times r ended coalesce_def by simp
  have 3: "cr_Cause ?r = last (er_Reason (hd ?es) # filter (\<lambda>x. \<not> my_eq my x '''') (map er_Reason ?es))"
    unfolding r cause map_append filter_append hd_append2 [OF es] by (simp add: r(4))
  have 4: "cr_TenantID ?r = er_TenantID (hd ?es)" "cr_NodeID ?r = er_NodeID (hd ?es)"
    "cr_StartedAt ?r = er_OccurredAt (hd ?es)" "cr_State ?r = er_NewState (last ?es)" "cr_UpdatedAt ?r = er_OccurredAt (last ?es)"
    unfolding r ids started hd_append2 [OF es] by simp_all
  show ?thesis unfolding summarises_def by (intro conjI 1 2 3 4) simp
qed

lemma store_summaries:
  assumes "store_step my writes db db'" and "calls_keyed (tb_calls db) (tb_events db)" and "calls_summarised my db"
  shows "calls_summarised my db'"
  using assms(1)
proof (cases rule: store_step_tables)
  case (written e)
  have dist: "distinct (map cr_CallID (tb_calls db))" using assms(2) by (simp add: calls_keyed_def)
  have "summarises my x (events_of (cr_CallID x) (tb_events db @ [event_row_of my e]))"
    if "x \<in> set (upsert_call my (call_row_of my e) (tb_calls db))" for x
    using dist that
  proof (cases rule: upsert_call_rows)
    case other
    then show ?thesis using assms(3) by (auto simp: calls_summarised_def events_of_def)
  next
    case (updated r)
    then have "summarises my r (events_of (ev_CallID e) (tb_events db))" using assms(3) by (auto simp: calls_summarised_def)
    from summarises_next [OF this] show ?thesis using updated by (simp add: events_of_def)
  next
    case inserted
    have "er_CallID y \<in> cr_CallID ` set (tb_calls db)" if "y \<in> set (tb_events db)" for y
      using assms(2) that unfolding calls_keyed_def by blast
    with inserted(2) have "events_of (ev_CallID e) (tb_events db) = []"
      unfolding events_of_def filter_empty_conv by (metis row_sel(2))
    then show ?thesis using inserted by (simp add: events_of_def summarises_first)
  qed
  then show ?thesis using written(2) by (simp add: calls_summarised_def)
qed (use assms(3) in \<open>simp_all add: calls_summarised_def\<close>)

lemma store_calls:
  assumes "(store_step my writes)\<^sup>*\<^sup>* (empty_database cs) db"
  shows "calls_keyed (tb_calls db) (tb_events db) \<and> calls_summarised my db \<and>
    (\<forall>x \<in> set (tb_events db). \<exists>e. writes e \<and> x = event_row_of my e)"
  using assms
proof induction
  case base
  show ?case by (simp add: empty_database_def calls_keyed_def calls_summarised_def)
next
  case (step db db')
  have "\<forall>x \<in> set (tb_events db'). \<exists>e. writes e \<and> x = event_row_of my e"
    using step(2) by (cases rule: store_step_tables) (use step(3) in auto)
  then show ?case using step store_calls_keyed store_summaries by blast
qed

subsection \<open>Properties of the tables\<close>


text \<open>C15: The call detail records always are the summary of the stored events. After any sequence of
  operations on the empty tables, there is a record exactly for the calls that have events; its
  state and last change are those of the last event of the call, its start is the time of the first,
  its answer time that of the first event that reports an answer, its end that of the last event
  that reports a terminal state, and its cause the last reason given.\<close>

theorem cdr_summarises_events:
  assumes "(store_step my (\<lambda>_. True))\<^sup>*\<^sup>* (empty_database cs) db"
  shows "cr_CallID ` set (tb_calls db) = er_CallID ` set (tb_events db) \<and>
    list_all (\<lambda>r. summarises my r (events_of (cr_CallID r) (tb_events db))) (tb_calls db)"
proof -
  have calls: "calls_keyed (tb_calls db) (tb_events db)" "calls_summarised my db" using store_calls [OF assms] by simp_all
  have "cr_CallID r \<in> er_CallID ` set (tb_events db)" if "r \<in> set (tb_calls db)" for r
  proof -
    have "events_of (cr_CallID r) (tb_events db) \<noteq> []"
      using calls(2) that by (auto simp: calls_summarised_def summarises_def)
    then show ?thesis unfolding events_of_def filter_empty_conv by (metis image_eqI)
  qed
  then show ?thesis using calls by (auto simp: calls_keyed_def calls_summarised_def list_all_iff)
qed

text \<open>A call that is announced and fails, and a registration.\<close>

definition sample_failed :: event where
  "sample_failed = sample_created\<lparr>ev_Sequence := 2, ev_OldState := StateNew, ev_NewState := StateFailed,
     ev_Reason := ''busy'', ev_OccurredAt := 130\<rparr>"

definition sample_cdr :: call_row where
  "sample_cdr =
     \<lparr>cr_CallID = ''c'', cr_TenantID = ''t'', cr_NodeID = ''n'', cr_Direction = DirectionInternal, cr_CallerLeg = ''a'',
      cr_CalleeLeg = ''b'', cr_State = StateFailed, cr_StartedAt = 100, cr_AnsweredAt = None, cr_EndedAt = Some 130,
      cr_Cause = ''busy'', cr_UpdatedAt = 130\<rparr>"

definition sample_database :: database where
  "sample_database =
     \<lparr>tb_credentials = [], tb_registrations = [registration_row exact_mysql sample_binding], tb_calls = [sample_cdr],
      tb_events = [event_row_of exact_mysql sample_created, event_row_of exact_mysql sample_failed], tb_samples = []\<rparr>"

lemma sample_database_reach: "(store_step exact_mysql (\<lambda>_. True))\<^sup>*\<^sup>* (empty_database []) sample_database"
proof -
  let ?d1 = "fst (WriteCallEvent exact_mysql context_Background sample_created (empty_database []))"
  let ?d2 = "fst (WriteCallEvent exact_mysql context_Background sample_failed ?d1)"
  let ?d3 = "fst (mysql_Upsert exact_mysql context_Background sample_binding 1 ?d2)"
  have "store_step exact_mysql (\<lambda>_. True) (empty_database []) ?d1" "store_step exact_mysql (\<lambda>_. True) ?d1 ?d2"
    by (rule store_event [OF TrueI prod.collapse [symmetric]])+
  moreover have "store_step exact_mysql (\<lambda>_. True) ?d2 ?d3" by (rule store_upsert [OF prod.collapse [symmetric]])
  moreover have "?d3 = sample_database"
    by (simp add: WriteCallEvent_def mysql_Upsert_def server_def exact_mysql_def context_Background_def outcome_def
        empty_database_def insert_event_def event_row_of_def call_row_of_def updated_call_def coalesce_def
        sample_failed_def sample_created_def sample_database_def sample_cdr_def active_rows_def insert_registration_def Let_def)
  ultimately show ?thesis by (metis rtranclp.rtrancl_into_rtrancl rtranclp.rtrancl_refl)
qed


theorem cdr_summarises_events_witness:
  "summarises exact_mysql sample_cdr (events_of ''c'' (tb_events sample_database)) \<and> cr_EndedAt sample_cdr = Some 130"
  using cdr_summarises_events [OF sample_database_reach] by (simp add: sample_database_def sample_cdr_def)

subsection \<open>Failures\<close>

datatype write_op =
    DoUpsert binding int
  | DoDelete string string string
  | DoDeleteAll string string
  | DoEvent event
  | DoSummary summary

fun run_write :: "mysql \<Rightarrow> ctx \<Rightarrow> write_op \<Rightarrow> database \<Rightarrow> database \<times> go_error option" where
  "run_write my c (DoUpsert b n) = mysql_Upsert my c b n"
| "run_write my c (DoDelete t a ct) = mysql_Delete my c t a ct"
| "run_write my c (DoDeleteAll t a) = mysql_DeleteAll my c t a"
| "run_write my c (DoEvent e) = WriteCallEvent my c e"
| "run_write my c (DoSummary s) = WriteMediaSummary my c s"

text \<open>An error of the context, the server, or a key that is taken, under the text of the call that met it.\<close>

definition reported :: "mysql \<Rightarrow> ctx \<Rightarrow> database \<Rightarrow> go_error \<Rightarrow> bool" where
  "reported my c db e \<longleftrightarrow>
     (\<exists>msg x. e = Wrapf msg x \<and> (ctx_Err c = Some x \<or> (\<exists>k. my_fails my c db k = Some x) \<or> x = duplicate_entry))"

lemma server_error:
  assumes "server my c db k msg next = Inl e"
  shows "reported my c db e \<or> next = Inl e"
  using assms by (auto simp: server_def reported_def split: option.splits)

lemma scan_error:
  assumes "scan_rows my c db msg (\<lambda>r. Inr (f r)) k rows = Inl e"
  shows "reported my c db e"
  using assms by (induction rows arbitrary: k) (auto dest!: server_error split: sum.splits)

lemma server_cancelled: "ctx_Err c = Some x \<Longrightarrow> server my c db k msg next = Inl (Wrapf msg x)"
  by (simp add: server_def)

lemma run_write_outcome:
  "\<exists>q. run_write my c x db = outcome db q \<and>
     (\<forall>e. q = Inl e \<longrightarrow> reported my c db e \<or> e = ErrBindingLimit \<and> (\<exists>b n. x = DoUpsert b n)) \<and>
     (\<forall>y. ctx_Err c = Some y \<longrightarrow> (\<exists>msg. q = Inl (Wrapf msg y)))"
proof (cases x)
  case (DoUpsert b n)
  show ?thesis
    unfolding DoUpsert run_write.simps mysql_Upsert_def
    by (rule exI, rule conjI, rule refl)
      (auto dest!: server_error scan_error split: sum.splits if_splits simp: server_cancelled)
next
  case (DoEvent e)
  have taken: "reported my c db (Wrapf msg duplicate_entry)" for msg by (simp add: reported_def)
  show ?thesis
    unfolding DoEvent run_write.simps WriteCallEvent_def
    by (rule exI, rule conjI, rule refl) (auto dest!: server_error split: option.splits simp: server_cancelled taken)
next
  case (DoDelete t a ct)
  show ?thesis
    unfolding DoDelete run_write.simps mysql_Delete_def
    by (rule exI, rule conjI, rule refl) (auto dest!: server_error simp: server_cancelled)
next
  case (DoDeleteAll t a)
  show ?thesis
    unfolding DoDeleteAll run_write.simps mysql_DeleteAll_def
    by (rule exI, rule conjI, rule refl) (auto dest!: server_error simp: server_cancelled)
next
  case (DoSummary s)
  show ?thesis
    unfolding DoSummary run_write.simps WriteMediaSummary_def
    by (rule exI, rule conjI, rule refl) (auto dest!: server_error simp: server_cancelled)
qed


text \<open>The failure of a commit, after everything else of the transaction succeeded.\<close>

definition uncommitted_mysql :: mysql where
  "uncommitted_mysql = exact_mysql\<lparr>my_fails := (\<lambda>_ _ k. if k = 3 then Some (Errorf ''lock wait timeout'') else None)\<rparr>"


subsection \<open>A call, its queue and its record\<close>

text \<open>
  The environment of a call actor: the consumer of the event queue writes to the database, and any
  other client of the store works on it, where the events of other calls may be written.
\<close>

definition store_env ::
  "mysql \<Rightarrow> string \<Rightarrow> (event chan, event, database) bus_history \<Rightarrow> (event chan, event, database) bus_history \<Rightarrow> bool" where
  "store_env my callID h h' \<longleftrightarrow>
     consumes (WriteCallEvent my) h h' \<or>
     (\<exists>db'. store_step my (\<lambda>e. ev_CallID e \<noteq> callID) (bh_writer h) db' \<and> h' = h\<lparr>bh_writer := db'\<rparr>)"

definition row_of_call :: "call \<Rightarrow> call_row \<Rightarrow> bool" where
  "row_of_call cl r \<longleftrightarrow>
     cr_CallID r = call_ID cl \<and> cr_TenantID r = call_TenantID cl \<and> cr_NodeID r = call_NodeID cl \<and>
     cr_Direction r = call_Direction cl \<and> cr_CallerLeg r = call_CallerLeg cl \<and> cr_CalleeLeg r = call_CalleeLeg cl"

text \<open>What the tables hold of one call when the consumer has written the events \<open>stored\<close> of it.\<close>

definition call_stored :: "mysql \<Rightarrow> call \<Rightarrow> event list \<Rightarrow> database \<Rightarrow> bool" where
  "call_stored my cl stored db \<longleftrightarrow>
     events_of (call_ID cl) (tb_events db) = map (event_row_of my) stored \<and>
     (\<forall>r \<in> set (tb_calls db). cr_CallID r = call_ID cl \<longrightarrow> row_of_call cl r)"

definition recorded :: "mysql \<Rightarrow> call \<Rightarrow> nat \<Rightarrow> (event chan, event, database) bus_history \<Rightarrow> bool" where
  "recorded my cl n h \<longleftrightarrow>
     queue_inv n h \<and> calls_keyed (tb_calls (bh_writer h)) (tb_events (bh_writer h)) \<and> calls_summarised my (bh_writer h) \<and>
     (list_all (correlated cl) (bh_sent h) \<longrightarrow> call_stored my cl (bh_stored h) (bh_writer h))"

lemma consumes_cases:
  assumes "consumes wr h h'"
  obtains (stored) c e where "bh_serve h = Serving" "ch_buf (bh_bus h) = e # ch_buf (bh_bus h')"
      "wr c e (bh_writer h) = (bh_writer h', None)" "bh_stored h' = bh_stored h @ [e]" "bh_sent h' = bh_sent h"
  | (failed) c e x where "wr c e (bh_writer h) = (bh_writer h', Some x)" "bh_stored h' = bh_stored h" "bh_sent h' = bh_sent h"
  | (stopped) "bh_writer h' = bh_writer h" "bh_stored h' = bh_stored h" "bh_sent h' = bh_sent h"
proof -
  obtain c where c: "history_deliver CallBus_deliver wr c h = Some h'" using assms by (auto simp: consumes_def)
  then have sv: "bh_serve h = Serving" by (cases "bh_serve h = Serving") (simp_all add: history_deliver_def)
  with c obtain b w st sv where
    d: "CallBus_deliver c (logged_write wr) (bh_bus h) (bh_writer h, bh_stored h) = Some (b, (w, st), sv)"
    and h': "h' = h\<lparr>bh_bus := b, bh_writer := w, bh_stored := st, bh_serve := sv\<rparr>"
    by (auto simp: history_deliver_def split: option.splits)
  show thesis
  proof (cases sv)
    case Serving
    from callbus.deliver_stored [OF d [unfolded Serving]] obtain e where
      e: "ch_buf (bh_bus h) = e # ch_buf b" "logged_write wr c e (bh_writer h, bh_stored h) = ((w, st), None)" by blast
    show thesis by (rule stored [of e c]) (use e sv h' in \<open>auto simp: logged_write_def split: prod.splits option.splits\<close>)
  next
    case (Returned r)
    show thesis
    proof (cases r)
      case None
      from callbus.deliver_stopped [OF d [unfolded Returned None]] show thesis by (intro stopped) (use h' in auto)
    next
      case (Some x)
      from callbus.deliver_failed [OF d [unfolded Returned Some]] obtain e y where
        e: "logged_write wr c e (bh_writer h, bh_stored h) = ((w, st), Some y)" by blast
      show thesis by (rule failed [of c e y]) (use e h' in \<open>auto simp: logged_write_def split: prod.splits option.splits\<close>)
    qed
  qed
qed

lemma row_of_call_new: "correlated cl e \<Longrightarrow> row_of_call cl (call_row_of my e)"
  by (simp add: row_of_call_def correlated_def call_row_of_def Let_def)

lemma row_of_call_updated [simp]: "row_of_call cl (updated_call my new r) = row_of_call cl r"
  by (simp add: row_of_call_def updated_call_def)

lemma call_stored_written:
  assumes "call_stored my cl stored db" and "distinct (map cr_CallID (tb_calls db))"
    and "correlated cl e \<or> ev_CallID e \<noteq> call_ID cl"
  shows "call_stored my cl (if ev_CallID e = call_ID cl then stored @ [e] else stored)
    (db\<lparr>tb_calls := upsert_call my (call_row_of my e) (tb_calls db), tb_events := tb_events db @ [event_row_of my e]\<rparr>)"
proof -
  have "row_of_call cl x" if "x \<in> set (upsert_call my (call_row_of my e) (tb_calls db))" "cr_CallID x = call_ID cl" for x
    using assms(2) that(1)
  proof (cases rule: upsert_call_rows)
    case inserted
    then show ?thesis using assms(3) that(2) by (auto intro: row_of_call_new)
  qed (use assms(1) that(2) in \<open>auto simp: call_stored_def\<close>)
  then show ?thesis using assms(1) by (simp add: call_stored_def events_of_def)
qed

lemma call_stored_other:
  assumes "store_step my (\<lambda>e. ev_CallID e \<noteq> call_ID cl) db db'" and "calls_keyed (tb_calls db) (tb_events db)"
    and "call_stored my cl stored db"
  shows "call_stored my cl stored db'"
  using assms(1)
proof (cases rule: store_step_tables)
  case (written e)
  then show ?thesis using call_stored_written [OF assms(3), of e] assms(2) by (simp add: calls_keyed_def)
qed (use assms(3) in \<open>simp_all add: call_stored_def\<close>)

lemma recorded_consumes:
  assumes "consumes (WriteCallEvent my) h h'" and "recorded my cl n h"
  shows "recorded my cl n h'"
proof -
  have queue: "queue_inv n h'" using calllog.env_inv [OF assms(1)] assms(2) by (simp add: recorded_def)
  have old: "calls_keyed (tb_calls (bh_writer h)) (tb_events (bh_writer h))" "calls_summarised my (bh_writer h)"
    "list_all (correlated cl) (bh_sent h) \<Longrightarrow> call_stored my cl (bh_stored h) (bh_writer h)"
    using assms(2) by (simp_all add: recorded_def)
  have unchanged: "recorded my cl n h'" if "bh_writer h' = bh_writer h" "bh_stored h' = bh_stored h" "bh_sent h' = bh_sent h"
    using queue old that by (simp add: recorded_def)
  show ?thesis
    using assms(1)
  proof (cases rule: consumes_cases)
    case (stored c e)
    have step: "store_step my (\<lambda>_. True) (bh_writer h) (bh_writer h')" by (rule store_event [OF TrueI stored(3)])
    have "e \<in> set (bh_sent h)" using assms(2) stored(1,2) by (simp add: recorded_def queue_inv_def fifo_def)
    then have "correlated cl e" if "list_all (correlated cl) (bh_sent h)" using that by (simp add: list_all_iff)
    moreover from stored(3) have "bh_writer h' = (bh_writer h)\<lparr>tb_calls := upsert_call my (call_row_of my e) (tb_calls (bh_writer h)),
        tb_events := tb_events (bh_writer h) @ [event_row_of my e]\<rparr>"
      by (cases rule: WriteCallEvent_tables) simp_all
    ultimately have "call_stored my cl (bh_stored h') (bh_writer h')" if "list_all (correlated cl) (bh_sent h)"
      using call_stored_written [OF old(3) [OF that], of e] old(1) that stored(4)
      by (simp add: calls_keyed_def correlated_def)
    then show ?thesis
      using queue store_calls_keyed [OF step old(1)] store_summaries [OF step old(1,2)] stored(5)
      by (simp add: recorded_def)
  next
    case (failed c e x)
    from failed(1) have "bh_writer h' = bh_writer h" by (cases rule: WriteCallEvent_tables) simp_all
    then show ?thesis using failed unchanged by simp
  qed (rule unchanged)
qed

lemma queue_inv_writer: "queue_inv n (h\<lparr>bh_writer := w\<rparr>) = queue_inv n h"
  by (simp add: queue_inv_def fifo_def split: serve.split option.split)

lemma recorded_other:
  assumes "store_step my (\<lambda>e. ev_CallID e \<noteq> call_ID cl) (bh_writer h) db'" and "recorded my cl n h"
  shows "recorded my cl n (h\<lparr>bh_writer := db'\<rparr>)"
  using assms store_calls_keyed [OF assms(1)] store_summaries [OF assms(1)] call_stored_other [OF assms(1)]
  by (simp add: recorded_def queue_inv_writer)

interpretation recordlog: call_publisher
  "history_publish CallBus_Publish" "store_env my (call_ID cl)" bh_sent "recorded my cl n" for my cl n
proof
  fix c e and h h' :: "(event chan, event, database) bus_history"
  assume "history_publish CallBus_Publish c e h = Some (h', None)"
  then show "bh_sent h' = bh_sent h @ [e]" by (rule calllog.accept)
next
  fix c e and h h' :: "(event chan, event, database) bus_history" and err
  assume "history_publish CallBus_Publish c e h = Some (h', Some err)"
  then show "bh_sent h' = bh_sent h" by (rule calllog.refuse)
next
  fix my cl and h h' :: "(event chan, event, database) bus_history"
  assume "store_env my (call_ID cl) h h'"
  then show "bh_sent h' = bh_sent h" by (auto simp: store_env_def dest: calllog.env_accepted)
next
  fix c e and h h' :: "(event chan, event, database) bus_history" and r n my cl
  assume pub: "history_publish CallBus_Publish c e h = Some (h', r)" and inv: "recorded my cl n h"
  have "bh_writer h' = bh_writer h \<and> bh_stored h' = bh_stored h \<and> (bh_sent h' = bh_sent h \<or> bh_sent h' = bh_sent h @ [e])"
    using pub by (auto simp: history_publish_def split: option.splits)
  then show "recorded my cl n h'"
    using inv calllog.pub_inv [OF pub] by (auto simp: recorded_def)
next
  fix my cl and h h' :: "(event chan, event, database) bus_history" and n
  assume "store_env my (call_ID cl) h h'" and "recorded my cl n h"
  then show "recorded my cl n h'"
    by (auto simp: store_env_def intro: recorded_consumes recorded_other)
qed

lemma chain_last: "chain s es t \<Longrightarrow> es \<noteq> [] \<Longrightarrow> ev_NewState (last es) = t"
  by (induction s es t rule: chain.induct) auto

lemma lifecycle_last: "lifecycle cl es s \<Longrightarrow> 1 < length es \<Longrightarrow> ev_NewState (last es) = s"
  by (cases es) (auto simp: lifecycle_def chain_last)

text \<open>In the events stored so far a terminal state is reported by the last one only.\<close>

lemma terminal_stored:
  assumes "lifecycle cl (stored @ rest) s" and "e \<in> set stored" and "isTerminal (ev_NewState e)"
  shows "e = last stored"
proof -
  obtain xs ys where stored: "stored = xs @ e # ys" using assms(2) by (meson split_list)
  have "xs \<noteq> []"
    using assms(1,3) by (cases xs) (auto simp: stored lifecycle_def announces_def isTerminal_def)
  then have "ys @ rest = []" using lifecycle_terminal_last [of cl xs e "ys @ rest" s] assms(1,3) by (simp add: stored)
  then show ?thesis by (simp add: stored)
qed

lemma record_of_call:
  assumes "recorded my cl n h" and "lifecycle cl (bh_sent h) s" and "r \<in> set (tb_calls (bh_writer h))" and "cr_CallID r = call_ID cl"
  shows "row_of_call cl r \<and> cr_State r = ev_NewState (last (bh_stored h)) \<and>
    (cr_EndedAt r \<noteq> None \<longleftrightarrow> isTerminal (cr_State r))"
proof -
  have stored: "call_stored my cl (bh_stored h) (bh_writer h)" and sum: "calls_summarised my (bh_writer h)"
    and queue: "fifo ch_buf h"
    using assms(1,2) by (simp_all add: recorded_def queue_inv_def lifecycle_def list_all_iff)
  have es: "summarises my r (map (event_row_of my) (bh_stored h))"
    using sum stored assms(3,4) by (metis calls_summarised_def call_stored_def)
  have state: "er_NewState (event_row_of my e) = ev_NewState e" for e by (simp add: event_row_of_def)
  have ne: "bh_stored h \<noteq> []" and st: "cr_State r = ev_NewState (last (bh_stored h))"
    using es by (simp_all add: summarises_def last_map state)
  obtain rest where rest: "bh_sent h = bh_stored h @ rest"
    using queue by (auto simp: fifo_def split: serve.splits option.splits)
  have "cr_EndedAt r \<noteq> None \<longleftrightarrow> (\<exists>e \<in> set (bh_stored h). isTerminal (ev_NewState e))"
  proof -
    have "cr_EndedAt r = first_of (rev (times_of isTerminal (map (event_row_of my) (bh_stored h))))"
      using es by (simp only: summarises_def)
    moreover have "first_of xs \<noteq> None \<longleftrightarrow> xs \<noteq> []" for xs :: "time list" by (cases xs) simp_all
    ultimately show ?thesis by (simp add: times_of_def filter_empty_conv filter_map comp_def state)
  qed
  also have "\<dots> \<longleftrightarrow> isTerminal (cr_State r)"
    using terminal_stored [OF assms(2) [unfolded rest]] ne st by (metis last_in_set)
  finally show ?thesis using stored assms(3,4) st by (auto simp: call_stored_def)
qed


text \<open>The sample call is announced, cancelled, and all its events are written.\<close>

definition sample_closing :: "64 word \<Rightarrow> state \<Rightarrow> state \<Rightarrow> time \<Rightarrow> event" where
  "sample_closing k old new now = sample_created\<lparr>ev_Sequence := k, ev_OldState := old, ev_NewState := new,
     ev_Reason := ''context canceled'', ev_ProtocolEvent := ''shutdown'', ev_OccurredAt := now\<rparr>"

definition record_history :: "event list \<Rightarrow> event list \<Rightarrow> database \<Rightarrow> (event chan, event, database) bus_history" where
  "record_history stored queued db =
     \<lparr>bh_bus = \<lparr>ch_cap = 4, ch_buf = queued\<rparr>, bh_sent = stored @ queued, bh_writer = db, bh_stored = stored, bh_serve = Serving\<rparr>"

lemma record_consumes:
  "WriteCallEvent my context_Background e db = (db', None) \<Longrightarrow>
     store_env my callID (record_history stored (e # queued) db) (record_history (stored @ [e]) queued db')"
  unfolding store_env_def consumes_def
  by (intro disjI1 exI [of _ context_Background])
    (simp add: history_deliver_def record_history_def CallBus_deliver_def select_recv_def chan_recv_def logged_write_def
      context_Background_def)

lemma record_start:
  "actor_start (history_publish CallBus_Publish) context_Background sample_actor (new_history (chan_make 4) (empty_database [])) =
     Some (sample_running, record_history [] [sample_created] (empty_database []))"
  by (simp add: actor_start_def actor_publish_def clock_Now_def history_publish_def CallBus_Publish_def
      select_send_def chan_send_def new_history_def context_Background_def sample_actor_def sample_call_def
      sample_created_def sample_running_def record_history_def chan_make_def Let_def)



lemma record_cancel:
  "\<exists>a. run_iteration (history_publish CallBus_Publish) (ArmDone context_Background context_Background)
       sample_running (record_history [sample_created] [] db) =
     Some (a, record_history [sample_created]
       [sample_closing 2 StateNew StateTerminating 102, sample_closing 3 StateTerminating StateTerminated 104] db) \<and>
     call_State (actor_Snapshot a) = StateTerminated"
  by (simp add: actor_shutdown_def actor_apply_def actor_publish_def clock_Now_def history_publish_def CallBus_Publish_def
      select_send_def chan_send_def enter_state_def sample_running_def sample_actor_def sample_call_def sample_created_def
      shutdown_transition_def record_history_def sample_closing_def context_Background_def storeSnapshot_def actor_Snapshot_def
      isTerminal_def Let_def)

lemma record_reach:
  "\<exists>a db. actor_reach (history_publish CallBus_Publish) (store_env exact_mysql ''c'')
       (sample_actor, new_history (chan_make 4) (empty_database [])) (a, record_history
         [sample_created, sample_closing 2 StateNew StateTerminating 102, sample_closing 3 StateTerminating StateTerminated 104] [] db) \<and>
     call_State (actor_Snapshot a) = StateTerminated"
proof -
  let ?reach = "actor_reach (history_publish CallBus_Publish) (store_env exact_mysql ''c'')
       (sample_actor, new_history (chan_make 4) (empty_database []))"
  note eval = WriteCallEvent_def server_def exact_mysql_def context_Background_def outcome_def insert_event_def event_row_of_def
    sample_closing_def sample_created_def empty_database_def
  let ?e2 = "sample_closing 2 StateNew StateTerminating 102"
  let ?e3 = "sample_closing 3 StateTerminating StateTerminated 104"
  obtain d1 where d1: "WriteCallEvent exact_mysql context_Background sample_created (empty_database []) = (d1, None)"
    by (simp add: eval)
  obtain d2 where d2: "WriteCallEvent exact_mysql context_Background ?e2 d1 = (d2, None)"
    using d1 by (auto simp: eval)
  obtain d3 where d3: "WriteCallEvent exact_mysql context_Background ?e3 d2 = (d3, None)"
    using d1 d2 by (auto simp: eval)
  have "?reach (sample_running, record_history [] [sample_created] (empty_database []))"
    by (rule reach_step [OF reach_refl], rule step_start [OF _ record_start]) (simp add: sample_actor_def)
  then have 1: "?reach (sample_running, record_history [sample_created] [] d1)"
    by (rule reach_step) (use record_consumes [OF d1, of _ "[]" "[]"] in \<open>auto intro: step_env\<close>)
  obtain a where a: "run_iteration (history_publish CallBus_Publish) (ArmDone context_Background context_Background)
       sample_running (record_history [sample_created] [] d1) = Some (a, record_history [sample_created] [?e2, ?e3] d1)"
    "call_State (actor_Snapshot a) = StateTerminated"
    using record_cancel by blast
  from 1 have "?reach (a, record_history [sample_created] [?e2, ?e3] d1)"
    by (rule reach_step) (rule step_run [OF sample_running_phase(1) a(1)])
  then have "?reach (a, record_history [sample_created, ?e2] [?e3] d2)"
    by (rule reach_step) (use record_consumes [OF d2, of _ "[sample_created]" "[?e3]"] in \<open>auto intro: step_env\<close>)
  then have "?reach (a, record_history [sample_created, ?e2, ?e3] [] d3)"
    by (rule reach_step) (use record_consumes [OF d3, of _ "[sample_created, ?e2]" "[]"] in \<open>auto intro: step_env\<close>)
  then show ?thesis using a(2) by blast
qed


end
