(* ===== verification/Sip.thy ===== *)
theory Sip
  imports Go_Strings Netip
begin

text \<open>
  The messages of \<open>github.com/emiago/sipgo/sip\<close> as the handlers of the PBX see them. The package
  itself is not part of the sources: a received request or response is the record of what its
  accessors return, the functions on URIs and dialog identifiers are the parameters \<open>sip_pkg\<close>, and
  a message the PBX builds is the record of what it put in. A body is a byte string.
\<close>

text \<open>Header parameters are what \<open>Get\<close> returns for a name.\<close>

type_synonym params = "string \<Rightarrow> string option"

record sip_uri =
  uri_Wildcard :: bool
  uri_User :: string
  uri_Host :: string
  uri_rest :: string

record address_header =
  ah_Address :: sip_uri
  ah_Params :: params

text \<open>A header: a \<open>ContactHeader\<close>, or any other with its name and value.\<close>

datatype sip_header =
    ContactHeader address_header
  | Header string string

text \<open>\<open>GetHeader\<close> and \<open>GetHeaders\<close> are looked up by name; \<open>None\<close> is \<open>nil\<close>.\<close>

record sip_request =
  req_Method :: string
  req_Recipient :: sip_uri
  req_From :: "address_header option"
  req_To :: "address_header option"
  req_Contact :: "address_header option"
  req_CSeq :: "32 word"
  req_Body :: string
  req_Source :: string
  req_Transport :: string
  req_GetHeader :: "string \<Rightarrow> string option"
  req_GetHeaders :: "string \<Rightarrow> sip_header list"

text \<open>A response the PBX sends: \<open>NewResponseFromRequest\<close> and the headers appended to it.\<close>

record sip_response =
  rsp_StatusCode :: int
  rsp_Reason :: string
  rsp_Body :: string
  rsp_Headers :: "sip_header list"

definition NewResponse :: "int \<Rightarrow> string \<Rightarrow> string \<Rightarrow> sip_response" where
  "NewResponse code reason body =
     \<lparr>rsp_StatusCode = code, rsp_Reason = reason, rsp_Body = body, rsp_Headers = []\<rparr>"

definition AppendHeader :: "sip_header \<Rightarrow> sip_response \<Rightarrow> sip_response" where
  "AppendHeader h r = r\<lparr>rsp_Headers := rsp_Headers r @ [h]\<rparr>"

text \<open>A response received from the other side, with what its accessors return.\<close>

record sip_answer = sip_response +
  an_ContentType :: "sip_header option"
  an_GetHeaders :: "string \<Rightarrow> sip_header list"

text \<open>A request the PBX builds: \<open>NewRequest\<close> and what is set and appended.\<close>

record out_request =
  oq_Method :: string
  oq_Recipient :: sip_uri
  oq_From :: "address_header option"
  oq_Transport :: string
  oq_Destination :: string
  oq_Body :: string
  oq_Headers :: "sip_header list"

definition NewRequest :: "string \<Rightarrow> sip_uri \<Rightarrow> out_request" where
  "NewRequest m recipient =
     \<lparr>oq_Method = m, oq_Recipient = recipient, oq_From = None, oq_Transport = [], oq_Destination = [],
      oq_Body = [], oq_Headers = []\<rparr>"

record sip_pkg =
  uri_Addr :: "sip_uri \<Rightarrow> string"
  ParseUri :: "string \<Rightarrow> sip_uri result"
  DialogIDFromRequestUAS :: "sip_request \<Rightarrow> string result"
  DialogIDFromRequestUAC :: "sip_request \<Rightarrow> string result"


definition uri_zero :: sip_uri where
  "uri_zero = \<lparr>uri_Wildcard = False, uri_User = [], uri_Host = [], uri_rest = []\<rparr>"

definition StatusTrying :: int where "StatusTrying = 100"
definition StatusRinging :: int where "StatusRinging = 180"
definition StatusOK :: int where "StatusOK = 200"
definition StatusBadRequest :: int where "StatusBadRequest = 400"
definition StatusUnauthorized :: int where "StatusUnauthorized = 401"
definition StatusForbidden :: int where "StatusForbidden = 403"
definition StatusNotFound :: int where "StatusNotFound = 404"
definition StatusRequestTimeout :: int where "StatusRequestTimeout = 408"
definition StatusUnsupportedMediaType :: int where "StatusUnsupportedMediaType = 415"
definition StatusCallTransactionDoesNotExists :: int where "StatusCallTransactionDoesNotExists = 481"
definition StatusNotAcceptableHere :: int where "StatusNotAcceptableHere = 488"
definition StatusRequestPending :: int where "StatusRequestPending = 491"
definition StatusInternalServerError :: int where "StatusInternalServerError = 500"
definition StatusServiceUnavailable :: int where "StatusServiceUnavailable = 503"

lemmas sip_status =
  StatusTrying_def StatusRinging_def StatusOK_def StatusBadRequest_def StatusUnauthorized_def
  StatusForbidden_def StatusNotFound_def StatusRequestTimeout_def StatusUnsupportedMediaType_def
  StatusCallTransactionDoesNotExists_def StatusNotAcceptableHere_def StatusRequestPending_def
  StatusInternalServerError_def StatusServiceUnavailable_def

lemma NewResponse_sel [simp]:
  "rsp_StatusCode (NewResponse code reason body) = code" "rsp_Reason (NewResponse code reason body) = reason"
  "rsp_Body (NewResponse code reason body) = body" "rsp_Headers (NewResponse code reason body) = []"
  by (simp_all add: NewResponse_def)

lemma AppendHeader_sel [simp]:
  "rsp_StatusCode (AppendHeader h r) = rsp_StatusCode r" "rsp_Reason (AppendHeader h r) = rsp_Reason r"
  "rsp_Body (AppendHeader h r) = rsp_Body r" "rsp_Headers (AppendHeader h r) = rsp_Headers r @ [h]"
  by (simp_all add: AppendHeader_def)

end
