(* ===== verification/B2bua_Session.thy ===== *)
theory B2bua_Session
  imports Call Registration Sip Media_Session "HOL-Library.Monad_Syntax"
begin

text \<open>
  The session of \<open>internal/sip/b2bua\<close>: the goroutine that owns one call between two SIP dialogs
  (\<open>session\<close> and its methods in \<open>engine.go\<close>, and all of the session's part of \<open>in_dialog.go\<close>). It
  drives the call actor of \<open>Call\<close>, resolves the callee with the manager of \<open>Registration\<close>, reads
  and builds the bodies of \<open>Sdp\<close> and owns a media session of \<open>Media_Session\<close>.

  The dialogs and transactions of sipgo are not part of the sources. Everything the session does to
  them is recorded in \<open>bs_log\<close>, and what they answer is given by functions of the log so far in
  \<open>b2b_env\<close>, so that they may answer differently each time. \<open>None\<close> is a call that has not
  returned.
\<close>

subsection \<open>Data\<close>

record b2b_config =
  bc_TenantID :: string
  bc_Realm :: string
  bc_NodeID :: string
  bc_MaxActiveCalls :: int
  bc_MailboxSize :: int
  bc_InviteTimeout :: duration
  bc_DispatchTimeout :: duration

datatype hangup_origin = hangupCaller | hangupCallee

datatype command_kind = commandHangup | commandReInvite | commandRefer | commandNotify

text \<open>A transaction and a result channel are identified by numbers.\<close>

record session_command =
  sc_kind :: command_kind
  sc_origin :: hangup_origin
  sc_request :: sip_request
  sc_transaction :: nat
  sc_result :: "nat option"

definition statusSessionProgress :: int where "statusSessionProgress = 183"

definition errMediaNegotiation :: go_error where
  "errMediaNegotiation = Sentinel ''media negotiation failed''"

record out_dialog =
  od_ID :: string
  od_InviteRequest :: out_request
  od_InviteResponse :: "sip_answer option"

datatype dialog_act =
    Responded sip_response
  | Invited out_request
  | Awaited
  | Acked
  | ByeToCallee
  | ByeToCaller
  | OutboundStored string
  | Transitioned state "go_error option"
  | RelayedToCallee out_request
  | RelayedToCaller out_request
  | TxResponded nat sip_response
  | ReInvitePending nat "32 word"
  | TxTerminated nat
  | CommandDone nat
  | InboundClosed

text \<open>
  One call of \<open>Transition\<close> and the goroutines around it: what the actor and the other users of its
  publisher do before the command is offered and before the caller stops waiting, and the arms the
  two \<open>select\<close> statements take.
\<close>

datatype 'b actor_move = ActorStart ctx | ActorArm run_arm | Others "'b \<Rightarrow> 'b"

datatype send_arm = SendAccepted | SendClosed | SendExpired

datatype wait_arm = WaitReply | WaitClosed | WaitExpired

record 'b dispatch =
  dp_before :: "'b actor_move list"
  dp_send :: send_arm
  dp_sendCtx :: ctx
  dp_between :: "'b actor_move list"
  dp_wait :: wait_arm
  dp_waitCtx :: ctx

text \<open>
  \<open>WaitAnswer\<close> passes the responses it receives to its callback, until the callback returns an error
  or a final response or the end of the context determines the outcome.
\<close>

datatype wait_outcome = WaitAnswered sip_answer | WaitRejected "sip_answer option" | WaitFailed go_error

record ('s, 'b, 'm, 'o, 'c) b2b_env =
  be_cfg :: b2b_config
  be_sip :: sip_pkg
  be_pion :: pion
  be_store :: "'s registration_store"
  be_registrations :: "dialog_act list \<Rightarrow> 's"
  be_publisher :: "'b publisher"
  be_summaries :: "'m media_publisher"
  be_udp :: "('o, 'c) udp"
  be_mediaCfg :: media_config
  be_workers :: "media_session \<Rightarrow> 'c pool \<Rightarrow> 'o \<Rightarrow> media_session \<times> 'c pool \<times> 'o \<times> go_error option"
  be_ctx :: "dialog_act list \<Rightarrow> ctx"
  be_now :: "dialog_act list \<Rightarrow> time"
  be_acquire :: "string \<Rightarrow> nat \<Rightarrow> ctx"
  be_random :: "string \<Rightarrow> 8 word list result"
  be_uuid :: "string result"
  be_tag :: string
  be_dispatch :: "dialog_act list \<Rightarrow> 'b dispatch"
  be_finish :: "'b actor_move list"
  be_Respond :: "dialog_act list \<Rightarrow> sip_response \<Rightarrow> go_error option"
  be_WriteInvite :: "dialog_act list \<Rightarrow> out_request \<Rightarrow> string result"
  be_WaitAnswer :: "sip_answer list \<times> wait_outcome"
  be_Ack :: "dialog_act list \<Rightarrow> go_error option"
  be_Do :: "dialog_act list \<Rightarrow> out_request \<Rightarrow> sip_answer result"
  be_Acks :: "dialog_act list \<Rightarrow> nat \<Rightarrow> bool"

text \<open>\<open>bs_mediaResult\<close> says whether \<open>mediaResult\<close> is non-nil; the pool, the network and the two
  publishers are the shared state the session works on.\<close>

record ('b, 'm, 'o, 'c) b2b_session =
  bs_call :: call
  bs_actor :: actor
  bs_bus :: 'b
  bs_invite :: sip_request
  bs_outbound :: "out_dialog option"
  bs_media :: "media_session option"
  bs_pool :: "'c pool"
  bs_os :: 'o
  bs_summaries :: 'm
  bs_callerOffer :: sdp_endpoint
  bs_mediaMapping :: mapping
  bs_callerAnswer :: string
  bs_mediaResult :: bool
  bs_reInviteBusy :: bool
  bs_pendingReInvite :: "nat option"
  bs_pendingCSeq :: "32 word"
  bs_log :: "dialog_act list"

subsection \<open>Effects\<close>

definition act :: "dialog_act \<Rightarrow> ('b, 'm, 'o, 'c) b2b_session \<Rightarrow> ('b, 'm, 'o, 'c) b2b_session" where
  "act a s = s\<lparr>bs_log := bs_log s @ [a]\<rparr>"

definition inbound_Respond ::
  "('s, 'b, 'm, 'o, 'c) b2b_env \<Rightarrow> sip_response \<Rightarrow> ('b, 'm, 'o, 'c) b2b_session
     \<Rightarrow> ('b, 'm, 'o, 'c) b2b_session \<times> go_error option" where
  "inbound_Respond en r s = (act (Responded r) s, be_Respond en (bs_log s) r)"

definition tx_Respond :: "session_command \<Rightarrow> sip_response \<Rightarrow> ('b, 'm, 'o, 'c) b2b_session \<Rightarrow> ('b, 'm, 'o, 'c) b2b_session" where
  "tx_Respond cmd r s = act (TxResponded (sc_transaction cmd) r) s"

fun actor_moves :: "'b publisher \<Rightarrow> 'b actor_move list \<Rightarrow> actor \<Rightarrow> 'b \<Rightarrow> (actor \<times> 'b) option" where
  "actor_moves pub [] a b = Some (a, b)"
| "actor_moves pub (ActorStart c # ms) a b =
     (if actor_phase a \<noteq> Stopped then None
      else do { (a', b') \<leftarrow> actor_start pub c a b; actor_moves pub ms a' b' })"
| "actor_moves pub (ActorArm arm # ms) a b =
     (if actor_phase a \<noteq> Running then None
      else do { (a', b') \<leftarrow> run_iteration pub arm a b; actor_moves pub ms a' b' })"
| "actor_moves pub (Others f # ms) a b = actor_moves pub ms a (f b)"

fun transition_send :: "send_arm \<Rightarrow> ctx \<Rightarrow> command \<Rightarrow> actor \<Rightarrow> (actor \<times> go_error option) option" where
  "transition_send SendAccepted c cmd a =
     map_option (\<lambda>m. (a\<lparr>actor_mailbox := m\<rparr>, None)) (chan_send cmd (actor_mailbox a))"
| "transition_send SendClosed c cmd a = (if actor_done a then Some (a, Some ErrActorClosed) else None)"
| "transition_send SendExpired c cmd a = map_option (\<lambda>e. (a, Some e)) (ctx_Err c)"

fun transition_wait :: "wait_arm \<Rightarrow> ctx \<Rightarrow> command \<Rightarrow> actor \<Rightarrow> go_error option option" where
  "transition_wait WaitReply c cmd a = map_of (actor_replies a) (cmd_ticket cmd)"
| "transition_wait WaitClosed c cmd a = (if actor_done a then Some (Some ErrActorClosed) else None)"
| "transition_wait WaitExpired c cmd a = map_option Some (ctx_Err c)"

definition actor_Transition ::
  "'b publisher \<Rightarrow> 'b dispatch \<Rightarrow> command \<Rightarrow> actor \<Rightarrow> 'b \<Rightarrow> (actor \<times> 'b \<times> go_error option) option" where
  "actor_Transition pub d cmd a b =
     do { (a1, b1) \<leftarrow> actor_moves pub (dp_before d) a b;
          (a2, r) \<leftarrow> transition_send (dp_send d) (dp_sendCtx d) cmd a1;
          if r \<noteq> None then Some (a2, b1, r)
          else do { (a3, b3) \<leftarrow> actor_moves pub (dp_between d) a2 b1;
                    r' \<leftarrow> transition_wait (dp_wait d) (dp_waitCtx d) cmd a3;
                    Some (a3, b3, r') } }"

definition session_transition ::
  "('s, 'b, 'm, 'o, 'c) b2b_env \<Rightarrow> state \<Rightarrow> string \<Rightarrow> string \<Rightarrow> string \<Rightarrow> ('b, 'm, 'o, 'c) b2b_session
     \<Rightarrow> (('b, 'm, 'o, 'c) b2b_session \<times> go_error option) option" where
  "session_transition en state legID protocolEvent reason s =
     do { let cmd = \<lparr>cmd_transition = \<lparr>tr_State = state, tr_LegID = legID, tr_Reason = reason, tr_ProtocolEvent = protocolEvent\<rparr>,
                     cmd_ticket = length (bs_log s)\<rparr>;
          (a, b, r) \<leftarrow> actor_Transition (be_publisher en) (be_dispatch en (bs_log s)) cmd (bs_actor s) (bs_bus s);
          Some (act (Transitioned state r) (s\<lparr>bs_actor := a, bs_bus := b\<rparr>), r) }"

definition session_fail ::
  "('s, 'b, 'm, 'o, 'c) b2b_env \<Rightarrow> string \<Rightarrow> string \<Rightarrow> ('b, 'm, 'o, 'c) b2b_session
     \<Rightarrow> ('b, 'm, 'o, 'c) b2b_session option" where
  "session_fail en reason protocolEvent s =
     map_option fst (session_transition en StateFailed (call_CalleeLeg (bs_call s)) protocolEvent reason s)"

definition session_terminate ::
  "('s, 'b, 'm, 'o, 'c) b2b_env \<Rightarrow> string \<Rightarrow> string \<Rightarrow> string \<Rightarrow> ('b, 'm, 'o, 'c) b2b_session
     \<Rightarrow> ('b, 'm, 'o, 'c) b2b_session option" where
  "session_terminate en reason protocolEvent legID s =
     do { (s1, _) \<leftarrow> session_transition en StateTerminating legID protocolEvent reason s;
          map_option fst (session_transition en StateTerminated legID protocolEvent reason s1) }"

text \<open>A response that ends the attempt, and \<open>fail\<close>.\<close>

definition reject ::
  "('s, 'b, 'm, 'o, 'c) b2b_env \<Rightarrow> sip_response \<Rightarrow> string \<Rightarrow> string \<Rightarrow> ('b, 'm, 'o, 'c) b2b_session
     \<Rightarrow> ('b, 'm, 'o, 'c) b2b_session option" where
  "reject en r reason protocolEvent s = session_fail en reason protocolEvent (fst (inbound_Respond en r s))"

subsection \<open>Media\<close>

definition response_with :: "int \<Rightarrow> string \<Rightarrow> string \<Rightarrow> sip_header list \<Rightarrow> sip_response" where
  "response_with code reason body hs =
     \<lparr>rsp_StatusCode = code, rsp_Reason = reason, rsp_Body = body, rsp_Headers = hs\<rparr>"

definition sdp_type :: sip_header where
  "sdp_type = Header ''Content-Type'' ''application/sdp''"

definition startMedia :: "('b, 'm, 'o, 'c) b2b_session \<Rightarrow> ('b, 'm, 'o, 'c) b2b_session" where
  "startMedia s = (if bs_mediaResult s then s else s\<lparr>bs_mediaResult := True\<rparr>)"

text \<open>The media session is allocated before this is called; without one the code would panic.\<close>

definition applyMediaAnswer ::
  "('s, 'b, 'm, 'o, 'c) b2b_env \<Rightarrow> string \<Rightarrow> ('b, 'm, 'o, 'c) b2b_session \<Rightarrow> ('b, 'm, 'o, 'c) b2b_session \<times> string result" where
  "applyMediaAnswer en body s =
     (case ParseAudio (be_pion en) body of
        Inl e \<Rightarrow> (s, Inl (Wrapf ''parse callee SDP: %w'' e))
      | Inr calleeAnswer \<Rightarrow>
          (case Negotiate (bs_callerOffer s) calleeAnswer of
             Inl e \<Rightarrow> (s, Inl e)
           | Inr mapping \<Rightarrow>
               if mp_Name (bs_mediaMapping s) \<noteq> '''' \<and> bs_mediaMapping s \<noteq> mapping
               then (s, Inl (Errorf ''callee changed negotiated media mapping''))
               else
                 (case bs_media s of
                    None \<Rightarrow> (s, Inl (Sentinel ''nil pointer''))
                  | Some m \<Rightarrow>
                      (case Configure (bs_callerOffer s) calleeAnswer mapping m of
                         (m1, Some e) \<Rightarrow> (s\<lparr>bs_media := Some m1\<rparr>, Inl e)
                       | (m1, None) \<Rightarrow>
                           (let s1 = s\<lparr>bs_media := Some m1, bs_mediaMapping := mapping\<rparr>
                            in case LocalEndpoint (bs_pool s1) m1 CallerLeg of
                                 Inl e \<Rightarrow> (s1, Inl e)
                               | Inr (callerRTP, callerRTCP) \<Rightarrow>
                                   (case BuildAudio (be_pion en) (be_now en (bs_log s1)) callerRTP callerRTCP
                                           (CodecListForAnswer mapping) (ep_Direction calleeAnswer) of
                                      Inl e \<Rightarrow> (s1, Inl e)
                                    | Inr answer \<Rightarrow> (startMedia (s1\<lparr>bs_callerAnswer := answer\<rparr>), Inr answer)))))))"

text \<open>
  The value on \<open>mediaResult\<close>: the media goroutine has executed \<open>Run\<close>, whose effect on the session
  is placed where its result is received.
\<close>

definition receive_mediaResult ::
  "('s, 'b, 'm, 'o, 'c) b2b_env \<Rightarrow> ('b, 'm, 'o, 'c) b2b_session \<Rightarrow> ('b, 'm, 'o, 'c) b2b_session option" where
  "receive_mediaResult en s =
     (case bs_media s of
        None \<Rightarrow> None
      | Some m \<Rightarrow>
          if \<not> bs_mediaResult s then None
          else do { (m1, p1, os1, _) \<leftarrow> session_Run (be_udp en) (be_now en (bs_log s)) (be_workers en) m (bs_pool s) (bs_os s);
                    Some (s\<lparr>bs_media := Some m1, bs_pool := p1, bs_os := os1\<rparr>) })"

definition PublishSummary ::
  "('s, 'b, 'm, 'o, 'c) b2b_env \<Rightarrow> ('b, 'm, 'o, 'c) b2b_session \<Rightarrow> ('b, 'm, 'o, 'c) b2b_session option" where
  "PublishSummary en s =
     (case bs_media s of
        None \<Rightarrow> Some s
      | Some m \<Rightarrow>
          do { (m1, b) \<leftarrow> publishSummary (be_summaries en) (be_ctx en (bs_log s)) (be_now en (bs_log s)) (be_now en (bs_log s))
                            m (bs_summaries s);
               Some (s\<lparr>bs_media := Some m1, bs_summaries := b\<rparr>) })"

definition stopMedia ::
  "('s, 'b, 'm, 'o, 'c) b2b_env \<Rightarrow> ('b, 'm, 'o, 'c) b2b_session \<Rightarrow> ('b, 'm, 'o, 'c) b2b_session option" where
  "stopMedia en s =
     (case bs_media s of
        None \<Rightarrow> Some s
      | Some m \<Rightarrow>
          do { (m1, p1, os1, _) \<leftarrow> session_Close (be_udp en) m (bs_pool s) (bs_os s);
               let s1 = s\<lparr>bs_media := Some m1, bs_pool := p1, bs_os := os1\<rparr>;
               s2 \<leftarrow> (if bs_mediaResult s1 then receive_mediaResult en s1 else Some s1);
               PublishSummary en s2 })"

subsection \<open>Pending re-INVITEs\<close>

definition beginReInvite :: "('b, 'm, 'o, 'c) b2b_session \<Rightarrow> ('b, 'm, 'o, 'c) b2b_session \<times> bool" where
  "beginReInvite s =
     (if bs_reInviteBusy s \<or> bs_pendingReInvite s \<noteq> None then (s, False)
      else (s\<lparr>bs_reInviteBusy := True\<rparr>, True))"

definition finishReInvite :: "('b, 'm, 'o, 'c) b2b_session \<Rightarrow> ('b, 'm, 'o, 'c) b2b_session" where
  "finishReInvite s = s\<lparr>bs_reInviteBusy := False\<rparr>"

definition setPendingReInvite :: "nat \<Rightarrow> 32 word \<Rightarrow> ('b, 'm, 'o, 'c) b2b_session \<Rightarrow> ('b, 'm, 'o, 'c) b2b_session" where
  "setPendingReInvite tx cseq s =
     act (ReInvitePending tx cseq) (s\<lparr>bs_pendingReInvite := Some tx, bs_pendingCSeq := cseq\<rparr>)"

definition clear_pending :: "nat option \<Rightarrow> ('b, 'm, 'o, 'c) b2b_session \<Rightarrow> ('b, 'm, 'o, 'c) b2b_session" where
  "clear_pending transaction s =
     (case transaction of
        None \<Rightarrow> s
      | Some tx \<Rightarrow> act (TxTerminated tx) (s\<lparr>bs_pendingReInvite := None, bs_pendingCSeq := 0\<rparr>))"

definition completePendingReInvite :: "('b, 'm, 'o, 'c) b2b_session \<Rightarrow> ('b, 'm, 'o, 'c) b2b_session" where
  "completePendingReInvite s =
     clear_pending (bs_pendingReInvite s) (s\<lparr>bs_pendingReInvite := None, bs_pendingCSeq := 0\<rparr>)"

definition completePendingReInviteCSeq :: "32 word \<Rightarrow> ('b, 'm, 'o, 'c) b2b_session \<Rightarrow> ('b, 'm, 'o, 'c) b2b_session" where
  "completePendingReInviteCSeq cseq s =
     clear_pending (if bs_pendingReInvite s \<noteq> None \<and> bs_pendingCSeq s = cseq then bs_pendingReInvite s else None) s"

definition completePendingReInviteTransaction :: "nat \<Rightarrow> ('b, 'm, 'o, 'c) b2b_session \<Rightarrow> ('b, 'm, 'o, 'c) b2b_session" where
  "completePendingReInviteTransaction expected s =
     (if bs_pendingReInvite s = Some expected then clear_pending (Some expected) s else s)"

text \<open>The watcher of a pending re-INVITE, when an ACK arrives or the transaction ends.\<close>

definition watchPendingReInvite :: "nat \<Rightarrow> ('b, 'm, 'o, 'c) b2b_session \<Rightarrow> ('b, 'm, 'o, 'c) b2b_session" where
  "watchPendingReInvite tx s = completePendingReInviteTransaction tx s"

definition hasPendingReInvite ::
  "('s, 'b, 'm, 'o, 'c) b2b_env \<Rightarrow> ('b, 'm, 'o, 'c) b2b_session \<Rightarrow> ('b, 'm, 'o, 'c) b2b_session \<times> bool" where
  "hasPendingReInvite en s =
     (case bs_pendingReInvite s of
        None \<Rightarrow> (s, False)
      | Some tx \<Rightarrow>
          if be_Acks en (bs_log s) tx then (completePendingReInviteTransaction tx s, False)
          else (s, True))"

subsection \<open>In-dialog requests\<close>

definition cloneInDialogRequest :: "sip_request \<Rightarrow> sip_uri \<Rightarrow> out_request" where
  "cloneInDialogRequest source recipient =
     (NewRequest (req_Method source) recipient)
       \<lparr>oq_Body := req_Body source,
        oq_Headers := concat (map (req_GetHeaders source)
          [''Refer-To'', ''Referred-By'', ''Event'', ''Subscription-State'', ''Content-Type''])\<rparr>"

definition respondRelayed ::
  "session_command \<Rightarrow> sip_answer option \<Rightarrow> go_error option \<Rightarrow> ('b, 'm, 'o, 'c) b2b_session \<Rightarrow> ('b, 'm, 'o, 'c) b2b_session" where
  "respondRelayed cmd response err s =
     (case (err, response) of
        (None, Some r) \<Rightarrow>
          tx_Respond cmd (response_with (rsp_StatusCode r) (rsp_Reason r) (rsp_Body r)
            (concat (map (an_GetHeaders r) [''Event'', ''Subscription-State'', ''Content-Type'']))) s
      | _ \<Rightarrow> tx_Respond cmd (NewResponse StatusRequestTimeout ''Request Timeout'' []) s)"

definition relayToCallee ::
  "('s, 'b, 'm, 'o, 'c) b2b_env \<Rightarrow> session_command \<Rightarrow> ('b, 'm, 'o, 'c) b2b_session \<Rightarrow> ('b, 'm, 'o, 'c) b2b_session" where
  "relayToCallee en cmd s =
     (case bs_outbound s of
        None \<Rightarrow> s
      | Some d \<Rightarrow>
          let request = cloneInDialogRequest (sc_request cmd) (oq_Recipient (od_InviteRequest d))
          in case be_Do en (bs_log s) request of
               Inl e \<Rightarrow> respondRelayed cmd None (Some e) (act (RelayedToCallee request) s)
             | Inr r \<Rightarrow> respondRelayed cmd (Some r) None (act (RelayedToCallee request) s))"

definition relayToCaller ::
  "('s, 'b, 'm, 'o, 'c) b2b_env \<Rightarrow> session_command \<Rightarrow> ('b, 'm, 'o, 'c) b2b_session \<Rightarrow> ('b, 'm, 'o, 'c) b2b_session" where
  "relayToCaller en cmd s =
     (let from_uri = (case req_From (bs_invite s) of None \<Rightarrow> uri_zero | Some h \<Rightarrow> ah_Address h);
          recipient = (case req_Contact (bs_invite s) of None \<Rightarrow> from_uri | Some h \<Rightarrow> ah_Address h);
          request = cloneInDialogRequest (sc_request cmd) recipient
      in case be_Do en (bs_log s) request of
           Inl e \<Rightarrow> respondRelayed cmd None (Some e) (act (RelayedToCaller request) s)
         | Inr r \<Rightarrow> respondRelayed cmd (Some r) None (act (RelayedToCaller request) s))"

text \<open>The re-INVITE on the callee's dialog, from the answer of \<open>Do\<close> on.\<close>

definition reinvite_answered ::
  "('s, 'b, 'm, 'o, 'c) b2b_env \<Rightarrow> session_command \<Rightarrow> sdp_endpoint \<Rightarrow> out_request \<Rightarrow> sip_answer
     \<Rightarrow> ('b, 'm, 'o, 'c) b2b_session \<Rightarrow> ('b, 'm, 'o, 'c) b2b_session option" where
  "reinvite_answered en cmd offer reinvite response s =
     (if rsp_StatusCode response < 200 \<or> 300 \<le> rsp_StatusCode response
      then Some (tx_Respond cmd (NewResponse (rsp_StatusCode response) (rsp_Reason response) (rsp_Body response)) s)
      else
        let s1 = act Acked (s\<lparr>bs_outbound := map_option (\<lambda>d. d\<lparr>od_InviteRequest := reinvite,
                                 od_InviteResponse := Some response\<rparr>) (bs_outbound s)\<rparr>)
        in if be_Ack en (bs_log s) \<noteq> None
           then Some (tx_Respond cmd (NewResponse StatusServiceUnavailable ''Service Unavailable'' []) s1)
           else
             (case applyMediaAnswer en (rsp_Body response) (s1\<lparr>bs_callerOffer := offer\<rparr>) of
                (s2, Inl _) \<Rightarrow>
                  Some (tx_Respond cmd (NewResponse StatusNotAcceptableHere ''Not Acceptable Here'' [])
                          (s2\<lparr>bs_callerOffer := bs_callerOffer s1\<rparr>))
              | (s2, Inr answer) \<Rightarrow>
                  do { (s3, err) \<leftarrow> session_transition en
                         (if ep_Direction offer \<noteq> DirectionSendRecv then StateHeld else StateAnswered)
                         (call_CallerLeg (bs_call s2)) ''re-INVITE'' '''' s2;
                       Some (if err \<noteq> None
                             then tx_Respond cmd (NewResponse StatusInternalServerError ''Server Internal Error'' []) s3
                             else tx_Respond cmd (response_with StatusOK ''OK'' answer [sdp_type])
                                    (setPendingReInvite (sc_transaction cmd) (req_CSeq (sc_request cmd)) s3)) }))"

definition handleReInviteCommand ::
  "('s, 'b, 'm, 'o, 'c) b2b_env \<Rightarrow> session_command \<Rightarrow> ('b, 'm, 'o, 'c) b2b_session \<Rightarrow> ('b, 'm, 'o, 'c) b2b_session option" where
  "handleReInviteCommand en cmd s =
     (case hasPendingReInvite en s of
        (s1, True) \<Rightarrow> Some (tx_Respond cmd (NewResponse StatusRequestPending ''Request Pending'' []) s1)
      | (s1, False) \<Rightarrow>
          (case ParseAudio (be_pion en) (req_Body (sc_request cmd)) of
             Inl _ \<Rightarrow> Some (tx_Respond cmd (NewResponse StatusNotAcceptableHere ''Not Acceptable Here'' []) s1)
           | Inr offer \<Rightarrow>
               (case (bs_media s1, bs_outbound s1) of
                  (Some m, Some d) \<Rightarrow>
                    (case LocalEndpoint (bs_pool s1) m CalleeLeg of
                       Inl _ \<Rightarrow> Some (tx_Respond cmd (NewResponse StatusInternalServerError ''Server Internal Error'' []) s1)
                     | Inr (calleeRTP, calleeRTCP) \<Rightarrow>
                         (case BuildAudio (be_pion en) (be_now en (bs_log s1)) calleeRTP calleeRTCP
                                 (CodecListForOffer offer) (ep_Direction offer) of
                            Inl _ \<Rightarrow> Some (tx_Respond cmd (NewResponse StatusNotAcceptableHere ''Not Acceptable Here'' []) s1)
                          | Inr outboundOffer \<Rightarrow>
                              (let reinvite = (NewRequest ''INVITE'' (oq_Recipient (od_InviteRequest d)))
                                     \<lparr>oq_Body := outboundOffer, oq_Headers := [sdp_type]\<rparr>
                               in case be_Do en (bs_log s1) reinvite of
                                    Inl _ \<Rightarrow> Some (tx_Respond cmd (NewResponse StatusRequestTimeout ''Request Timeout'' [])
                                                     (act (RelayedToCallee reinvite) s1))
                                  | Inr response \<Rightarrow>
                                      reinvite_answered en cmd offer reinvite response (act (RelayedToCallee reinvite) s1))))
                | _ \<Rightarrow> None)))"

definition handleHangup ::
  "('s, 'b, 'm, 'o, 'c) b2b_env \<Rightarrow> hangup_origin \<Rightarrow> ('b, 'm, 'o, 'c) b2b_session \<Rightarrow> ('b, 'm, 'o, 'c) b2b_session option" where
  "handleHangup en origin s =
     (let legID = (if origin = hangupCallee then call_CalleeLeg (bs_call s) else call_CallerLeg (bs_call s))
      in do { (s1, err) \<leftarrow> session_transition en StateTerminating legID ''BYE'' ''normal clearing'' s;
              if err \<noteq> None then Some s1
              else
                let s2 = (if origin = hangupCaller \<and> bs_outbound s1 \<noteq> None then act ByeToCallee s1 else s1);
                    s3 = (if origin = hangupCallee then act ByeToCaller s2 else s2)
                in map_option fst (session_transition en StateTerminated legID ''200'' ''normal clearing'' s3) })"

text \<open>The result is the new session and whether it has reached its end.\<close>

definition handleCommand ::
  "('s, 'b, 'm, 'o, 'c) b2b_env \<Rightarrow> session_command \<Rightarrow> ('b, 'm, 'o, 'c) b2b_session
     \<Rightarrow> (('b, 'm, 'o, 'c) b2b_session \<times> bool) option" where
  "handleCommand en cmd s =
     (let closed = (\<lambda>s. case sc_result cmd of None \<Rightarrow> s | Some ch \<Rightarrow> act (CommandDone ch) s)
      in case sc_kind cmd of
           commandHangup \<Rightarrow> map_option (\<lambda>s. (closed s, True)) (handleHangup en (sc_origin cmd) s)
         | commandReInvite \<Rightarrow> map_option (\<lambda>s. (closed s, False)) (handleReInviteCommand en cmd s)
         | commandRefer \<Rightarrow> Some (closed (relayToCallee en cmd s), False)
         | commandNotify \<Rightarrow> Some (closed (relayToCaller en cmd s), False))"

subsection \<open>The life of a session\<close>

text \<open>
  What happens to an established session: an arm of the loop of \<open>run\<close>, or a critical section of
  another goroutine on the pending re-INVITE.
\<close>

datatype loop_arm =
    LoopCommand session_command
  | LoopParentDone
  | LoopMedia
  | OtherBegin
  | OtherFinish
  | OtherAck "32 word"
  | OtherWatch nat

fun established ::
  "('s, 'b, 'm, 'o, 'c) b2b_env \<Rightarrow> loop_arm list \<Rightarrow> ('b, 'm, 'o, 'c) b2b_session \<Rightarrow> ('b, 'm, 'o, 'c) b2b_session option" where
  "established en [] s = None"
| "established en (LoopCommand cmd # arms) s =
     do { (s1, ended) \<leftarrow> handleCommand en cmd s;
          if ended then Some s1 else established en arms s1 }"
| "established en (LoopParentDone # arms) s = handleHangup en hangupCaller s"
| "established en (LoopMedia # arms) s =
     do { s1 \<leftarrow> receive_mediaResult en s;
          handleHangup en hangupCaller (s1\<lparr>bs_mediaResult := False\<rparr>) }"
| "established en (OtherBegin # arms) s = established en arms (fst (beginReInvite s))"
| "established en (OtherFinish # arms) s = established en arms (finishReInvite s)"
| "established en (OtherAck cseq # arms) s = established en arms (completePendingReInviteCSeq cseq s)"
| "established en (OtherWatch tx # arms) s = established en arms (watchPendingReInvite tx s)"

definition hang_up_callee :: "('b, 'm, 'o, 'c) b2b_session \<Rightarrow> ('b, 'm, 'o, 'c) b2b_session" where
  "hang_up_callee s = act ByeToCallee (act Acked s)"

text \<open>From the callee's final answer: ACK, \<open>Answered\<close>, and the answer to the caller.\<close>

definition run_connect ::
  "('s, 'b, 'm, 'o, 'c) b2b_env \<Rightarrow> loop_arm list \<Rightarrow> ('b, 'm, 'o, 'c) b2b_session \<Rightarrow> ('b, 'm, 'o, 'c) b2b_session option" where
  "run_connect en arms s =
     (if bs_callerAnswer s = []
      then reject en (NewResponse StatusNotAcceptableHere ''Not Acceptable Here'' [])
             ''callee answer contained no usable SDP'' ''488'' (hang_up_callee s)
      else if be_Ack en (bs_log s) \<noteq> None
      then reject en (NewResponse StatusServiceUnavailable ''Service Unavailable'' []) ''outbound ACK failed'' ''ACK'' (act Acked s)
      else
        do { let s1 = (case bs_outbound s of None \<Rightarrow> act Acked s | Some d \<Rightarrow> act (OutboundStored (od_ID d)) (act Acked s));
             (s2, err) \<leftarrow> session_transition en StateAnswered (call_CalleeLeg (bs_call s1)) ''200'' '''' s1;
             if err \<noteq> None then Some (act ByeToCallee s2)
             else
               (case inbound_Respond en (response_with StatusOK ''OK'' (bs_callerAnswer s2) [sdp_type]) s2 of
                  (s3, Some _) \<Rightarrow>
                    session_terminate en ''caller answer transaction failed'' ''CANCEL'' (call_CallerLeg (bs_call s3))
                      (act ByeToCallee s3)
                | (s3, None) \<Rightarrow> established en arms s3) })"

definition run_answered ::
  "('s, 'b, 'm, 'o, 'c) b2b_env \<Rightarrow> loop_arm list \<Rightarrow> sip_answer \<Rightarrow> ('b, 'm, 'o, 'c) b2b_session
     \<Rightarrow> ('b, 'm, 'o, 'c) b2b_session option" where
  "run_answered en arms response s =
     (let s1 = s\<lparr>bs_outbound := map_option (\<lambda>d. d\<lparr>od_InviteResponse := Some response\<rparr>) (bs_outbound s)\<rparr>
      in if rsp_Body response \<noteq> [] then
           (case applyMediaAnswer en (rsp_Body response) s1 of
              (s2, Inl _) \<Rightarrow>
                reject en (NewResponse StatusNotAcceptableHere ''Not Acceptable Here'' [])
                  ''callee SDP negotiation failed'' ''488'' (hang_up_callee s2)
            | (s2, Inr _) \<Rightarrow> run_connect en arms s2)
         else run_connect en arms s1)"

definition contentTypeHeaders :: "sip_answer \<Rightarrow> sip_header list" where
  "contentTypeHeaders response =
     (if rsp_Body response = [] then []
      else case an_ContentType response of Some h \<Rightarrow> [h] | None \<Rightarrow> [sdp_type])"

text \<open>The callback of \<open>WaitAnswer\<close>, for one response; a status below 200 is provisional.\<close>

definition on_response ::
  "('s, 'b, 'm, 'o, 'c) b2b_env \<Rightarrow> sip_answer \<Rightarrow> ('b, 'm, 'o, 'c) b2b_session
     \<Rightarrow> (('b, 'm, 'o, 'c) b2b_session \<times> go_error option) option" where
  "on_response en response s =
     (let code = rsp_StatusCode response;
          forward = (\<lambda>body s. Some (inbound_Respond en (response_with code (rsp_Reason response) body (contentTypeHeaders response)) s))
      in if \<not> code < 200 \<or> code = StatusTrying then Some (s, None)
         else if code = statusSessionProgress \<and> rsp_Body response \<noteq> [] then
           (case applyMediaAnswer en (rsp_Body response) s of
              (s1, Inl e) \<Rightarrow> Some (s1, errors_Join [Some errMediaNegotiation, Some e])
            | (s1, Inr answer) \<Rightarrow>
                do { (s2, err) \<leftarrow> session_transition en StateEarlyMedia (call_CalleeLeg (bs_call s1)) (Itoa (nat code)) '''' s1;
                     if err \<noteq> None then Some (s2, err) else forward answer s2 })
         else if code = StatusRinging \<or> code = statusSessionProgress then
           do { (s1, err) \<leftarrow> session_transition en StateRinging (call_CalleeLeg (bs_call s)) (Itoa (nat code)) '''' s;
                if err \<noteq> None then Some (s1, err) else forward (rsp_Body response) s1 }
         else forward (rsp_Body response) s)"

fun on_responses ::
  "('s, 'b, 'm, 'o, 'c) b2b_env \<Rightarrow> sip_answer list \<Rightarrow> ('b, 'm, 'o, 'c) b2b_session
     \<Rightarrow> (('b, 'm, 'o, 'c) b2b_session \<times> go_error option) option" where
  "on_responses en [] s = Some (s, None)"
| "on_responses en (r # rs) s =
     do { (s1, err) \<leftarrow> on_response en r s;
          if err \<noteq> None then Some (s1, err) else on_responses en rs s1 }"

definition run_wait ::
  "('s, 'b, 'm, 'o, 'c) b2b_env \<Rightarrow> loop_arm list \<Rightarrow> ('b, 'm, 'o, 'c) b2b_session \<Rightarrow> ('b, 'm, 'o, 'c) b2b_session option" where
  "run_wait en arms s =
     do { (s1, err) \<leftarrow> on_responses en (fst (be_WaitAnswer en)) (act Awaited s);
          let outcome = (case err of Some e \<Rightarrow> WaitFailed e | None \<Rightarrow> snd (be_WaitAnswer en));
          case outcome of
            WaitAnswered response \<Rightarrow> run_answered en arms response s1
          | WaitRejected (Some res) \<Rightarrow>
              reject en (NewResponse (rsp_StatusCode res) (rsp_Reason res) (rsp_Body res)) (rsp_Reason res)
                (Itoa (nat (rsp_StatusCode res))) s1
          | WaitRejected None \<Rightarrow> session_fail en ''outbound invite canceled or timed out'' ''CANCEL'' s1
          | WaitFailed e \<Rightarrow>
              if errors_Is e errMediaNegotiation
              then reject en (NewResponse StatusNotAcceptableHere ''Not Acceptable Here'' [])
                     ''callee early media negotiation failed'' ''488'' s1
              else session_fail en ''outbound invite canceled or timed out'' ''CANCEL'' s1 }"

definition createOutbound ::
  "('s, 'b, 'm, 'o, 'c) b2b_env \<Rightarrow> sip_request \<Rightarrow> binding \<Rightarrow> string \<Rightarrow> ('b, 'm, 'o, 'c) b2b_session
     \<Rightarrow> ('b, 'm, 'o, 'c) b2b_session \<times> out_dialog result" where
  "createOutbound en inbound binding offer s =
     (case ParseUri (be_sip en) (bi_Contact binding) of
        Inl e \<Rightarrow> (s, Inl (Wrapf ''parse registered contact: %w'' e))
      | Inr recipient \<Rightarrow>
          let request = (NewRequest ''INVITE'' recipient)
                \<lparr>oq_Transport := bi_Transport binding, oq_Destination := bi_RouteTarget binding, oq_Body := offer,
                 oq_From := map_option (\<lambda>h. h\<lparr>ah_Params := (ah_Params h)(''tag'' \<mapsto> be_tag en)\<rparr>) (req_From inbound),
                 oq_Headers := [sdp_type]\<rparr>
          in (act (Invited request) s,
              map_sum id (\<lambda>ident. \<lparr>od_ID = ident, od_InviteRequest = request, od_InviteResponse = None\<rparr>)
                (be_WriteInvite en (bs_log s) request)))"

text \<open>From the caller's offer to the INVITE to the callee.\<close>

definition run_invite ::
  "('s, 'b, 'm, 'o, 'c) b2b_env \<Rightarrow> loop_arm list \<Rightarrow> sip_request \<Rightarrow> binding \<Rightarrow> media_session \<Rightarrow> ('b, 'm, 'o, 'c) b2b_session
     \<Rightarrow> ('b, 'm, 'o, 'c) b2b_session option" where
  "run_invite en arms request binding m s =
     (case LocalEndpoint (bs_pool s) m CalleeLeg of
        Inl _ \<Rightarrow> reject en (NewResponse StatusInternalServerError ''Server Internal Error'' [])
                   ''media endpoint unavailable'' ''500'' s
      | Inr (calleeRTP, calleeRTCP) \<Rightarrow>
          (case BuildAudio (be_pion en) (be_now en (bs_log s)) calleeRTP calleeRTCP
                  (CodecListForOffer (bs_callerOffer s)) (ep_Direction (bs_callerOffer s)) of
             Inl _ \<Rightarrow> reject en (NewResponse StatusNotAcceptableHere ''Not Acceptable Here'' [])
                        ''unable to build callee SDP'' ''488'' s
           | Inr outboundOffer \<Rightarrow>
               (case createOutbound en request binding outboundOffer s of
                  (s1, Inl _) \<Rightarrow> reject en (NewResponse StatusServiceUnavailable ''Service Unavailable'' [])
                                   ''outbound invite failed'' ''INVITE'' s1
                | (s1, Inr outbound) \<Rightarrow> run_wait en arms (s1\<lparr>bs_outbound := Some outbound\<rparr>))))"

definition run_media ::
  "('s, 'b, 'm, 'o, 'c) b2b_env \<Rightarrow> loop_arm list \<Rightarrow> sip_request \<Rightarrow> binding \<Rightarrow> ('b, 'm, 'o, 'c) b2b_session
     \<Rightarrow> ('b, 'm, 'o, 'c) b2b_session option" where
  "run_media en arms request binding s =
     do { let cl = bs_call s;
          (p, os, r) \<leftarrow> factory_New (be_udp en) (be_mediaCfg en) (be_acquire en CallerLeg) (be_acquire en CalleeLeg)
            (be_random en CallerLeg) (be_random en CalleeLeg) (be_uuid en)
            (NewMetadata (call_TenantID cl) (call_ID cl) (call_NodeID cl) (call_CallerLeg cl) (call_CalleeLeg cl))
            (bs_pool s) (bs_os s);
          let s1 = s\<lparr>bs_pool := p, bs_os := os\<rparr>;
          case r of
            Inl _ \<Rightarrow> reject en (NewResponse StatusServiceUnavailable ''Media Resources Unavailable'' [])
                       ''media resources unavailable'' ''503'' s1
          | Inr m \<Rightarrow> run_invite en arms request binding m (s1\<lparr>bs_media := Some m\<rparr>) }"

definition aor_of :: "('s, 'b, 'm, 'o, 'c) b2b_env \<Rightarrow> address_header option \<Rightarrow> string" where
  "aor_of en h = ''sip:'' @ (case h of None \<Rightarrow> [] | Some a \<Rightarrow> uri_User (ah_Address a)) @ ''@'' @ bc_Realm (be_cfg en)"

definition run_body ::
  "('s, 'b, 'm, 'o, 'c) b2b_env \<Rightarrow> loop_arm list \<Rightarrow> ('b, 'm, 'o, 'c) b2b_session \<Rightarrow> ('b, 'm, 'o, 'c) b2b_session option" where
  "run_body en arms s =
     do { let request = bs_invite s;
          (s1, err) \<leftarrow> session_transition en StateRouting (call_CallerLeg (bs_call s)) ''INVITE'' '''' s;
          if err \<noteq> None then Some s1
          else
            (case inbound_Respond en (NewResponse StatusTrying ''Trying'' []) s1 of
               (s2, Some _) \<Rightarrow> session_fail en ''caller transaction failed'' ''INVITE'' s2
             | (s2, None) \<Rightarrow>
                 (case manager_Resolve (be_store en) (be_ctx en (bs_log s2)) (be_now en (bs_log s2))
                         (bc_TenantID (be_cfg en)) (aor_of en (req_To request)) (be_registrations en (bs_log s2)) of
                    Inl _ \<Rightarrow> reject en (NewResponse StatusNotFound ''Not Found'' []) ''callee not registered'' ''404'' s2
                  | Inr binding \<Rightarrow>
                      (case ParseAudio (be_pion en) (req_Body request) of
                         Inl _ \<Rightarrow> reject en (NewResponse StatusNotAcceptableHere ''Not Acceptable Here'' [])
                                    ''invalid or unsupported caller SDP'' ''488'' s2
                       | Inr offer \<Rightarrow> run_media en arms request binding (s2\<lparr>bs_callerOffer := offer\<rparr>)))) }"

text \<open>The deferred calls of \<open>run\<close>: the actor is cancelled and awaited first.\<close>

definition await_actor ::
  "('s, 'b, 'm, 'o, 'c) b2b_env \<Rightarrow> ('b, 'm, 'o, 'c) b2b_session \<Rightarrow> ('b, 'm, 'o, 'c) b2b_session option" where
  "await_actor en s =
     do { (a, b) \<leftarrow> actor_moves (be_publisher en) (be_finish en) (bs_actor s) (bs_bus s);
          if actor_done a then Some (s\<lparr>bs_actor := a, bs_bus := b\<rparr>) else None }"

definition session_run ::
  "('s, 'b, 'm, 'o, 'c) b2b_env \<Rightarrow> loop_arm list \<Rightarrow> ('b, 'm, 'o, 'c) b2b_session \<Rightarrow> ('b, 'm, 'o, 'c) b2b_session option" where
  "session_run en arms s =
     do { s1 \<leftarrow> run_body en arms s;
          s2 \<leftarrow> await_actor en s1;
          s3 \<leftarrow> stopMedia en (completePendingReInvite s2);
          Some (act InboundClosed s3) }"

text \<open>The session \<open>handleInvite\<close> creates, on the shared state it finds; other fields are zero.\<close>

definition start_session ::
  "call \<Rightarrow> actor \<Rightarrow> sip_request \<Rightarrow> 'b \<Rightarrow> 'c pool \<Rightarrow> 'o \<Rightarrow> 'm \<Rightarrow> ('b, 'm, 'o, 'c) b2b_session" where
  "start_session current actor request bus pool os summaries =
     \<lparr>bs_call = current, bs_actor = actor, bs_bus = bus, bs_invite = request, bs_outbound = None, bs_media = None,
      bs_pool = pool, bs_os = os, bs_summaries = summaries,
      bs_callerOffer = \<lparr>ep_RTP = AddrPortZero, ep_RTCP = AddrPortZero, ep_Direction = '''', ep_Codecs = []\<rparr>,
      bs_mediaMapping = \<lparr>mp_Name = '''', mp_ClockRate = 0, mp_CallerPT = 0, mp_CalleePT = 0, mp_CallerDTMFPT = 0,
        mp_CalleeDTMFPT = 0, mp_HasDTMF = False\<rparr>,
      bs_callerAnswer = '''', bs_mediaResult = False, bs_reInviteBusy = False, bs_pendingReInvite = None,
      bs_pendingCSeq = 0, bs_log = []\<rparr>"

end
