(* ===== verification/B2bua_Run.thy ===== *)
theory B2bua_Run
  imports B2bua_Session Event_Bus
begin

text \<open>
  What a run of a \<open>B2bua_Session\<close> does, whatever the dialogs, the media and the other goroutines
  answer. A small calculus for results that may not be returned carries the proofs; the locale
  \<open>session_effects\<close> states what an invariant of the session has to survive, and is interpreted for
  the call actor and its events, for the media ports, and for the pending re-INVITE.
\<close>

subsection \<open>Computations that may not return\<close>

definition returns :: "('a \<Rightarrow> bool) \<Rightarrow> 'a option \<Rightarrow> bool" where
  "returns Q m \<longleftrightarrow> (\<forall>x. m = Some x \<longrightarrow> Q x)"

named_theorems rets \<open>one rule for each construct of a computation\<close>

lemma returns_None [rets]: "returns Q None"
  by (simp add: returns_def)

lemma returns_Some [rets]: "Q x \<Longrightarrow> returns Q (Some x)"
  by (simp add: returns_def)

lemma returns_bind [rets]: "returns (\<lambda>x. returns Q (f x)) m \<Longrightarrow> returns Q (m \<bind> f)"
  by (cases m) (simp_all add: returns_def)

lemma returns_map [rets]: "returns (\<lambda>x. Q (f x)) m \<Longrightarrow> returns Q (map_option f m)"
  by (cases m) (simp_all add: returns_def)

lemma returns_if [rets]: "(c \<Longrightarrow> returns Q x) \<Longrightarrow> (\<not> c \<Longrightarrow> returns Q y) \<Longrightarrow> returns Q (if c then x else y)"
  by simp

lemma returns_let [rets]: "(\<And>y. y = x \<Longrightarrow> returns Q (f y)) \<Longrightarrow> returns Q (Let x f)"
  by simp

lemma returns_prod [rets]: "(\<And>a b. x = (a, b) \<Longrightarrow> returns Q (f a b)) \<Longrightarrow> returns Q (case x of (a, b) \<Rightarrow> f a b)"
  by (cases x) simp

lemma returns_sum [rets]:
  "(\<And>e. x = Inl e \<Longrightarrow> returns Q (f e)) \<Longrightarrow> (\<And>v. x = Inr v \<Longrightarrow> returns Q (g v)) \<Longrightarrow>
     returns Q (case x of Inl e \<Rightarrow> f e | Inr v \<Rightarrow> g v)"
  by (cases x) simp_all

lemma returns_option [rets]:
  "(x = None \<Longrightarrow> returns Q n) \<Longrightarrow> (\<And>v. x = Some v \<Longrightarrow> returns Q (f v)) \<Longrightarrow>
     returns Q (case x of None \<Rightarrow> n | Some v \<Rightarrow> f v)"
  by (cases x) simp_all

lemma returns_mono: "returns P m \<Longrightarrow> (\<And>x. P x \<Longrightarrow> Q x) \<Longrightarrow> returns Q m"
  by (simp add: returns_def)

lemma returnsD: "returns Q m \<Longrightarrow> m = Some x \<Longrightarrow> Q x"
  by (simp add: returns_def)

subsection \<open>What an operation leaves alone\<close>

text \<open>The part of a media session that its owner and the pool depend on.\<close>

definition lease_view :: "media_session \<Rightarrow> nat \<times> nat \<times> bool" where
  "lease_view m = (pt_lease (ms_caller m), pt_lease (ms_callee m), ms_closed m)"

definition core :: "('b, 'm, 'o, 'c) b2b_session \<Rightarrow>
    actor \<times> 'b \<times> 'c pool \<times> 'o \<times> (nat \<times> nat \<times> bool) option \<times> string option \<times> nat option \<times> dialog_act list" where
  "core s = (bs_actor s, bs_bus s, bs_pool s, bs_os s, map_option lease_view (bs_media s), map_option od_ID (bs_outbound s),
     bs_pendingReInvite s, bs_log s)"

fun neutral :: "dialog_act \<Rightarrow> bool" where
  "neutral (ReInvitePending tx cseq) = False"
| "neutral (TxTerminated tx) = False"
| "neutral (OutboundStored d) = False"
| "neutral a = True"

lemma Configure_view: "Configure o1 o2 mp m = (m', r) \<Longrightarrow> lease_view m' = lease_view m"
  by (auto simp: Configure_def lease_view_def endpoint_configure_def Let_def split: if_splits option.splits)

lemma applyMediaAnswer_core:
  "applyMediaAnswer en body s = (s', r) \<Longrightarrow> core s' = core s \<and> (bs_media s' = None \<longleftrightarrow> bs_media s = None)"
  by (auto simp: applyMediaAnswer_def core_def startMedia_def Let_def dest!: Configure_view
      split: sum.splits option.splits if_splits prod.splits)

lemma session_transition_effect:
  "returns (\<lambda>(s', r). \<exists>a b. s' = act (Transitioned st r) (s\<lparr>bs_actor := a, bs_bus := b\<rparr>) \<and>
       actor_Transition (be_publisher en) (be_dispatch en (bs_log s))
         \<lparr>cmd_transition = \<lparr>tr_State = st, tr_LegID = l, tr_Reason = reason, tr_ProtocolEvent = pe\<rparr>,
          cmd_ticket = length (bs_log s)\<rparr> (bs_actor s) (bs_bus s) = Some (a, b, r))
     (session_transition en st l pe reason s)"
  by (auto simp: session_transition_def returns_def bind_eq_Some_conv)

lemma act_sel [simp]:
  "bs_log (act a s) = bs_log s @ [a]" "bs_call (act a s) = bs_call s" "bs_actor (act a s) = bs_actor s"
  "bs_bus (act a s) = bs_bus s" "bs_invite (act a s) = bs_invite s" "bs_outbound (act a s) = bs_outbound s"
  "bs_media (act a s) = bs_media s" "bs_pool (act a s) = bs_pool s" "bs_os (act a s) = bs_os s"
  "bs_summaries (act a s) = bs_summaries s" "bs_callerOffer (act a s) = bs_callerOffer s"
  "bs_mediaMapping (act a s) = bs_mediaMapping s" "bs_callerAnswer (act a s) = bs_callerAnswer s"
  "bs_mediaResult (act a s) = bs_mediaResult s" "bs_reInviteBusy (act a s) = bs_reInviteBusy s"
  "bs_pendingReInvite (act a s) = bs_pendingReInvite s" "bs_pendingCSeq (act a s) = bs_pendingCSeq s"
  by (simp_all add: act_def)

subsection \<open>The effects of a session\<close>

text \<open>
  An invariant \<open>I\<close> of the session that depends on its core only survives everything that happens in
  an established dialog and at the end, if it survives each of these: an entry in the log, a step of
  the actor, the end of the media session, and the two updates of the pending re-INVITE.
\<close>

fun in_dialog :: "dialog_act \<Rightarrow> bool" where
  "in_dialog (Responded r) = False"
| "in_dialog (Invited r) = False"
| "in_dialog Awaited = False"
| "in_dialog a = neutral a"

locale dialog_effects =
  fixes en :: "('s, 'b, 'm, 'o, 'c) b2b_env" and I :: "('b, 'm, 'o, 'c) b2b_session \<Rightarrow> bool"
  assumes I_core: "core s' = core s \<Longrightarrow> I s \<Longrightarrow> I s'"
    and I_act: "in_dialog da \<Longrightarrow> I s \<Longrightarrow> I (act da s)"
    and I_transition: "actor_Transition (be_publisher en) (be_dispatch en acts) cmd (bs_actor s) (bs_bus s) = Some (a, b, r) \<Longrightarrow>
      I s \<Longrightarrow> I (s\<lparr>bs_actor := a, bs_bus := b\<rparr>)"
    and I_finish: "actor_moves (be_publisher en) (be_finish en) (bs_actor s) (bs_bus s) = Some (a, b) \<Longrightarrow>
      I s \<Longrightarrow> I (s\<lparr>bs_actor := a, bs_bus := b\<rparr>)"
    and I_close: "session_Close (be_udp en) m (bs_pool s) (bs_os s) = Some (m1, p, os, e) \<Longrightarrow> bs_media s = Some m \<Longrightarrow>
      I s \<Longrightarrow> I (s\<lparr>bs_media := Some m1, bs_pool := p, bs_os := os\<rparr>)"
    and I_run: "session_Run (be_udp en) now (be_workers en) m (bs_pool s) (bs_os s) = Some (m1, p, os, e) \<Longrightarrow>
      bs_media s = Some m \<Longrightarrow> I s \<Longrightarrow> I (s\<lparr>bs_media := Some m1, bs_pool := p, bs_os := os\<rparr>)"
    and I_pending: "bs_pendingReInvite s = None \<Longrightarrow> I s \<Longrightarrow> I (setPendingReInvite tx cseq s)"
    and I_clear: "bs_pendingReInvite s = Some tx \<Longrightarrow> I s \<Longrightarrow>
      I (act (TxTerminated tx) (s\<lparr>bs_pendingReInvite := None\<rparr>))"
begin

lemma tx_I: "I s \<Longrightarrow> I (tx_Respond cmd r s)"
  by (simp add: tx_Respond_def I_act)

lemma apply_I: "applyMediaAnswer en body s = (s', r) \<Longrightarrow> I s \<Longrightarrow> I s'"
  using applyMediaAnswer_core I_core by blast

lemma transition_I:
  assumes "I s"
  shows "returns (\<lambda>(s', r). I s' \<and> bs_media s' = bs_media s \<and> bs_outbound s' = bs_outbound s \<and>
      bs_pendingReInvite s' = bs_pendingReInvite s)
    (session_transition en st l pe reason s)"
  by (rule returns_mono [OF session_transition_effect]) (auto intro!: I_act intro: I_transition assms)

lemma transition_then:
  assumes "I s"
    and "\<And>s' r. I s' \<Longrightarrow> bs_media s' = bs_media s \<Longrightarrow> bs_outbound s' = bs_outbound s \<Longrightarrow>
      bs_pendingReInvite s' = bs_pendingReInvite s \<Longrightarrow> returns Q (f (s', r))"
  shows "returns Q (session_transition en st l pe reason s \<bind> f)"
  by (rule returns_bind, rule returns_mono [OF transition_I [OF assms(1)]]) (auto intro: assms(2))

lemma transition_fst_I: "I s \<Longrightarrow> returns (\<lambda>x. I (fst x)) (session_transition en st l pe reason s)"
  by (rule returns_mono [OF transition_I]) auto

lemma fail_I: "I s \<Longrightarrow> returns I (session_fail en reason pe s)"
  by (auto simp: session_fail_def intro!: rets transition_fst_I)

lemma terminate_I:
  assumes "I s"
  shows "returns I (session_terminate en reason pe l s)"
  unfolding session_terminate_def
  by (rule transition_then [OF assms]) (auto intro!: rets transition_fst_I)

lemma clear_I: "I s \<Longrightarrow> I (clear_pending (if c then bs_pendingReInvite s else None) s)"
proof (cases "bs_pendingReInvite s")
  case (Some tx)
  assume "I s"
  then have "I (act (TxTerminated tx) (s\<lparr>bs_pendingReInvite := None\<rparr>))" by (rule I_clear [OF Some])
  then have "I (clear_pending (bs_pendingReInvite s) s)"
    by (rule I_core [rotated]) (simp add: core_def clear_pending_def Some)
  then show ?thesis using \<open>I s\<close> by (simp add: clear_pending_def)
qed (simp add: clear_pending_def)

lemma complete_I: "I s \<Longrightarrow> I (completePendingReInvite s)"
  using clear_I [of s True] I_core [of "completePendingReInvite s" "clear_pending (bs_pendingReInvite s) s"]
  by (auto simp: completePendingReInvite_def clear_pending_def core_def intro: I_core split: option.splits)

lemma complete_cseq_I: "I s \<Longrightarrow> I (completePendingReInviteCSeq cseq s)"
  unfolding completePendingReInviteCSeq_def by (rule clear_I)

lemma complete_tx_I: "I s \<Longrightarrow> I (completePendingReInviteTransaction tx s)"
  using clear_I [of s True] by (auto simp: completePendingReInviteTransaction_def)

lemma begin_finish_I: "I s \<Longrightarrow> I (fst (beginReInvite s))" "I s \<Longrightarrow> I (finishReInvite s)"
  by (auto simp: beginReInvite_def finishReInvite_def core_def intro: I_core [of _ s])

lemma has_pending_I:
  "hasPendingReInvite en s = (s', c) \<Longrightarrow> I s \<Longrightarrow> I s' \<and> bs_media s' = bs_media s \<and> (\<not> c \<longrightarrow> bs_pendingReInvite s' = None)"
  using complete_tx_I [of s "the (bs_pendingReInvite s)"]
  by (auto simp: hasPendingReInvite_def completePendingReInviteTransaction_def clear_pending_def
      split: option.splits if_splits)

lemma relayed_I: "I s \<Longrightarrow> I (respondRelayed cmd r e s)"
  by (auto simp: respondRelayed_def intro: tx_I split: option.splits)

lemma relay_I: "I s \<Longrightarrow> I (relayToCallee en cmd s)" "I s \<Longrightarrow> I (relayToCaller en cmd s)"
  by (auto simp: relayToCallee_def relayToCaller_def Let_def intro!: relayed_I I_act split: option.splits sum.splits)

lemma reinvite_I:
  assumes "I s" and "bs_pendingReInvite s = None"
  shows "returns I (reinvite_answered en cmd offer reinvite response s)"
proof -
  define s1 where "s1 = act Acked (s\<lparr>bs_outbound := map_option (\<lambda>d. d\<lparr>od_InviteRequest := reinvite,
                                 od_InviteResponse := Some response\<rparr>) (bs_outbound s)\<rparr>)"
  have s1: "I s1" "bs_pendingReInvite s1 = None"
    unfolding s1_def using assms by (auto intro!: I_act intro: I_core [of _ s] simp: core_def option.map_comp comp_def)
  have "I (s1\<lparr>bs_callerOffer := offer\<rparr>)" using s1(1) by (rule I_core [rotated]) (simp add: core_def)
  then have app: "I s2 \<and> bs_pendingReInvite s2 = None \<and> I (s2\<lparr>bs_callerOffer := x\<rparr>)"
    if "applyMediaAnswer en (rsp_Body response) (s1\<lparr>bs_callerOffer := offer\<rparr>) = (s2, r)" for s2 r x
    using apply_I [OF that] applyMediaAnswer_core [OF that] s1(2) by (auto simp: core_def intro: I_core [of _ s2])
  show ?thesis
    unfolding reinvite_answered_def s1_def [symmetric] Let_def
    by (intro returns_if returns_Some returns_prod returns_sum tx_I transition_then)
      (auto simp: assms s1 dest: app intro!: tx_I I_pending)
qed

lemma reinvite_command_I:
  assumes "I s"
  shows "returns I (handleReInviteCommand en cmd s)"
proof -
  obtain s1 c where h: "hasPendingReInvite en s = (s1, c)" by fastforce
  note s1 = has_pending_I [OF h assms]
  show ?thesis
  proof (cases c)
    case True
    then show ?thesis using s1 by (auto simp: handleReInviteCommand_def h intro!: rets tx_I)
  next
    case False
    then have pend: "I s1" "bs_pendingReInvite s1 = None" using s1 by auto
    then have relayed: "I (act (RelayedToCallee rq) s1)" "bs_pendingReInvite (act (RelayedToCallee rq) s1) = None" for rq
      by (simp_all add: I_act)
    show ?thesis
      by (auto simp: handleReInviteCommand_def h False Let_def split: option.splits
          intro!: returns_sum returns_prod returns_Some returns_None tx_I reinvite_I pend relayed)
  qed
qed

lemma hangup_I: "I s \<Longrightarrow> returns I (handleHangup en origin s)"
  unfolding handleHangup_def Let_def
  by (rule transition_then) (auto intro!: rets transition_fst_I I_act)

lemma command_I:
  assumes "I s"
  shows "returns (\<lambda>x. I (fst x)) (handleCommand en cmd s)"
  using hangup_I [OF assms, of "sc_origin cmd"] reinvite_command_I [OF assms, of cmd] relay_I [OF assms, of cmd]
  by (cases "sc_kind cmd"; cases "sc_result cmd")
    (auto simp: handleCommand_def Let_def intro!: rets I_act elim!: returns_mono)

lemma media_result_I: "I s \<Longrightarrow> returns I (receive_mediaResult en s)"
  by (auto simp: receive_mediaResult_def returns_def bind_eq_Some_conv split: option.splits if_splits intro: I_run)

lemma established_I: "I s \<Longrightarrow> returns I (established en arms s)"
proof (induction arms arbitrary: s)
  case (Cons arm arms)
  have reset: "I (s1\<lparr>bs_mediaResult := False\<rparr>)" if "I s1" for s1
    using that by (rule I_core [rotated]) (simp add: core_def)
  show ?case
  proof (cases arm)
    case (LoopCommand cmd)
    show ?thesis
      unfolding LoopCommand established.simps
      by (rule returns_bind, rule returns_mono [OF command_I [OF Cons.prems]]) (auto intro!: rets Cons.IH)
  next
    case LoopMedia
    show ?thesis
      unfolding LoopMedia established.simps
      by (intro returns_bind returns_mono [OF media_result_I [OF Cons.prems]] hangup_I reset)
  qed (auto simp: watchPendingReInvite_def
      intro!: hangup_I begin_finish_I complete_cseq_I complete_tx_I Cons.IH Cons.prems)
qed (simp add: returns_None)

lemma await_I: "I s \<Longrightarrow> returns I (await_actor en s)"
  by (auto simp: await_actor_def returns_def bind_eq_Some_conv split: if_splits intro: I_finish)

lemma stop_I: "I s \<Longrightarrow> returns I (stopMedia en s)"
proof -
  assume I: "I s"
  have pub: "returns I (PublishSummary en s2)" if "I s2" for s2
    using that by (auto simp: PublishSummary_def publishSummary_def returns_def bind_eq_Some_conv core_def lease_view_def
        split: option.splits prod.splits intro!: I_core [of _ s2])
  show ?thesis
    unfolding stopMedia_def Let_def
    by (intro returns_option returns_bind)
      (auto simp: returns_def [of _ "session_Close _ _ _ _"] intro!: rets pub returns_mono [OF media_result_I] I
        dest: I_close [OF _ _ I])
qed

lemma deferred_I:
  assumes "I s"
  shows "returns I (await_actor en s \<bind> (\<lambda>s2. stopMedia en (completePendingReInvite s2) \<bind> (\<lambda>s3. Some (act InboundClosed s3))))"
  by (intro returns_bind returns_mono [OF await_I [OF assms]] returns_mono [OF stop_I] complete_I returns_Some I_act) simp_all

end

text \<open>It survives a whole run, if it also survives the entries of the call setup, the allocation of media,
  and the outbound dialog and its entry in the engine's map.\<close>

locale session_effects = dialog_effects en I
  for en :: "('s, 'b, 'm, 'o, 'c) b2b_env" and I :: "('b, 'm, 'o, 'c) b2b_session \<Rightarrow> bool" +
  assumes I_setup: "neutral da \<Longrightarrow> I s \<Longrightarrow> I (act da s)"
    and I_new: "factory_New (be_udp en) (be_mediaCfg en) (be_acquire en CallerLeg) (be_acquire en CalleeLeg)
        (be_random en CallerLeg) (be_random en CalleeLeg) (be_uuid en) meta (bs_pool s) (bs_os s) = Some (p, os, res) \<Longrightarrow>
      bs_media s = None \<Longrightarrow> I s \<Longrightarrow>
      I (s\<lparr>bs_pool := p, bs_os := os, bs_media := (case res of Inl _ \<Rightarrow> None | Inr m \<Rightarrow> Some m)\<rparr>)"
    and I_outbound: "bs_outbound s = None \<Longrightarrow> I s \<Longrightarrow> I (s\<lparr>bs_outbound := Some d\<rparr>)"
    and I_stored: "bs_outbound s = Some d \<Longrightarrow> I s \<Longrightarrow> I (act (OutboundStored (od_ID d)) s)"
begin

lemma respond_I: "inbound_Respond en r s = (s', e) \<Longrightarrow> I s \<Longrightarrow> I s'"
  by (auto simp: inbound_Respond_def intro: I_setup)

lemma reject_I: "I s \<Longrightarrow> returns I (reject en r reason pe s)"
  by (auto simp: reject_def inbound_Respond_def intro!: fail_I I_setup)

lemma connect_I: "I s \<Longrightarrow> returns I (run_connect en arms s)"
  unfolding run_connect_def Let_def hang_up_callee_def
  by (intro returns_if reject_I transition_then returns_prod)
    (auto intro!: rets I_setup I_stored established_I terminate_I dest: respond_I split: option.splits)

lemma answered_I:
  assumes "I s"
  shows "returns I (run_answered en arms response s)"
proof -
  have "I (s\<lparr>bs_outbound := map_option (\<lambda>d. d\<lparr>od_InviteResponse := x\<rparr>) (bs_outbound s)\<rparr>)" for x
    using assms by (rule I_core [rotated]) (simp add: core_def option.map_comp comp_def)
  then show ?thesis
    unfolding run_answered_def Let_def hang_up_callee_def
    by (intro returns_if returns_prod returns_sum reject_I connect_I I_setup) (auto dest: apply_I)
qed

lemma on_response_I: "I s \<Longrightarrow> returns (\<lambda>x. I (fst x)) (on_response en r s)"
  unfolding on_response_def Let_def
  by (intro returns_if returns_prod returns_sum transition_then returns_Some)
    (auto simp: inbound_Respond_def intro!: rets I_setup dest: apply_I)

lemma on_responses_I: "I s \<Longrightarrow> returns (\<lambda>x. I (fst x)) (on_responses en rs s)"
proof (induction rs arbitrary: s)
  case (Cons r rs)
  show ?case
    unfolding on_responses.simps
    by (rule returns_bind, rule returns_mono [OF on_response_I [OF Cons.prems]]) (auto intro!: rets Cons.IH)
qed (simp add: returns_Some)

lemma wait_I:
  assumes "I s"
  shows "returns I (run_wait en arms s)"
  unfolding run_wait_def Let_def
  by (rule returns_bind, rule returns_mono [OF on_responses_I [OF I_setup [OF _ assms]]])
    (auto intro!: rets answered_I reject_I fail_I split: wait_outcome.splits option.splits)

lemma invite_I:
  assumes "I s" and "bs_outbound s = None"
  shows "returns I (run_invite en arms request bi m s)"
proof -
  have "I s1 \<and> I (s1\<lparr>bs_outbound := Some d\<rparr>)" if "createOutbound en request bi offer s = (s1, r)" for s1 r offer d
  proof -
    have "I s1" "bs_outbound s1 = None"
      using that assms by (auto simp: createOutbound_def Let_def intro: I_setup split: sum.splits)
    then show ?thesis using I_outbound by blast
  qed
  then show ?thesis
    unfolding run_invite_def
    by (intro returns_sum returns_prod reject_I wait_I) (auto simp: assms)
qed

lemma media_I:
  assumes "I s" and "bs_media s = None" and "bs_outbound s = None"
  shows "returns I (run_media en arms request bi s)"
proof -
  have "I (s\<lparr>bs_pool := p, bs_os := os\<rparr>)"
    if "I (s\<lparr>bs_pool := p, bs_os := os, bs_media := None\<rparr>)" for p os
    using that by (rule I_core [rotated]) (simp add: core_def assms(2))
  then show ?thesis
    using I_new [OF _ assms(2,1)]
    unfolding run_media_def Let_def returns_def [of _ "factory_New _ _ _ _ _ _ _ _ _ _"]
    by (intro returns_bind) (fastforce simp: assms(3) returns_def [of _ "factory_New _ _ _ _ _ _ _ _ _ _"]
        intro!: reject_I invite_I split: sum.splits)
qed

lemma body_I:
  assumes "I s" and "bs_media s = None" and "bs_outbound s = None"
  shows "returns I (run_body en arms s)"
proof -
  have offer: "I (s1\<lparr>bs_callerOffer := x\<rparr>)" if "I s1" for s1 x
    using that by (rule I_core [rotated]) (simp add: core_def)
  show ?thesis
    unfolding run_body_def Let_def
    by (rule transition_then [OF assms(1)])
      (auto simp: inbound_Respond_def assms(2,3) intro!: rets I_setup fail_I reject_I media_I offer)
qed

lemma run_I:
  assumes "I s" and "bs_media s = None" and "bs_outbound s = None"
  shows "returns I (session_run en arms s)"
  unfolding session_run_def
  by (intro returns_bind [of _ _ "run_body en arms s"] returns_mono [OF body_I [OF assms]] deferred_I)

end

subsection \<open>The call actor\<close>

text \<open>What other users of the publisher do during the calls of a session.\<close>

definition others_step :: "('s, 'b, 'm, 'o, 'c) b2b_env \<Rightarrow> 'b \<Rightarrow> 'b \<Rightarrow> bool" where
  "others_step en b b' \<longleftrightarrow>
     (\<exists>f. b' = f b \<and> (Others f \<in> set (be_finish en) \<or>
        (\<exists>acts. Others f \<in> set (dp_before (be_dispatch en acts)) \<union> set (dp_between (be_dispatch en acts)))))"

lemma actor_moves_reach:
  assumes "actor_moves pub ms a b = Some (a', b')" and "\<And>f b. Others f \<in> set ms \<Longrightarrow> env b (f b)"
    and "actor_reach pub env s0 (a, b)"
  shows "actor_reach pub env s0 (a', b')"
  using assms
proof (induction pub ms a b rule: actor_moves.induct)
  case (2 pub c ms a b)
  then show ?case by (fastforce simp: bind_eq_Some_conv split: if_splits intro: reach_step step_start)
next
  case (3 pub arm ms a b)
  then show ?case by (fastforce simp: bind_eq_Some_conv split: if_splits intro: reach_step step_run)
next
  case (4 pub f ms a b)
  have "env b (f b)" by (rule "4.prems"(2)) simp
  then have "actor_reach pub env s0 (a, f b)" by (rule reach_step [OF "4.prems"(3) step_env])
  then show ?case using 4 by simp
qed simp

text \<open>The two arms chosen in a call of \<open>Transition\<close> are arms of its \<open>select\<close> statements.\<close>

lemma transition_send_enqueue: "transition_send arm c cmd a = Some (a', r) \<Longrightarrow> Transition_enqueue c cmd a a' r"
  by (cases arm) (auto split: if_splits intro: Transition_enqueue.intros)

lemma transition_wait_await: "transition_wait arm c cmd a = Some r \<Longrightarrow> Transition_await c cmd a r"
  by (cases arm) (auto split: if_splits intro: Transition_await.intros dest: map_of_SomeD)

lemma actor_Transition_reach:
  assumes "actor_Transition pub d cmd a b = Some (a', b', r)"
    and "\<And>f b. Others f \<in> set (dp_before d) \<union> set (dp_between d) \<Longrightarrow> env b (f b)"
    and "actor_reach pub env s0 (a, b)"
  shows "actor_reach pub env s0 (a', b')"
proof -
  obtain a1 b1 a2 r2 where m: "actor_moves pub (dp_before d) a b = Some (a1, b1)"
    "transition_send (dp_send d) (dp_sendCtx d) cmd a1 = Some (a2, r2)"
    and rest: "(a', b') = (a2, b1) \<or> actor_moves pub (dp_between d) a2 b1 = Some (a', b')"
    using assms(1) by (auto simp: actor_Transition_def bind_eq_Some_conv split: if_splits)
  have "actor_reach pub env s0 (a1, b1)" by (rule actor_moves_reach [OF m(1) _ assms(3)]) (use assms(2) in auto)
  then have "actor_reach pub env s0 (a2, b1)"
    by (rule reach_step) (rule step_submit [OF transition_send_enqueue [OF m(2)]])
  then show ?thesis using rest assms(2) by (auto intro: actor_moves_reach)
qed

interpretation run_actor: session_effects en
  "\<lambda>s. actor_reach (be_publisher en) (others_step en) s0 (bs_actor s, bs_bus s)"
  for en :: "('s, 'b, 'm, 'o, 'c) b2b_env" and s0
proof (unfold_locales, goal_cases)
  case (3 acts cmd s a b r)
  show ?case
    using actor_Transition_reach [OF 3(1), of "others_step en", OF _ 3(2)] by (auto simp: others_step_def)
next
  case (4 s a b)
  show ?case
    using actor_moves_reach [OF 4(1), of "others_step en", OF _ 4(2)] by (auto simp: others_step_def)
qed (auto simp: core_def setPendingReInvite_def)

subsection \<open>The media ports\<close>

text \<open>Packet loops change counters and addresses, and leave the leases and the pool alone.\<close>

definition quiet_workers ::
  "(media_session \<Rightarrow> 'c pool \<Rightarrow> 'o \<Rightarrow> media_session \<times> 'c pool \<times> 'o \<times> go_error option) \<Rightarrow> bool" where
  "quiet_workers w \<longleftrightarrow> (\<forall>m p os. lease_view (fst (w m p os)) = lease_view m \<and> fst (snd (w m p os)) = p)"

text \<open>The pool as it was before the call, apart from the two leases of a session that is not closed.\<close>

definition holds_ports :: "'c lease list \<Rightarrow> 'c pool \<Rightarrow> (nat \<times> nat \<times> bool) option \<Rightarrow> bool" where
  "holds_ports before p view =
     (case view of
        Some (h1, h2, False) \<Rightarrow>
          (\<exists>ls l1 l2. pool_leases p = ls @ [l1, l2] \<and> h1 = length ls \<and> h2 = Suc (length ls) \<and>
             \<not> le_once l1 \<and> \<not> le_once l2 \<and> filter (\<lambda>l. \<not> le_once l) ls = before)
      | _ \<Rightarrow> open_leases p = before)"

definition ports_inv :: "16 word list \<Rightarrow> 'c lease list \<Rightarrow> ('b, 'm, 'o, 'c) b2b_session \<Rightarrow> bool" where
  "ports_inv ports before s \<longleftrightarrow>
     pool_inv ports ([], bs_pool s, bs_os s) \<and> holds_ports before (bs_pool s) (map_option lease_view (bs_media s))"

lemma pool_inv_os: "pool_inv ports (ts, p, os) = pool_inv ports (ts, p, os')"
  by (simp add: pool_inv_def)

lemma close_ports:
  assumes "session_Close u m p os = Some (m', p', os', e)" and "pool_inv ports ([], p, os)"
    and "holds_ports before p (Some (lease_view m))"
  shows "pool_inv ports ([], p', os') \<and> holds_ports before p' (Some (lease_view m')) \<and> ms_closed m'"
proof (cases "ms_closed m")
  case True
  then show ?thesis using assms by (auto simp: session_Close_def)
next
  case False
  then obtain ls l1 l2 where ls: "pool_leases p = ls @ [l1, l2]" "pt_lease (ms_caller m) = length ls"
    "pt_lease (ms_callee m) = Suc (length ls)" "\<not> le_once l1" "\<not> le_once l2" "filter (\<lambda>l. \<not> le_once l) ls = before"
    using assms(3) by (auto simp: holds_ports_def lease_view_def)
  obtain p1 os1 e1 p2 os2 e2 where rel: "lease_Release u (Some (length ls)) p os = Some (p1, os1, e1)"
    "lease_Release u (Some (Suc (length ls))) p1 os1 = Some (p2, os2, e2)" "pool_inv ports ([], p2, os2)"
    "open_leases p2 = filter (\<lambda>l. \<not> le_once l) ls"
    using release_both [OF assms(2) ls(1,4,5), of u] by metis
  then show ?thesis using assms(1) False ls by (auto simp: session_Close_def holds_ports_def lease_view_def)
qed

lemma new_ports:
  assumes "factory_New u cfg cs cs' rand1 rand2 uuid meta p os = Some (p', os', r)"
    and "pool_inv ports ([], p, os)" and "open_leases p = before"
  shows "pool_inv ports ([], p', os') \<and>
    holds_ports before p' (map_option lease_view (case r of Inl _ \<Rightarrow> None | Inr m \<Rightarrow> Some m))"
proof -
  have "pool_inv ports ([], p', os') \<and> new_outcome cfg p p' r"
    using factory_New_outcome [OF assms(2), of u cfg cs cs' rand1 rand2 uuid meta] assms(1) by auto
  then show ?thesis
    using assms(3)
    by (cases r) (auto simp: new_outcome_def holds_ports_def lease_view_def open_leases_def new_lease_def)
qed

lemma run_ports_held:
  assumes "session_Run u now w m p os = Some (m', p', os', e)" and "quiet_workers w"
    and "pool_inv ports ([], p, os)" and "holds_ports before p (Some (lease_view m))"
  shows "pool_inv ports ([], p', os') \<and> holds_ports before p' (Some (lease_view m'))"
proof -
  obtain m1 r1 where start: "session_start now m = (m1, r1)" "lease_view m1 = lease_view m"
    by (cases "session_start now m") (auto simp: session_start_def lease_view_def split: if_splits)
  obtain m2 p2 os2 e2 where work: "w m1 p os = (m2, p2, os2, e2)" by (cases "w m1 p os") auto
  then have quiet: "lease_view m2 = lease_view m" "p2 = p"
    using assms(2) start(2) unfolding quiet_workers_def by (metis fst_conv snd_conv)+
  have same: "lease_view (x\<lparr>ms_ran := True, ms_runErr := r\<rparr>) = lease_view x" for x r by (simp add: lease_view_def)
  have view: "holds_ports before p (Some (lease_view m2))" "pool_inv ports ([], p, os2)"
    using assms(3,4) pool_inv_os [of ports "[]" p os os2] by (simp_all add: quiet)
  show ?thesis
    using assms(1,3,4) start work quiet
    by (auto simp: session_Run_def session_finish_def same Let_def split: if_splits option.splits prod.splits
        dest!: close_ports [OF _ view(2) view(1)])
qed

interpretation run_ports: session_effects en "\<lambda>s. quiet_workers (be_workers en) \<longrightarrow> ports_inv ports before s"
  for en :: "('s, 'b, 'm, 'o, 'c) b2b_env" and ports before
proof (unfold_locales, goal_cases)
  case (1 s' s)
  then show ?case by (simp add: ports_inv_def core_def)
next
  case (5 m s m1 p os e)
  then show ?case using close_ports [OF 5(1)] by (auto simp: ports_inv_def)
next
  case (6 now m s m1 p os e)
  then show ?case using run_ports_held [OF 6(1)] by (auto simp: ports_inv_def)
next
  case (10 meta s p os res)
  then show ?case using new_ports [OF 10(1)] by (auto simp: ports_inv_def holds_ports_def)
qed (auto simp: ports_inv_def setPendingReInvite_def)

lemma close_returns:
  assumes "pool_inv ports ([], p, os)" and "holds_ports before p (Some (lease_view m))"
  shows "\<exists>m' p' os' e. session_Close u m p os = Some (m', p', os', e)"
proof (cases "ms_closed m")
  case False
  then obtain ls l1 l2 where ls: "pool_leases p = ls @ [l1, l2]" "pt_lease (ms_caller m) = length ls"
    "pt_lease (ms_callee m) = Suc (length ls)" "\<not> le_once l1" "\<not> le_once l2"
    using assms(2) by (auto simp: holds_ports_def lease_view_def)
  obtain p1 os1 e1 p2 os2 e2 where "lease_Release u (Some (length ls)) p os = Some (p1, os1, e1)"
    "lease_Release u (Some (Suc (length ls))) p1 os1 = Some (p2, os2, e2)"
    by (rule release_both [OF assms(1) ls(1,4,5), of u])
  then show ?thesis using False ls by (simp add: session_Close_def)
qed (simp add: session_Close_def)

lemma closed_run_returns:
  assumes "quiet_workers w" and "ms_closed m"
  shows "\<exists>m' p' os' e. session_Run u now w m p os = Some (m', p', os', e)"
proof -
  obtain m1 r where start: "session_start now m = (m1, r)" "ms_closed m1"
    using assms(2) by (cases "session_start now m") (auto simp: session_start_def split: if_splits)
  obtain m2 p2 os2 e2 where work: "w m1 p os = (m2, p2, os2, e2)" by (cases "w m1 p os") auto
  have "lease_view (fst (w m1 p os)) = lease_view m1" using assms(1) unfolding quiet_workers_def by blast
  then have "ms_closed m2" using work start(2) by (simp add: lease_view_def)
  then show ?thesis by (cases r) (simp_all add: session_Run_def start(1) work session_finish_def session_Close_def)
qed

text \<open>With a publisher that returns, \<open>stopMedia\<close> returns.\<close>

lemma stopMedia_returns:
  assumes "quiet_workers (be_workers en)" and "ports_inv ports before s"
    and "\<And>c summary b. be_summaries en c summary b \<noteq> None"
  shows "\<exists>s'. stopMedia en s = Some s'"
proof (cases "bs_media s")
  case (Some m)
  have p: "pool_inv ports ([], bs_pool s, bs_os s)" "holds_ports before (bs_pool s) (Some (lease_view m))"
    using assms(2) Some by (simp_all add: ports_inv_def)
  obtain m1 p1 os1 e1 where c: "session_Close (be_udp en) m (bs_pool s) (bs_os s) = Some (m1, p1, os1, e1)"
    using close_returns [OF p] by blast
  then have "ms_closed m1" using close_ports [OF c p] by simp
  then have run: "\<exists>m2 p2 os2 e2. session_Run (be_udp en) now (be_workers en) m1 p1 os1 = Some (m2, p2, os2, e2)" for now
    by (rule closed_run_returns [OF assms(1)])
  have publish: "\<exists>s'. PublishSummary en x = Some s'" for x
    by (cases "bs_media x") (auto simp: PublishSummary_def publishSummary_def assms(3) split: option.splits)
  obtain m2 p2 os2 e2 where r: "session_Run (be_udp en) (be_now en (bs_log s)) (be_workers en) m1 p1 os1 = Some (m2, p2, os2, e2)"
    using run by blast
  show ?thesis using publish by (simp add: stopMedia_def Some c receive_mediaResult_def Let_def r)
qed (simp add: stopMedia_def)

lemma stopMedia_closed:
  assumes "quiet_workers (be_workers en)"
  shows "returns (\<lambda>s'. case bs_media s' of None \<Rightarrow> True | Some m \<Rightarrow> ms_closed m) (stopMedia en s)"
proof -
  have closed: "ms_closed m'" if "session_Close u m p os = Some (m', p', os', e)" for u m p os m' p' os' e
    using that by (auto simp: session_Close_def split: if_splits option.splits prod.splits)
  have run: "ms_closed m'" if "session_Run u now (be_workers en) m p os = Some (m', p', os', e)" "ms_closed m"
    for u now m p os m' p' os' e
  proof -
    have "ms_closed (fst (be_workers en x p os)) = ms_closed x" for x
      using assms by (auto simp: quiet_workers_def lease_view_def)
    then show ?thesis
      using that closed
      by (auto simp: session_Run_def session_finish_def session_start_def Let_def split: if_splits option.splits prod.splits)
  qed
  have pub: "returns (\<lambda>s'. case bs_media s' of None \<Rightarrow> True | Some m \<Rightarrow> ms_closed m) (PublishSummary en s1)"
    if "case bs_media s1 of None \<Rightarrow> True | Some m \<Rightarrow> ms_closed m" for s1
    using that by (auto simp: PublishSummary_def publishSummary_def returns_def bind_eq_Some_conv
        split: option.splits prod.splits)
  show ?thesis
    unfolding stopMedia_def receive_mediaResult_def Let_def
    by (auto simp: returns_def bind_eq_Some_conv split: option.splits if_splits prod.splits
        dest!: closed run returnsD [OF pub, rotated])
qed

subsection \<open>The pending re-INVITE\<close>

text \<open>The re-INVITE that a log has answered with 200 and not yet completed.\<close>

fun pending_of :: "nat option \<Rightarrow> dialog_act list \<Rightarrow> nat option option" where
  "pending_of q [] = Some q"
| "pending_of q (ReInvitePending tx cseq # as) = (if q = None then pending_of (Some tx) as else None)"
| "pending_of q (TxTerminated tx # as) = (if q = Some tx then pending_of None as else None)"
| "pending_of q (a # as) = pending_of q as"

lemma pending_of_append:
  "pending_of q (xs @ ys) = (case pending_of q xs of None \<Rightarrow> None | Some q' \<Rightarrow> pending_of q' ys)"
  by (induction q xs rule: pending_of.induct) auto

lemma pending_neutral: "neutral a \<Longrightarrow> pending_of q [a] = Some q"
  by (cases a) auto

lemma in_dialog_neutral: "in_dialog a \<Longrightarrow> neutral a"
  by (cases a) auto

interpretation run_pending: session_effects en "\<lambda>s. pending_of None (bs_log s) = Some (bs_pendingReInvite s)"
  for en :: "('s, 'b, 'm, 'o, 'c) b2b_env"
  by unfold_locales (auto simp: core_def setPendingReInvite_def pending_of_append pending_neutral in_dialog_neutral)

subsection \<open>The outbound dialog\<close>

text \<open>What a session has put into the engine's map of outbound dialogs is the dialog it has.\<close>

definition stored_own :: "('b, 'm, 'o, 'c) b2b_session \<Rightarrow> bool" where
  "stored_own s \<longleftrightarrow> (\<forall>ident. OutboundStored ident \<in> set (bs_log s) \<longrightarrow> map_option od_ID (bs_outbound s) = Some ident)"

lemma neutral_not_stored: "neutral a \<Longrightarrow> a \<noteq> OutboundStored ident"
  by auto

interpretation run_stored: session_effects en stored_own
  for en :: "('s, 'b, 'm, 'o, 'c) b2b_env"
  by unfold_locales
    (auto simp: core_def stored_own_def setPendingReInvite_def dest: neutral_not_stored in_dialog_neutral)

subsection \<open>The protocol between the two legs\<close>

text \<open>
  A back-to-back call as an abstract machine over what is done to the dialogs: an INVITE to the
  callee, an ACK, the recorded answer, and only then a 2xx to the caller; or a final refusal.
\<close>

datatype leg_phase = Offered | Inviting | Confirmed | Answering | Talking | Refused

fun leg_step :: "leg_phase \<Rightarrow> dialog_act \<Rightarrow> leg_phase option" where
  "leg_step ph (Responded r) =
     (if ph = Answering then (if rsp_StatusCode r = StatusOK then Some Talking else None)
      else if ph = Talking \<or> ph = Refused then None
      else if 300 \<le> rsp_StatusCode r then Some Refused
      else if rsp_StatusCode r < 200 \<and> ph \<noteq> Confirmed then Some ph
      else None)"
| "leg_step ph (Invited r) = (if ph = Offered then Some Inviting else None)"
| "leg_step ph Awaited = (if ph = Inviting then Some ph else None)"
| "leg_step ph Acked = (if ph = Inviting then Some Confirmed else if ph = Talking then Some ph else None)"
| "leg_step ph ByeToCallee = (if ph = Confirmed \<or> ph = Talking then Some ph else None)"
| "leg_step ph (OutboundStored d) = (if ph = Confirmed then Some ph else None)"
| "leg_step ph (Transitioned st r) =
     (if ph = Answering then None
      else if ph = Confirmed \<and> st = StateAnswered \<and> r = None then Some Answering else Some ph)"
| "leg_step ph (TxTerminated tx) = Some ph"
| "leg_step ph InboundClosed = Some ph"
| "leg_step ph a = (if ph = Talking then Some ph else None)"

fun leg_run :: "leg_phase \<Rightarrow> dialog_act list \<Rightarrow> leg_phase option" where
  "leg_run ph [] = Some ph"
| "leg_run ph (a # as) = (case leg_step ph a of None \<Rightarrow> None | Some ph' \<Rightarrow> leg_run ph' as)"

lemma leg_run_append: "leg_run ph (xs @ ys) = (case leg_run ph xs of None \<Rightarrow> None | Some ph' \<Rightarrow> leg_run ph' ys)"
  by (induction xs arbitrary: ph) (auto split: option.splits)

definition leg_at :: "leg_phase \<Rightarrow> ('b, 'm, 'o, 'c) b2b_session \<Rightarrow> bool" where
  "leg_at ph s \<longleftrightarrow> leg_run Offered (bs_log s) = Some ph"

definition leg_ok :: "('b, 'm, 'o, 'c) b2b_session \<Rightarrow> bool" where
  "leg_ok s \<longleftrightarrow> (\<exists>ph. leg_at ph s)"

lemma leg_act: "leg_at ph s \<Longrightarrow> leg_step ph a = Some ph' \<Longrightarrow> leg_at ph' (act a s)"
  by (simp add: leg_at_def leg_run_append)

lemma leg_frame [simp]:
  "leg_at ph (s\<lparr>bs_callerOffer := x\<rparr>) = leg_at ph s" "leg_at ph (s\<lparr>bs_outbound := d\<rparr>) = leg_at ph s"
  "leg_at ph (s\<lparr>bs_pool := p, bs_os := os\<rparr>) = leg_at ph s"
  "leg_at ph (s\<lparr>bs_pool := p, bs_os := os, bs_media := m\<rparr>) = leg_at ph s"
  by (simp_all add: leg_at_def)

interpretation talking: dialog_effects en "leg_at Talking" for en :: "('s, 'b, 'm, 'o, 'c) b2b_env"
proof (unfold_locales, goal_cases)
  case (2 da s)
  then show ?case by (cases da) (auto intro: leg_act)
qed (auto simp: core_def leg_at_def leg_run_append setPendingReInvite_def)

lemma leg_okI: "leg_at ph s \<Longrightarrow> leg_ok s"
  by (auto simp: leg_ok_def)

lemma leg_transition:
  assumes "leg_at ph s" and "ph \<noteq> Answering" and "ph = Confirmed \<Longrightarrow> st \<noteq> StateAnswered"
    and "\<And>s' r. leg_at ph s' \<Longrightarrow> returns Q (f (s', r))"
  shows "returns Q (session_transition en st l pe reason s \<bind> f)"
  by (rule returns_bind, rule returns_mono [OF session_transition_effect])
    (use assms(1-3) in \<open>auto intro!: assms(4) simp: leg_at_def leg_run_append\<close>)

lemma leg_talking: "returns (leg_at Talking) m \<Longrightarrow> returns leg_ok m"
  by (erule returns_mono) (rule leg_okI)

lemma leg_fail:
  assumes "leg_at ph s" and "ph \<noteq> Answering"
  shows "returns leg_ok (session_fail en reason pe s)"
  unfolding session_fail_def
  by (rule returns_map, rule returns_mono [OF session_transition_effect])
    (use assms in \<open>auto simp: leg_ok_def leg_at_def leg_run_append\<close>)

lemma leg_reject:
  assumes "leg_at ph s" and "ph = Offered \<or> ph = Inviting \<or> ph = Confirmed" and "300 \<le> rsp_StatusCode r"
  shows "returns leg_ok (reject en r reason pe s)"
  unfolding reject_def inbound_Respond_def fst_conv
  by (rule leg_fail [of Refused]) (use assms in \<open>auto intro: leg_act\<close>)

lemma leg_connect:
  assumes "leg_at Inviting s"
  shows "returns leg_ok (run_connect en arms s)"
proof -
  have acked: "leg_at Confirmed (act Acked s)" using assms by (rule leg_act) simp
  then have bye: "leg_at Confirmed (hang_up_callee s)" unfolding hang_up_callee_def by (rule leg_act) simp
  define s1 where "s1 = (case bs_outbound s of None \<Rightarrow> act Acked s | Some d \<Rightarrow> act (OutboundStored (od_ID d)) (act Acked s))"
  have s1: "leg_at Confirmed s1" using acked by (auto simp: s1_def intro: leg_act split: option.splits)
  have answered: "returns leg_ok (if r \<noteq> None then Some (act ByeToCallee s2)
       else case inbound_Respond en (response_with StatusOK ''OK'' (bs_callerAnswer s2) [sdp_type]) s2 of
              (s3, Some _) \<Rightarrow> session_terminate en ''caller answer transaction failed'' ''CANCEL''
                 (call_CallerLeg (bs_call s3)) (act ByeToCallee s3)
            | (s3, None) \<Rightarrow> established en arms s3)"
    if s2: "s2 = act (Transitioned StateAnswered r) (s1\<lparr>bs_actor := a, bs_bus := b\<rparr>)" for s2 r a b
  proof (cases r)
    case None
    then have "leg_at Answering s2" using s1 s2 by (auto simp: leg_at_def leg_run_append)
    then have up: "leg_at Talking (act (Responded (response_with StatusOK ''OK'' (bs_callerAnswer s2) [sdp_type])) s2)"
      by (rule leg_act) (simp add: response_with_def)
    have bye: "leg_at Talking (act ByeToCallee (act (Responded (response_with StatusOK ''OK'' (bs_callerAnswer s2) [sdp_type])) s2))"
      using up by (rule leg_act) simp
    show ?thesis
      using leg_talking [OF talking.terminate_I [OF bye, where en = en]]
        leg_talking [OF talking.established_I [OF up, where en = en]]
      by (simp add: None inbound_Respond_def split: option.splits)
  next
    case (Some e)
    then have "leg_at Confirmed (act ByeToCallee s2)" using s1 s2 by (auto simp: leg_at_def leg_run_append)
    then show ?thesis by (simp add: Some returns_Some leg_okI)
  qed
  show ?thesis
    unfolding run_connect_def s1_def [symmetric] Let_def
    by (intro returns_if leg_reject [OF bye] leg_reject [OF acked] returns_bind returns_mono [OF session_transition_effect])
      (use answered in \<open>auto simp: sip_status\<close>)
qed

lemma leg_apply: "applyMediaAnswer en body s = (s', r) \<Longrightarrow> leg_at ph s' = leg_at ph s"
  using applyMediaAnswer_core [of en body s s' r] by (simp add: core_def leg_at_def)

lemma leg_answered:
  assumes "leg_at Inviting s"
  shows "returns leg_ok (run_answered en arms response s)"
proof -
  have bye: "leg_at Confirmed (hang_up_callee s2)" if "leg_at Inviting s2" for s2
    using that by (auto simp: leg_at_def leg_run_append hang_up_callee_def)
  have "leg_at Inviting (s\<lparr>bs_outbound := d\<rparr>)" for d using assms by (simp add: leg_at_def)
  then show ?thesis
    unfolding run_answered_def Let_def
    by (intro returns_if returns_prod returns_sum leg_reject [of Confirmed] leg_connect)
      (auto simp: leg_apply sip_status intro!: bye)
qed

lemma leg_on_response:
  assumes "leg_at Inviting s"
  shows "returns (\<lambda>x. leg_at Inviting (fst x)) (on_response en r s)"
  unfolding on_response_def Let_def
  by (intro returns_if returns_prod returns_sum leg_transition returns_Some)
    (auto simp: inbound_Respond_def leg_apply assms response_with_def intro!: rets leg_act)

lemma leg_on_responses: "leg_at Inviting s \<Longrightarrow> returns (\<lambda>x. leg_at Inviting (fst x)) (on_responses en rs s)"
proof (induction rs arbitrary: s)
  case (Cons r rs)
  show ?case
    unfolding on_responses.simps
    by (rule returns_bind, rule returns_mono [OF leg_on_response [OF Cons.prems]]) (auto intro!: rets Cons.IH)
qed (simp add: returns_Some)

text \<open>\<open>ErrDialogResponse\<close> carries the response that refused the INVITE.\<close>

definition refusals :: "wait_outcome \<Rightarrow> bool" where
  "refusals out \<longleftrightarrow> (\<forall>r. out = WaitRejected (Some r) \<longrightarrow> 300 \<le> rsp_StatusCode r)"

lemma leg_wait:
  assumes "leg_at Inviting s" and "refusals (snd (be_WaitAnswer en))"
  shows "returns leg_ok (run_wait en arms s)"
proof -
  have "leg_at Inviting (act Awaited s)" using assms(1) by (rule leg_act) simp
  then show ?thesis
    unfolding run_wait_def Let_def
    by (intro returns_bind returns_mono [OF leg_on_responses])
      (use assms(2) in \<open>auto simp: refusals_def sip_status split: wait_outcome.splits option.splits
        intro!: rets leg_answered leg_reject [of Inviting] leg_fail [of Inviting]\<close>)
qed

lemma leg_invite:
  assumes "leg_at Offered s" and "refusals (snd (be_WaitAnswer en))"
  shows "returns leg_ok (run_invite en arms request bi m s)"
proof -
  have err: "leg_at Offered s1 \<or> leg_at Inviting s1" if "createOutbound en request bi offer s = (s1, Inl e)" for s1 offer e
    using that assms(1) by (auto simp: createOutbound_def Let_def intro: leg_act split: sum.splits)
  have ok: "leg_at Inviting (s1\<lparr>bs_outbound := d\<rparr>)" if "createOutbound en request bi offer s = (s1, Inr x)" for s1 offer x d
    using that leg_act [OF assms(1), of "Invited _" Inviting]
    by (auto simp: createOutbound_def Let_def leg_at_def split: sum.splits)
  show ?thesis
    unfolding run_invite_def
    by (intro returns_sum returns_prod leg_reject [OF assms(1)] leg_wait ok assms(2))
      (auto simp: sip_status dest!: err intro: leg_reject [of Offered] leg_reject [of Inviting])
qed

lemma leg_body:
  assumes "leg_at Offered s" and "refusals (snd (be_WaitAnswer en))"
  shows "returns leg_ok (run_body en arms s)"
proof -
  have media: "returns leg_ok (run_media en arms request bi s1)" if "leg_at Offered s1" for s1 request bi
    unfolding run_media_def Let_def
    by (rule returns_bind, unfold returns_def [of _ "factory_New _ _ _ _ _ _ _ _ _ _"])
      (use that in \<open>auto simp: sip_status split: sum.splits intro!: leg_invite assms(2) leg_reject [of Offered]\<close>)
  have "leg_at Offered (act (Responded (NewResponse 100 ''Trying'' [])) s1)" if "leg_at Offered s1" for s1
    using that by (rule leg_act) simp
  then show ?thesis
    unfolding run_body_def Let_def
    by (intro leg_transition [OF assms(1)])
      (auto simp: inbound_Respond_def sip_status intro!: rets media leg_fail [of Offered] leg_reject [of Offered]
        intro: leg_act leg_okI)
qed

lemma stopMedia_log: "returns (\<lambda>s'. bs_log s' = bs_log s) (stopMedia en s)"
proof -
  have media: "returns (\<lambda>s3. bs_log s3 = bs_log s2) (receive_mediaResult en s2)"
    "returns (\<lambda>s3. bs_log s3 = bs_log s2) (PublishSummary en s2)" for s2
    by (auto simp: returns_def receive_mediaResult_def PublishSummary_def bind_eq_Some_conv split: option.splits if_splits)
  have both: "returns (\<lambda>s3. bs_log s3 = bs_log s) (receive_mediaResult en s1 \<bind> PublishSummary en)"
    "returns (\<lambda>s3. bs_log s3 = bs_log s) (PublishSummary en s1)" if "bs_log s1 = bs_log s" for s1
    using that by (auto intro!: returns_bind returns_mono [OF media(1)] returns_mono [OF media(2)])
  show ?thesis
  proof (cases "bs_media s")
    case (Some m)
    show ?thesis
      unfolding stopMedia_def Let_def Some option.case
      by (rule returns_bind, unfold returns_def [of _ "session_Close _ _ _ _"]) (auto intro!: both)
  qed (simp add: stopMedia_def returns_Some)
qed

lemma completePendingReInvite_log:
  "bs_log (completePendingReInvite s) = bs_log s @ (case bs_pendingReInvite s of None \<Rightarrow> [] | Some tx \<Rightarrow> [TxTerminated tx])"
  by (simp add: completePendingReInvite_def clear_pending_def split: option.splits)

lemma deferred_log:
  "returns (\<lambda>s'. \<exists>acts. bs_log s' = bs_log s @ acts \<and> set acts \<subseteq> insert InboundClosed (range TxTerminated))
     (await_actor en s \<bind> (\<lambda>s2. stopMedia en (completePendingReInvite s2) \<bind> (\<lambda>s3. Some (act InboundClosed s3))))"
proof -
  have await: "returns (\<lambda>s2. bs_log s2 = bs_log s) (await_actor en s)"
    by (auto simp: returns_def await_actor_def bind_eq_Some_conv split: if_splits)
  show ?thesis
    by (intro returns_bind returns_mono [OF await] returns_mono [OF stopMedia_log] returns_Some)
      (auto simp: completePendingReInvite_log split: option.splits)
qed

lemma leg_silent: "set acts \<subseteq> insert InboundClosed (range TxTerminated) \<Longrightarrow> leg_run ph acts = Some ph"
  by (induction acts) auto

lemma leg_session:
  assumes "leg_at Offered s" and "refusals (snd (be_WaitAnswer en))"
  shows "returns leg_ok (session_run en arms s)"
  unfolding session_run_def
  by (rule returns_bind [of _ _ "run_body en arms s"], rule returns_mono [OF leg_body [OF assms]],
      rule returns_mono [OF deferred_log]) (auto simp: leg_ok_def leg_at_def leg_run_append leg_silent)

end
