(* ===== verification/B2bua_Call.thy ===== *)
theory B2bua_Call
  imports B2bua_Run Memory_Store
begin

text \<open>
  The properties of a session of the back-to-back user agent: what it leaves behind, the protocol
  between its two legs, and when a call is connected; with a concrete call that is set up, put on hold,
  and hung up.
\<close>

subsection \<open>What is left after a run\<close>

lemma actor_reach_mono:
  assumes "actor_reach pub env s0 s" and "\<And>b b'. env b b' \<Longrightarrow> env' b b'"
  shows "actor_reach pub env' s0 s"
  using assms(1)
proof induction
  case (reach_step s s')
  from reach_step(2) have "actor_step pub env' s s'" by cases (auto intro: actor_step.intros assms(2))
  with reach_step(3) show ?case by (rule actor_reach.reach_step)
qed (rule reach_refl)

lemma stopMedia_frame:
  "returns (\<lambda>s'. bs_actor s' = bs_actor s \<and> bs_pendingReInvite s' = bs_pendingReInvite s) (stopMedia en s)"
proof -
  let ?same = "\<lambda>s s'. bs_actor s' = bs_actor s \<and> bs_pendingReInvite s' = bs_pendingReInvite s"
  have media: "returns (?same s1) (receive_mediaResult en s1)" "returns (?same s1) (PublishSummary en s1)" for s1
    by (auto simp: returns_def receive_mediaResult_def PublishSummary_def bind_eq_Some_conv split: option.splits if_splits)
  have both: "returns (?same s) (receive_mediaResult en s1 \<bind> PublishSummary en)" "returns (?same s) (PublishSummary en s1)"
    if "?same s s1" for s1
    using that by (auto intro!: returns_bind returns_mono [OF media(1)] returns_mono [OF media(2)])
  show ?thesis
  proof (cases "bs_media s")
    case (Some m)
    show ?thesis
      unfolding stopMedia_def Let_def Some option.case
      by (rule returns_bind, unfold returns_def [of _ "session_Close _ _ _ _"]) (auto intro!: both)
  qed (simp add: stopMedia_def returns_Some)
qed

lemma session_run_ended:
  "returns (\<lambda>s'. actor_done (bs_actor s') \<and> bs_pendingReInvite s' = None) (session_run en arms s)"
proof -
  have await: "returns (\<lambda>s'. actor_done (bs_actor s')) (await_actor en s1)" for s1
    by (auto simp: returns_def await_actor_def bind_eq_Some_conv split: if_splits)
  have body: "returns (\<lambda>_. True) (run_body en arms s)" by (simp add: returns_def)
  have complete: "bs_pendingReInvite (completePendingReInvite s2) = None"
    "bs_actor (completePendingReInvite s2) = bs_actor s2" for s2
    by (simp_all add: completePendingReInvite_def clear_pending_def split: option.splits)
  show ?thesis
    unfolding session_run_def
    by (intro returns_bind returns_mono [OF body] returns_mono [OF await] returns_mono [OF stopMedia_frame] returns_Some)
      (simp add: complete)
qed

lemma session_run_closed:
  assumes "quiet_workers (be_workers en)"
  shows "returns (\<lambda>s'. case bs_media s' of None \<Rightarrow> True | Some m \<Rightarrow> ms_closed m) (session_run en arms s)"
  unfolding session_run_def
  by (auto simp: returns_def bind_eq_Some_conv dest!: returnsD [OF stopMedia_closed [OF assms]])

lemma run_released:
  assumes "call_New tenant node now u1 u2 u3 = Inr cl" and "NewActor cap cl pb clk = Inr (bs_actor s)"
    and "be_publisher en = history_publish CallBus_Publish" and "bs_bus s = new_history b0 w0"
    and "\<And>h h'. others_step en h h' \<Longrightarrow> consumes wr h h'"
    and "pool_New c = Some (Inr p0)" and "(pool_step u)\<^sup>*\<^sup>* ([], p0, os0) (ts, bs_pool s, bs_os s)" and "set ts \<subseteq> {Finished}"
    and "quiet_workers (be_workers en)" and "bs_media s = None" and "session_run en arms s = Some s'"
    and "bs_outbound s = None" and "bs_log s = []"
  shows "pool_restored (bs_pool s) (bs_pool s') \<and> (\<forall>m. bs_media s' = Some m \<longrightarrow> ms_closed m) \<and>
    actor_done (bs_actor s') \<and> bs_pendingReInvite s' = None \<and>
    lifecycle cl (bh_sent (bs_bus s')) (call_State (actor_Snapshot (bs_actor s'))) \<and> stored_own s' \<and>
    (actor_phase (bs_actor s') = Exited None \<longrightarrow> isTerminal (call_State (actor_Snapshot (bs_actor s'))))"
proof -
  note ended = returnsD [OF session_run_ended assms(11)] returnsD [OF session_run_closed [OF assms(9)] assms(11)]
  have inv: "pool_inv (pool_ports c) ([], bs_pool s, bs_os s)"
    by (rule pool_inv_finished [OF assms(8) pool_reached [OF assms(6,7)]])
  then have "ports_inv (pool_ports c) (open_leases (bs_pool s)) s"
    by (simp add: ports_inv_def holds_ports_def assms(10))
  then have ports: "ports_inv (pool_ports c) (open_leases (bs_pool s)) s'"
    using returnsD [OF run_ports.run_I [where en = en and s = s] assms(11)] assms(9,10,12) by simp
  then have "open_leases (bs_pool s') = open_leases (bs_pool s)"
    using ended by (auto simp: ports_inv_def holds_ports_def lease_view_def split: option.splits)
  then have restored: "pool_restored (bs_pool s) (bs_pool s')"
    using inv ports by (auto simp: ports_inv_def intro: same_open_leases)
  have "actor_reach (be_publisher en) (others_step en) (bs_actor s, bs_bus s) (bs_actor s', bs_bus s')"
    by (rule returnsD [OF run_actor.run_I assms(11)]) (simp_all add: reach_refl assms(10,12))
  then have "actor_reach (history_publish CallBus_Publish) (consumes wr) (bs_actor s, new_history b0 w0) (bs_actor s', bs_bus s')"
    using actor_reach_mono [where env' = "consumes wr"] assms(5) by (metis assms(3,4))
  then have "actor_inv cl (bs_actor s') (bh_sent (bs_bus s'))" by (rule history_inv [OF assms(1,2)])
  moreover have "stored_own s'"
    by (rule returnsD [OF run_stored.run_I assms(11)]) (simp_all add: assms(10,12,13) stored_own_def)
  ultimately show ?thesis using ended restored by (auto simp: actor_inv_def actor_Snapshot_def split: option.splits)
qed


subsection \<open>The protocol between the legs\<close>

fun final_responses :: "dialog_act list \<Rightarrow> sip_response list" where
  "final_responses [] = []"
| "final_responses (Responded r # acts) = (if 200 \<le> rsp_StatusCode r then r # final_responses acts else final_responses acts)"
| "final_responses (a # acts) = final_responses acts"

lemma final_responses_in: "Responded r \<in> set acts \<Longrightarrow> 200 \<le> rsp_StatusCode r \<Longrightarrow> r \<in> set (final_responses acts)"
  by (induction acts rule: final_responses.induct) auto

definition may_answer :: "leg_phase \<Rightarrow> nat" where
  "may_answer ph = (if ph = Talking \<or> ph = Refused then 0 else 1)"

lemma leg_finals: "leg_run ph acts = Some ph' \<Longrightarrow> length (final_responses acts) \<le> may_answer ph"
proof (induction acts arbitrary: ph)
  case (Cons a acts)
  obtain ph1 where ph1: "leg_step ph a = Some ph1" "leg_run ph1 acts = Some ph'"
    using Cons.prems by (auto split: option.splits)
  note IH = Cons.IH [OF ph1(2)]
  show ?case
  proof (cases a)
    case (Responded r)
    then show ?thesis using ph1(1) IH by (auto simp: may_answer_def StatusOK_def split: if_splits)
  next
    case (Transitioned st r)
    then show ?thesis using ph1(1) IH by (auto simp: may_answer_def split: if_splits)
  qed (use ph1(1) IH in \<open>simp_all add: may_answer_def split: if_splits\<close>)
qed simp

text \<open>What a 2xx to the caller is preceded by, from a phase on.\<close>

fun leg_owes :: "leg_phase \<Rightarrow> sip_response \<Rightarrow> dialog_act list" where
  "leg_owes Answering r = [Responded r]"
| "leg_owes Confirmed r = [Transitioned StateAnswered None, Responded r]"
| "leg_owes ph r = [Acked, Transitioned StateAnswered None, Responded r]"

lemma leg_owes_step:
  assumes "leg_step ph a = Some ph1" and "ph1 \<noteq> Talking" and "ph1 \<noteq> Refused"
  shows "leg_owes ph r = leg_owes ph1 r \<or> leg_owes ph r = a # leg_owes ph1 r"
proof (cases "ph1 = ph")
  case False
  then show ?thesis using assms by (cases a) (auto split: if_splits)
qed simp

lemma leg_success:
  assumes "leg_run ph acts = Some ph'" and "Responded r \<in> set acts" and "200 \<le> rsp_StatusCode r" and "rsp_StatusCode r < 300"
  shows "subseq (leg_owes ph r) acts"
  using assms(1,2)
proof (induction acts arbitrary: ph)
  case (Cons a acts)
  obtain ph1 where ph1: "leg_step ph a = Some ph1" "leg_run ph1 acts = Some ph'"
    using Cons.prems(1) by (auto split: option.splits)
  show ?case
  proof (cases "a = Responded r")
    case True
    then have "ph = Answering" using ph1(1) assms(3,4) by (auto split: if_splits)
    then show ?thesis by (simp add: True)
  next
    case False
    then have "subseq (leg_owes ph1 r) acts" using Cons ph1(2) by auto
    moreover have "leg_owes ph r = leg_owes ph1 r \<or> leg_owes ph r = a # leg_owes ph1 r"
    proof -
      have "r \<in> set (final_responses acts)" using False Cons.prems(2) assms(3) by (auto intro: final_responses_in)
      then have "ph1 \<noteq> Talking \<and> ph1 \<noteq> Refused" using leg_finals [OF ph1(2)] by (auto simp: may_answer_def)
      then show ?thesis using leg_owes_step [OF ph1(1)] by blast
    qed
    ultimately show ?thesis by (elim disjE) (simp_all only: subseq_Cons2 list_emb_Cons)
  qed
qed simp

lemma run_legs:
  assumes "session_run en arms s = Some s'" and "bs_log s = []" and "refusals (snd (be_WaitAnswer en))"
  shows "(\<exists>ph. leg_run Offered (bs_log s') = Some ph) \<and> length (final_responses (bs_log s')) \<le> 1 \<and>
    (\<forall>r. Responded r \<in> set (bs_log s') \<and> 200 \<le> rsp_StatusCode r \<and> rsp_StatusCode r < 300 \<longrightarrow>
       subseq [Acked, Transitioned StateAnswered None, Responded r] (bs_log s'))"
proof -
  have "leg_ok s'" by (rule returnsD [OF leg_session assms(1)]) (simp_all add: leg_at_def assms)
  then obtain ph where "leg_run Offered (bs_log s') = Some ph" by (auto simp: leg_ok_def leg_at_def)
  then show ?thesis using leg_finals [of Offered] leg_success [of Offered] by (auto simp: may_answer_def)
qed

text \<open>C2: The session implements the protocol of a back-to-back call. Every run, whatever its
  environment answers, is a run of the abstract machine over its two legs: the caller gets at most
  one final response, and no response after it; the callee is invited at most once, acknowledged
  only when invited and sent a BYE only when acknowledged; and a 2xx goes to the caller only after
  the callee was acknowledged and the call was recorded as answered, in this order.\<close>

theorem run_protocol:
  assumes "session_run en arms s = Some s'" and "bs_log s = []" and "refusals (snd (be_WaitAnswer en))"
  shows "(\<exists>ph. leg_run Offered (bs_log s') = Some ph) \<and> length (final_responses (bs_log s')) \<le> 1 \<and>
    (\<forall>r. Responded r \<in> set (bs_log s') \<and> 200 \<le> rsp_StatusCode r \<and> rsp_StatusCode r < 300 \<longrightarrow>
       subseq [Acked, Transitioned StateAnswered None, Responded r] (bs_log s'))"
  by (rule run_legs [OF assms])

text \<open>C18: At most one re-INVITE is pending, and none is forgotten. Over a whole run, a re-INVITE that
  was answered with 200 has its transaction completed, by its ACK, by the end of the transaction or
  by the end of the call, before the next one is answered with 200 and before the run returns; and
  while it is pending, another re-INVITE is answered 491 and changes nothing else.\<close>

theorem reinvite_exclusive:
  assumes "session_run en arms s = Some s'" and "bs_log s = []" and "bs_pendingReInvite s = None" and "bs_media s = None"
    and "bs_outbound s = None"
  shows "pending_of None (bs_log s') = Some None \<and>
    (\<forall>s1 tx cmd. bs_pendingReInvite s1 = Some tx \<and> \<not> be_Acks en (bs_log s1) tx \<longrightarrow>
       handleReInviteCommand en cmd s1 =
         Some (tx_Respond cmd (NewResponse StatusRequestPending ''Request Pending'' []) s1) \<and>
       beginReInvite s1 = (s1, False))"
proof -
  have "pending_of None (bs_log s') = Some (bs_pendingReInvite s')"
    by (rule returnsD [OF run_pending.run_I assms(1)]) (simp_all add: assms)
  moreover have "bs_pendingReInvite s' = None" using returnsD [OF session_run_ended assms(1)] by simp
  ultimately show ?thesis
    by (simp add: handleReInviteCommand_def hasPendingReInvite_def beginReInvite_def)
qed

subsection \<open>A call that is answered\<close>

text \<open>Goroutines are scheduled at once: the actor starts, takes each command and its reply is received.\<close>

definition prompt :: "('s, 'b, 'm, 'o, 'c) b2b_env \<Rightarrow> bool" where
  "prompt en \<longleftrightarrow> (\<forall>acts. be_dispatch en acts =
     \<lparr>dp_before = (if acts = [] then [ActorStart context_Background] else []), dp_send = SendAccepted,
      dp_sendCtx = context_Background, dp_between = [ActorArm (ArmCommand context_Background)],
      dp_wait = WaitReply, dp_waitCtx = context_Background\<rparr>)"

text \<open>The actor waits for a command in the state \<open>st\<close>, its queue has room for \<open>n\<close> events.\<close>

definition ready :: "nat \<Rightarrow> state \<Rightarrow> ((event chan, event, 'w) bus_history, 'm, 'o, 'c) b2b_session \<Rightarrow> bool" where
  "ready n st s \<longleftrightarrow>
     actor_phase (bs_actor s) = Running \<and> call_State (actor_call (bs_actor s)) = st \<and>
     ch_buf (actor_mailbox (bs_actor s)) = [] \<and> 0 < ch_cap (actor_mailbox (bs_actor s)) \<and>
     (\<forall>x \<in> set (actor_replies (bs_actor s)). fst x < length (bs_log s)) \<and>
     CallBus_Depth (bh_bus (bs_bus s)) + n \<le> ch_cap (bh_bus (bs_bus s))"

lemma map_of_fresh: "(\<And>x. x \<in> set xs \<Longrightarrow> fst x < k) \<Longrightarrow> map_of xs k = (None :: 'v option)" for k :: nat
  by (induction xs) force+

text \<open>A command taken from the empty mailbox of a waiting actor, and its reply.\<close>

lemma actor_command:
  fixes s :: "((event chan, event, 'w) bus_history, 'm, 'o, 'c) b2b_session"
  assumes "ready (Suc n) st s" and "tr_State t = st \<or> allowedTransition st (tr_State t)" and "\<not> isTerminal (tr_State t)"
    and "d = \<lparr>dp_before = [], dp_send = SendAccepted, dp_sendCtx = c1, dp_between = [ActorArm (ArmCommand context_Background)],
      dp_wait = WaitReply, dp_waitCtx = c2\<rparr>"
  shows "\<exists>a b. actor_Transition (history_publish CallBus_Publish) d \<lparr>cmd_transition = t, cmd_ticket = length (bs_log s)\<rparr>
      (bs_actor s) (bs_bus s) = Some (a, b, None) \<and>
    ready n (tr_State t) (act x (s\<lparr>bs_actor := a, bs_bus := b\<rparr>))"
proof -
  let ?a = "bs_actor s" and ?h = "bs_bus s"
  have r: "actor_phase ?a = Running" "call_State (actor_call ?a) = st" "ch_buf (actor_mailbox ?a) = []"
    "0 < ch_cap (actor_mailbox ?a)" "CallBus_Depth (bh_bus ?h) < ch_cap (bh_bus ?h)"
    and tickets: "\<And>x. x \<in> set (actor_replies ?a) \<Longrightarrow> fst x < length (bs_log s)"
    using assms(1) by (auto simp: ready_def)
  have fresh: "map_of (actor_replies ?a) (length (bs_log s)) = (None :: go_error option option)"
    by (rule map_of_fresh) (rule tickets)
  show ?thesis
  proof (cases "tr_State t = st")
    case True
    then show ?thesis
      using r tickets fresh assms(1,3)
      by (auto simp: actor_Transition_def assms(4) chan_send_def chan_recv_def actor_receive_def actor_apply_def
          ready_def Let_def map_add_def less_Suc_eq)
  next
    case False
    then have allowed: "allowedTransition st (tr_State t)" using assms(2) by simp
    have applied: "actor_apply (history_publish CallBus_Publish) context_Background t ?a ?h =
        Some (storeSnapshot (entered t ?a), ?h\<lparr>bh_bus := (bh_bus ?h)\<lparr>ch_buf := ch_buf (bh_bus ?h) @ [transition_event t ?a]\<rparr>,
          bh_sent := bh_sent ?h @ [transition_event t ?a]\<rparr>, None)"
      by (rule apply_accepted) (use r allowed in \<open>auto simp: context_Background_def\<close>)
    have mail: "?a\<lparr>actor_mailbox := (actor_mailbox ?a)\<lparr>ch_buf := []\<rparr>\<rparr> = ?a" using r(3) by (cases ?a) (simp)
    show ?thesis
      using r tickets fresh assms(1,3)
      by (auto simp: actor_Transition_def assms(4) chan_send_def chan_recv_def actor_receive_def applied mail
          ready_def Let_def map_add_def less_Suc_eq storeSnapshot_def entered_def CallBus_Depth_def)
  qed
qed

lemma prompt_transition:
  fixes s :: "((event chan, event, 'w) bus_history, 'm, 'o, 'c) b2b_session"
  assumes "prompt en" and "be_publisher en = history_publish CallBus_Publish" and "bs_log s \<noteq> []"
    and "ready (Suc n) st s" and "st' = st \<or> allowedTransition st st'" and "\<not> isTerminal st'"
  obtains a b where "session_transition en st' l pe reason s =
      Some (act (Transitioned st' None) (s\<lparr>bs_actor := a, bs_bus := b\<rparr>), None)"
    "ready n st' (act (Transitioned st' None) (s\<lparr>bs_actor := a, bs_bus := b\<rparr>))"
proof -
  let ?t = "\<lparr>tr_State = st', tr_LegID = l, tr_Reason = reason, tr_ProtocolEvent = pe\<rparr>"
  have "be_dispatch en (bs_log s) = \<lparr>dp_before = [], dp_send = SendAccepted, dp_sendCtx = context_Background,
      dp_between = [ActorArm (ArmCommand context_Background)], dp_wait = WaitReply, dp_waitCtx = context_Background\<rparr>"
    using assms(1,3) by (simp add: prompt_def)
  from actor_command [OF assms(4) _ _ this, where t = ?t and x = "Transitioned st' None"] assms(5,6)
  obtain a b where run: "actor_Transition (history_publish CallBus_Publish) (be_dispatch en (bs_log s))
      \<lparr>cmd_transition = ?t, cmd_ticket = length (bs_log s)\<rparr> (bs_actor s) (bs_bus s) = Some (a, b, None)"
    "ready n st' (act (Transitioned st' None) (s\<lparr>bs_actor := a, bs_bus := b\<rparr>))" by auto
  show ?thesis by (rule that [OF _ run(2)]) (simp add: session_transition_def assms(2) run(1))
qed

lemma fresh_start:
  assumes "NewActor cap cl pb clk = Inr a" and "CallBus_Depth (bh_bus h) < ch_cap (bh_bus h)"
  shows "\<exists>a' h'. actor_start (history_publish CallBus_Publish) context_Background a h = Some (a', h') \<and>
    actor_phase a' = Running \<and> actor_call a' = cl \<and> actor_replies a' = [] \<and>
    ch_buf (actor_mailbox a') = [] \<and> 0 < ch_cap (actor_mailbox a') \<and>
    CallBus_Depth (bh_bus h') = Suc (CallBus_Depth (bh_bus h)) \<and> ch_cap (bh_bus h') = ch_cap (bh_bus h)"
  using assms
  by (auto simp: NewActor_def actor_start_def actor_publish_def clock_Now_def storeSnapshot_def history_publish_def
      CallBus_Publish_def CallBus_Depth_def select_send_Background context_Background_def Let_def
      split: if_splits option.splits)

lemma NewActor_Stopped: "NewActor cap cl pb clk = Inr a \<Longrightarrow> actor_phase a = Stopped"
  by (auto simp: NewActor_def storeSnapshot_def split: if_splits option.splits)

lemma actor_Transition_start:
  "actor_phase a = Stopped \<Longrightarrow> actor_start pub c a b = Some (a1, b1) \<Longrightarrow>
     actor_Transition pub (d\<lparr>dp_before := [ActorStart c]\<rparr>) cmd a b = actor_Transition pub (d\<lparr>dp_before := []\<rparr>) cmd a1 b1"
  by (simp add: actor_Transition_def cong: if_cong)

lemma routing_transition:
  fixes s :: "((event chan, event, 'w) bus_history, 'm, 'o, 'c) b2b_session"
  assumes "prompt en" and "be_publisher en = history_publish CallBus_Publish" and "bs_log s = []"
    and "NewActor cap cl pb clk = Inr (bs_actor s)" and "call_State cl = StateNew"
    and "CallBus_Depth (bh_bus (bs_bus s)) + Suc (Suc n) \<le> ch_cap (bh_bus (bs_bus s))"
  obtains a b where "session_transition en StateRouting l pe reason s =
      Some (act (Transitioned StateRouting None) (s\<lparr>bs_actor := a, bs_bus := b\<rparr>), None)"
    "ready n StateRouting (act (Transitioned StateRouting None) (s\<lparr>bs_actor := a, bs_bus := b\<rparr>))"
proof -
  let ?t = "\<lparr>tr_State = StateRouting, tr_LegID = l, tr_Reason = reason, tr_ProtocolEvent = pe\<rparr>"
  let ?d = "\<lparr>dp_before = [], dp_send = SendAccepted, dp_sendCtx = context_Background,
      dp_between = [ActorArm (ArmCommand context_Background)], dp_wait = WaitReply, dp_waitCtx = context_Background\<rparr>"
  obtain a1 h1 where start: "actor_start (history_publish CallBus_Publish) context_Background (bs_actor s) (bs_bus s) = Some (a1, h1)"
    and r1: "ready (Suc n) StateNew (s\<lparr>bs_actor := a1, bs_bus := h1\<rparr>)"
    using fresh_start [OF assms(4), of "bs_bus s"] assms(5,6) by (auto simp: ready_def)
  from actor_command [OF r1 _ _ refl, where t = ?t and x = "Transitioned StateRouting None"
      and ?c1.0 = context_Background and ?c2.0 = context_Background]
  obtain a b where run: "actor_Transition (history_publish CallBus_Publish) ?d
      \<lparr>cmd_transition = ?t, cmd_ticket = length (bs_log s)\<rparr> a1 h1 = Some (a, b, None)"
    "ready n StateRouting (act (Transitioned StateRouting None) (s\<lparr>bs_actor := a, bs_bus := b\<rparr>))"
    by (auto simp: isTerminal_def)
  have "actor_phase (bs_actor s) = Stopped" by (rule NewActor_Stopped [OF assms(4)])
  then have "actor_Transition (history_publish CallBus_Publish) (be_dispatch en [])
      \<lparr>cmd_transition = ?t, cmd_ticket = 0\<rparr> (bs_actor s) (bs_bus s) = Some (a, b, None)"
    using actor_Transition_start [OF _ start, of ?d] run(1) assms(1,3) by (simp add: prompt_def)
  then have "session_transition en StateRouting l pe reason s =
      Some (act (Transitioned StateRouting None) (s\<lparr>bs_actor := a, bs_bus := b\<rparr>), None)"
    by (simp add: session_transition_def assms(2,3))
  then show ?thesis by (rule that [OF _ run(2)])
qed

lemma Negotiate_usable:
  assumes "ParseAudio p body = Inr offer" and "Negotiate offer answer = Inr m"
  shows "mp_Name m \<noteq> '''' \<and> mp_ClockRate m \<noteq> 0"
proof -
  obtain a x where x: "x \<in> set (ep_Codecs offer)" "common_codec a x" "m = negotiated offer answer a x"
    using negotiate_codecs_spec [where as = "ep_Codecs answer" and offer = offer and answer = answer] assms(2)
    by (auto simp: Negotiate_def chosen_def)
  have "cd_ClockRate x = clockRateG711"
    using ParseAudio_codecs(1) [OF assms(1)] x(1) by (auto simp: list_all_iff isSupported_def)
  then show ?thesis
    using x(2,3) by (auto simp: negotiated_def common_codec_def clockRateG711_def Let_def split: option.splits)
qed

text \<open>What the caller sees of the callee's ringing.\<close>

definition ringing_acts :: "sip_answer \<Rightarrow> dialog_act list" where
  "ringing_acts r = [Transitioned StateRinging None,
     Responded (response_with (rsp_StatusCode r) (rsp_Reason r) (rsp_Body r) (contentTypeHeaders r))]"

lemma ready_respond: "ready n st s \<Longrightarrow> ready n st (act x s)"
  by (auto simp: ready_def less_Suc_eq)

lemma ringing_relayed:
  fixes s :: "((event chan, event, 'w) bus_history, 'm, 'o, 'c) b2b_session"
  assumes "prompt en" and "be_publisher en = history_publish CallBus_Publish" and "\<And>acts r. be_Respond en acts r = None"
    and "list_all (\<lambda>r. rsp_StatusCode r = StatusRinging) rs"
    and "bs_log s \<noteq> []" and "ready (n + length rs) st s" and "st = StateRouting \<or> st = StateRinging"
  shows "\<exists>a b st'. on_responses en rs s =
      Some (s\<lparr>bs_actor := a, bs_bus := b, bs_log := bs_log s @ concat (map ringing_acts rs)\<rparr>, None) \<and>
    ready n st' (s\<lparr>bs_actor := a, bs_bus := b, bs_log := bs_log s @ concat (map ringing_acts rs)\<rparr>) \<and>
    (st' = StateRouting \<or> st' = StateRinging)"
  using assms(4-7)
proof (induction rs arbitrary: s st)
  case Nil
  then show ?case by (intro exI [of _ "bs_actor s"] exI [of _ "bs_bus s"] exI [of _ st]) simp
next
  case (Cons r rs)
  have code: "rsp_StatusCode r = 180" using Cons.prems(1) by (simp add: StatusRinging_def)
  have room: "ready (Suc (n + length rs)) st s" using Cons.prems(3) by simp
  obtain a1 b1 where t: "session_transition en StateRinging (call_CalleeLeg (bs_call s)) (Itoa 180) '''' s =
      Some (act (Transitioned StateRinging None) (s\<lparr>bs_actor := a1, bs_bus := b1\<rparr>), None)"
    and r1: "ready (n + length rs) StateRinging (act (Transitioned StateRinging None) (s\<lparr>bs_actor := a1, bs_bus := b1\<rparr>))"
    by (rule prompt_transition [OF assms(1,2) Cons.prems(2) room, of StateRinging]) (use Cons.prems(4) in \<open>auto simp: isTerminal_def\<close>)
  define s1 where "s1 = s\<lparr>bs_actor := a1, bs_bus := b1, bs_log := bs_log s @ ringing_acts r\<rparr>"
  have one: "on_response en r s = Some (s1, None)"
    by (simp add: on_response_def code t inbound_Respond_def assms(3) sip_status statusSessionProgress_def Let_def
        s1_def ringing_acts_def act_def)
  have "ready (n + length rs) StateRinging s1"
    using ready_respond [OF r1, of "Responded (response_with (rsp_StatusCode r) (rsp_Reason r) (rsp_Body r) (contentTypeHeaders r))"]
    by (simp add: s1_def act_def ringing_acts_def)
  moreover have "bs_log s1 \<noteq> []" by (simp add: s1_def ringing_acts_def)
  moreover have "list_all (\<lambda>r. rsp_StatusCode r = StatusRinging) rs" using Cons.prems(1) by simp
  ultimately obtain a b st' where
    "on_responses en rs s1 = Some (s1\<lparr>bs_actor := a, bs_bus := b, bs_log := bs_log s1 @ concat (map ringing_acts rs)\<rparr>, None)"
    "ready n st' (s1\<lparr>bs_actor := a, bs_bus := b, bs_log := bs_log s1 @ concat (map ringing_acts rs)\<rparr>)"
    "st' = StateRouting \<or> st' = StateRinging"
    using Cons.IH [of s1 StateRinging] by blast
  then show ?case by (intro exI [of _ a] exI [of _ b] exI [of _ st']) (simp add: one s1_def)
qed

lemma Configure_LocalEndpoint:
  "Configure o1 o2 mp m = (m', r) \<Longrightarrow> LocalEndpoint p m' leg = LocalEndpoint p m leg"
  by (auto simp: Configure_def LocalEndpoint_def session_endpoint_def endpoint_configure_def Let_def split: if_splits option.splits)

lemma applyMediaAnswer_ok:
  assumes "ParseAudio (be_pion en) body = Inr answer" and "Negotiate (bs_callerOffer s) answer = Inr mapping"
    and "mp_Name (bs_mediaMapping s) = '''' \<or> bs_mediaMapping s = mapping"
    and "mp_Name mapping \<noteq> '''' \<and> mp_ClockRate mapping \<noteq> 0"
    and "bs_media s = Some m" and "LocalEndpoint (bs_pool s) m CallerLeg = Inr (rtp, rtcp)"
    and "\<And>now. BuildAudio (be_pion en) now rtp rtcp (CodecListForAnswer mapping) (ep_Direction answer) = Inr sdp"
  shows "\<exists>m'. applyMediaAnswer en body s = (startMedia (s\<lparr>bs_media := Some m', bs_mediaMapping := mapping, bs_callerAnswer := sdp\<rparr>), Inr sdp)
    \<and> ms_mapping m' = Some mapping \<and> (\<forall>leg. LocalEndpoint (bs_pool s) m' leg = LocalEndpoint (bs_pool s) m leg)"
proof -
  obtain m' where m': "Configure (bs_callerOffer s) answer mapping m = (m', None)" "ms_mapping m' = Some mapping"
    using assms(4) by (simp add: Configure_def)
  show ?thesis
    using assms m' Configure_LocalEndpoint [OF m'(1), of "bs_pool s"]
    by (intro exI [of _ m']) (auto simp: applyMediaAnswer_def Let_def)
qed

lemma connect_ok:
  fixes s :: "((event chan, event, 'w) bus_history, 'm, 'o, 'c) b2b_session"
  assumes "prompt en" and "be_publisher en = history_publish CallBus_Publish"
    and "\<And>acts r. be_Respond en acts r = None" and "\<And>acts. be_Ack en acts = None"
    and "bs_callerAnswer s \<noteq> []" and "bs_outbound s = Some d" and "ready (Suc n) st s" and "st = StateRouting \<or> st = StateRinging"
  shows "\<exists>a b. let s' = s\<lparr>bs_actor := a, bs_bus := b, bs_log := bs_log s @ [Acked, OutboundStored (od_ID d),
      Transitioned StateAnswered None, Responded (response_with StatusOK ''OK'' (bs_callerAnswer s) [sdp_type])]\<rparr>
    in run_connect en arms s = established en arms s' \<and> ready n StateAnswered s'"
proof -
  let ?s = "act (OutboundStored (od_ID d)) (act Acked s)"
  have r: "ready (Suc n) st ?s" using assms(7) by (simp add: ready_respond)
  obtain a b where t: "session_transition en StateAnswered (call_CalleeLeg (bs_call s)) ''200'' '''' ?s =
      Some (act (Transitioned StateAnswered None) (?s\<lparr>bs_actor := a, bs_bus := b\<rparr>), None)"
    "ready n StateAnswered (act (Transitioned StateAnswered None) (?s\<lparr>bs_actor := a, bs_bus := b\<rparr>))"
    by (rule prompt_transition [OF assms(1,2) _ r, of StateAnswered]) (use assms(8) in \<open>auto simp: isTerminal_def\<close>)
  have "run_connect en arms s = established en arms (s\<lparr>bs_actor := a, bs_bus := b, bs_log := bs_log s @ [Acked, OutboundStored (od_ID d),
      Transitioned StateAnswered None, Responded (response_with StatusOK ''OK'' (bs_callerAnswer s) [sdp_type])]\<rparr>)"
    by (simp add: run_connect_def assms(3-6) t(1) inbound_Respond_def) (simp add: act_def)
  then show ?thesis
    using ready_respond [OF t(2), of "Responded (response_with StatusOK ''OK'' (bs_callerAnswer s) [sdp_type])"]
    by (intro exI [of _ a] exI [of _ b]) (simp add: act_def)
qed

text \<open>The INVITE for a binding, with the caller's identity under a new tag.\<close>

definition invite_for :: "('s, 'b, 'm, 'o, 'c) b2b_env \<Rightarrow> sip_request \<Rightarrow> binding \<Rightarrow> sip_uri \<Rightarrow> string \<Rightarrow> out_request" where
  "invite_for en request bi recipient sdp =
     (NewRequest ''INVITE'' recipient)
       \<lparr>oq_Transport := bi_Transport bi, oq_Destination := bi_RouteTarget bi, oq_Body := sdp,
        oq_From := map_option (\<lambda>h. h\<lparr>ah_Params := (ah_Params h)(''tag'' \<mapsto> be_tag en)\<rparr>) (req_From request),
        oq_Headers := [sdp_type]\<rparr>"

definition connected_log ::
  "out_request \<Rightarrow> sip_answer list \<Rightarrow> string \<Rightarrow> string \<Rightarrow> dialog_act list" where
  "connected_log invite rs ident sdp =
     [Transitioned StateRouting None, Responded (NewResponse StatusTrying ''Trying'' []), Invited invite, Awaited] @
     concat (map ringing_acts rs) @
     [Acked, OutboundStored ident, Transitioned StateAnswered None, Responded (response_with StatusOK ''OK'' sdp [sdp_type])]"

lemma call_connected:
  fixes s :: "((event chan, event, 'w) bus_history, 'm, 'o, 'c) b2b_session"
  assumes "prompt en" and "be_publisher en = history_publish CallBus_Publish"
    and "\<And>acts r. be_Respond en acts r = None" and "\<And>acts. be_Ack en acts = None"
    and "bs_log s = []" and "NewActor cap cl pb clk = Inr (bs_actor s)" and "call_State cl = StateNew"
    and "CallBus_Depth (bh_bus (bs_bus s)) + length rs + 3 + n \<le> ch_cap (bh_bus (bs_bus s))"
    and "\<And>acts. manager_Resolve (be_store en) (be_ctx en acts) (be_now en acts) (bc_TenantID (be_cfg en))
          (aor_of en (req_To (bs_invite s))) (be_registrations en acts) = Inr bi"
    and "ParseAudio (be_pion en) (req_Body (bs_invite s)) = Inr offer"
    and "\<And>meta. factory_New (be_udp en) (be_mediaCfg en) (be_acquire en CallerLeg) (be_acquire en CalleeLeg)
          (be_random en CallerLeg) (be_random en CalleeLeg) (be_uuid en) meta (bs_pool s) (bs_os s) = Some (p, os, Inr (m meta))"
    and "\<And>meta. LocalEndpoint p (m meta) CallerLeg = Inr (rtp1, rtcp1)" and "\<And>meta. LocalEndpoint p (m meta) CalleeLeg = Inr (rtp2, rtcp2)"
    and "\<And>now. BuildAudio (be_pion en) now rtp2 rtcp2 (CodecListForOffer offer) (ep_Direction offer) = Inr sdp"
    and "ParseUri (be_sip en) (bi_Contact bi) = Inr recipient" and "\<And>acts r. be_WriteInvite en acts r = Inr ident"
    and "be_WaitAnswer en = (rs, WaitAnswered response)" and "list_all (\<lambda>r. rsp_StatusCode r = StatusRinging) rs"
    and "rsp_Body response \<noteq> []" and "ParseAudio (be_pion en) (rsp_Body response) = Inr answer"
    and "Negotiate offer answer = Inr mapping" and "mp_Name (bs_mediaMapping s) = ''''"
    and "\<And>now. BuildAudio (be_pion en) now rtp1 rtcp1 (CodecListForAnswer mapping) (ep_Direction answer) = Inr sdp'"
    and "sdp' \<noteq> []"
  shows "\<exists>s' m'. run_body en arms s = established en arms s' \<and>
    bs_log s' = connected_log (invite_for en (bs_invite s) bi recipient sdp) rs ident sdp' \<and>
    call_State (actor_call (bs_actor s')) = StateAnswered \<and> ready n StateAnswered s' \<and> bs_callerAnswer s' = sdp' \<and>
    bs_media s' = Some m' \<and> ms_mapping m' = Some mapping \<and> bs_mediaResult s' \<and>
    bs_pool s' = p \<and> bs_outbound s' \<noteq> None \<and> bs_mediaMapping s' = mapping \<and> bs_pendingReInvite s' = bs_pendingReInvite s \<and>
    LocalEndpoint p m' CallerLeg = Inr (rtp1, rtcp1) \<and> LocalEndpoint p m' CalleeLeg = Inr (rtp2, rtcp2)"
proof -
  have room: "CallBus_Depth (bh_bus (bs_bus s)) + Suc (Suc (Suc (n + length rs))) \<le> ch_cap (bh_bus (bs_bus s))"
    using assms(8) by simp
  obtain a1 b1 where routing: "session_transition en StateRouting (call_CallerLeg (bs_call s)) ''INVITE'' '''' s =
      Some (act (Transitioned StateRouting None) (s\<lparr>bs_actor := a1, bs_bus := b1\<rparr>), None)"
    "ready (Suc (n + length rs)) StateRouting (act (Transitioned StateRouting None) (s\<lparr>bs_actor := a1, bs_bus := b1\<rparr>))"
    by (rule routing_transition [OF assms(1,2,5,6,7) room])
  let ?meta = "NewMetadata (call_TenantID (bs_call s)) (call_ID (bs_call s)) (call_NodeID (bs_call s))
     (call_CallerLeg (bs_call s)) (call_CalleeLeg (bs_call s))"
  let ?inv = "invite_for en (bs_invite s) bi recipient sdp"
  define s0 where "s0 = s\<lparr>bs_actor := a1, bs_bus := b1, bs_callerOffer := offer, bs_pool := p, bs_os := os,
     bs_media := Some (m ?meta),
     bs_log := [Transitioned StateRouting None, Responded (NewResponse StatusTrying ''Trying'' []), Invited ?inv],
     bs_outbound := Some \<lparr>od_ID = ident, od_InviteRequest = ?inv, od_InviteResponse = None\<rparr>\<rparr>"
  define s1 where "s1 = act Awaited s0"
  have wait: "run_body en arms s = run_wait en arms s0"
    by (simp add: run_body_def routing(1) inbound_Respond_def assms(3,5,9-16) run_media_def run_invite_def createOutbound_def
        s0_def act_def invite_for_def Let_def)
  have r1: "ready (Suc n + length rs) StateRouting s1"
    using routing(2) assms(5) by (auto simp: s1_def s0_def ready_def)
  have log1: "bs_log s1 \<noteq> []" by (simp add: s1_def)
  obtain a2 b2 st2 where ring: "on_responses en rs s1 =
        Some (s1\<lparr>bs_actor := a2, bs_bus := b2, bs_log := bs_log s1 @ concat (map ringing_acts rs)\<rparr>, None)"
    and r2: "ready (Suc n) st2 (s1\<lparr>bs_actor := a2, bs_bus := b2, bs_log := bs_log s1 @ concat (map ringing_acts rs)\<rparr>)"
      "st2 = StateRouting \<or> st2 = StateRinging"
    using ringing_relayed [OF assms(1-3,18) log1 r1] by blast
  define s2 where "s2 = s1\<lparr>bs_actor := a2, bs_bus := b2, bs_log := bs_log s1 @ concat (map ringing_acts rs)\<rparr>"
  have usable: "mp_Name mapping \<noteq> '''' \<and> mp_ClockRate mapping \<noteq> 0" by (rule Negotiate_usable [OF assms(10,21)])
  define s3 where "s3 = s2\<lparr>bs_outbound := map_option (\<lambda>d. d\<lparr>od_InviteResponse := Some response\<rparr>) (bs_outbound s2)\<rparr>"
  obtain m' where app: "applyMediaAnswer en (rsp_Body response) s3 =
      (startMedia (s3\<lparr>bs_media := Some m', bs_mediaMapping := mapping, bs_callerAnswer := sdp'\<rparr>), Inr sdp')"
    "ms_mapping m' = Some mapping" "\<forall>leg. LocalEndpoint p m' leg = LocalEndpoint p (m ?meta) leg"
    using applyMediaAnswer_ok [OF assms(20) _ _ usable, of s3 "m ?meta" rtp1 rtcp1 sdp'] assms(12,21,22,23)
    by (auto simp: s3_def s2_def s1_def s0_def)
  define s4 where "s4 = startMedia (s3\<lparr>bs_media := Some m', bs_mediaMapping := mapping, bs_callerAnswer := sdp'\<rparr>)"
  have r4: "ready (Suc n) st2 s4" using r2(1) by (auto simp: s4_def s3_def s2_def ready_def startMedia_def)
  have s4: "bs_callerAnswer s4 \<noteq> []" "bs_media s4 = Some m'" "bs_mediaResult s4" "bs_callerAnswer s4 = sdp'"
    "bs_outbound s4 = Some \<lparr>od_ID = ident, od_InviteRequest = ?inv, od_InviteResponse = Some response\<rparr>"
    "bs_pool s4 = p" "bs_mediaMapping s4 = mapping" "bs_pendingReInvite s4 = bs_pendingReInvite s"
    "bs_log s4 @ [Acked, OutboundStored ident, Transitioned StateAnswered None, Responded (response_with StatusOK ''OK'' sdp' [sdp_type])]
      = connected_log ?inv rs ident sdp'"
    using assms(24) by (simp_all add: s4_def s3_def s2_def s1_def s0_def connected_log_def startMedia_def)
  have "run_body en arms s = run_answered en arms response s2"
    by (simp add: wait run_wait_def ring s1_def [symmetric] s2_def assms(17))
  also have "\<dots> = run_connect en arms s4"
    by (simp add: run_answered_def assms(19) s3_def [symmetric] app(1) s4_def)
  finally have run: "run_body en arms s = run_connect en arms s4" .
  obtain a b where "run_connect en arms s4 = established en arms (s4\<lparr>bs_actor := a, bs_bus := b, bs_log := connected_log ?inv rs ident sdp'\<rparr>)"
    and "ready n StateAnswered (s4\<lparr>bs_actor := a, bs_bus := b, bs_log := connected_log ?inv rs ident sdp'\<rparr>)"
    using connect_ok [OF assms(1-4) s4(1,5) r4 r2(2), of arms] s4(4,9) by (auto simp: Let_def)
  with run show ?thesis
    using s4(2-8) app(2,3) assms(12,13)
    by (intro exI [of _ "s4\<lparr>bs_actor := a, bs_bus := b, bs_log := connected_log ?inv rs ident sdp'\<rparr>"] exI [of _ m'])
      (simp add: ready_def)
qed

lemma call_connected_media:
  "\<exists>s' m'. A s' \<and> B s' \<and> C s' \<and> D s' \<and> E s' \<and> F s' m' \<and> G m' \<and> H s' \<and> rest s' m' \<Longrightarrow>
     \<exists>s' m'. A s' \<and> B s' \<and> C s' \<and> D s' \<and> E s' \<and> F s' m' \<and> G m' \<and> H s'"
  by blast


subsection \<open>A concrete call\<close>

lemma prompt_terminal:
  fixes s :: "((event chan, event, 'w) bus_history, 'm, 'o, 'c) b2b_session"
  assumes "prompt en" and "be_publisher en = history_publish CallBus_Publish" and "bs_log s \<noteq> []"
    and "ready (Suc n) st s" and "allowedTransition st st'" and "isTerminal st'"
  obtains a b where "session_transition en st' l pe reason s =
      Some (act (Transitioned st' None) (s\<lparr>bs_actor := a, bs_bus := b\<rparr>), None)" "actor_done a"
proof -
  let ?a = "bs_actor s" and ?h = "bs_bus s"
  let ?t = "\<lparr>tr_State = st', tr_LegID = l, tr_Reason = reason, tr_ProtocolEvent = pe\<rparr>"
  have r: "actor_phase ?a = Running" "call_State (actor_call ?a) = st" "ch_buf (actor_mailbox ?a) = []"
    "0 < ch_cap (actor_mailbox ?a)" "CallBus_Depth (bh_bus ?h) < ch_cap (bh_bus ?h)"
    and tickets: "\<And>x. x \<in> set (actor_replies ?a) \<Longrightarrow> fst x < length (bs_log s)"
    using assms(4) by (auto simp: ready_def)
  have fresh: "map_of (actor_replies ?a) (length (bs_log s)) = (None :: go_error option option)"
    by (rule map_of_fresh) (rule tickets)
  have applied: "actor_apply (history_publish CallBus_Publish) context_Background ?t ?a ?h =
      Some (storeSnapshot (entered ?t ?a), ?h\<lparr>bh_bus := (bh_bus ?h)\<lparr>ch_buf := ch_buf (bh_bus ?h) @ [transition_event ?t ?a]\<rparr>,
        bh_sent := bh_sent ?h @ [transition_event ?t ?a]\<rparr>, None)"
    by (rule apply_accepted) (use r assms(5) in \<open>auto simp: context_Background_def\<close>)
  have mail: "?a\<lparr>actor_mailbox := (actor_mailbox ?a)\<lparr>ch_buf := []\<rparr>\<rparr> = ?a" using r(3) by (cases ?a) (simp)
  show ?thesis
    using assms(1,3,6) r fresh
    by (intro that [rotated])
      (auto simp: session_transition_def assms(2) prompt_def actor_Transition_def chan_send_def chan_recv_def
        actor_receive_def applied mail Let_def map_add_def storeSnapshot_def entered_def actor_done_def)
qed

text \<open>The two relays of a session as its workers, over what their sockets deliver.\<close>

definition relay_workers ::
  "'h rtp_pkg \<Rightarrow> relay_event list \<Rightarrow> relay_event list \<Rightarrow> media_session \<Rightarrow> 'c pool \<Rightarrow> 'o
     \<Rightarrow> media_session \<times> 'c pool \<times> 'o \<times> go_error option" where
  "relay_workers pkg evs evs' m p os =
     (let (caller, rw, _) = relay_state (forwardRTP pkg (ms_cfg m) (ms_startedAt m) p (ms_callee m) evs
            (ms_caller m, ms_callerToCallee m, []));
          (callee, rw', _) = relay_state (forwardRTP pkg (ms_cfg m) (ms_startedAt m) p (ms_caller m) evs'
            (ms_callee m, ms_calleeToCaller m, []))
      in (m\<lparr>ms_caller := caller, ms_callerToCallee := rw, ms_callee := callee, ms_calleeToCaller := rw'\<rparr>, p, os, None))"

lemma relay_packet_lease: "relay_packet pkg now dg a src d rw = (src', rw', out) \<Longrightarrow> pt_lease src' = pt_lease src"
proof -
  have acc: "pt_lease e' = pt_lease e" if "acceptsRTP a e = (e', ok)" for e e' ok
    using that by (auto simp: acceptsRTP_def Let_def split: option.splits if_splits)
  obtain e ok where e: "acceptsRTP a src = (e, ok)" by fastforce
  show "relay_packet pkg now dg a src d rw = (src', rw', out) \<Longrightarrow> pt_lease src' = pt_lease src"
    using acc [OF e]
    by (cases ok) (auto simp: relay_packet_def e invalid_packet_def Let_def split: option.splits sum.splits prod.splits if_splits)
qed

lemma relay_output_lease: "relay_output pkg d src out = (src', w) \<Longrightarrow> pt_lease src' = pt_lease src"
  by (auto simp: relay_output_def invalid_packet_def split: option.splits sum.splits)

lemma forward_turn_lease:
  "forward_turn pkg cfg t0 d t st = Inl (st', r) \<Longrightarrow> pt_lease (fst st') = pt_lease (fst st)"
  "forward_turn pkg cfg t0 d t st = Inr st' \<Longrightarrow> pt_lease (fst st') = pt_lease (fst st)"
  by (cases t; cases st; auto simp: updateTimeout_def Let_def dest!: relay_packet_lease relay_output_lease
      split: option.splits prod.splits if_splits)+

lemma forward_loop_lease: "pt_lease (fst (relay_state (forward_loop pkg cfg t0 evs st))) = pt_lease (fst st)"
proof (induction pkg cfg t0 evs st rule: forward_loop.induct)
  case (2 pkg cfg t0 d t ts st)
  then show ?case
    by (cases "forward_turn pkg cfg t0 d t st") (auto dest: forward_turn_lease)
qed (auto simp: endpoint_configure_def Let_def)

lemma relay_workers_quiet: "quiet_workers (relay_workers pkg evs evs')"
proof -
  have lease: "pt_lease e' = pt_lease e" if "relay_state (forwardRTP pkg cfg t0 p d es (e, rw, ws)) = (e', x)"
    for cfg t0 p d es e rw ws e' x
    using that forward_loop_lease [of pkg cfg t0 es "(e, rw, ws)"] by (auto simp: forwardRTP_def split: sum.splits)
  show ?thesis
    by (auto simp: quiet_workers_def relay_workers_def lease_view_def Let_def dest!: lease split: prod.splits)
qed

definition call_pion :: pion where
  "call_pion = (pion_for sample_session)\<lparr>pion_Unmarshal := \<lambda>_. Inr sample_session, pion_Marshal := \<lambda>_. Inr ''v=0''\<rparr>"

definition call_leg :: sdp_endpoint where
  "call_leg = \<lparr>ep_RTP = sample_rtp, ep_RTCP = sample_rtcp, ep_Direction = DirectionSendOnly, ep_Codecs = sample_codecs\<rparr>"

lemma call_parse: "ParseAudio call_pion body = Inr call_leg"
proof -
  have same: "pion_Attribute call_pion = pion_Attribute sample_pion"
    "pion_Unmarshal call_pion body = pion_Unmarshal sample_pion ''v=0''"
    by (simp_all add: call_pion_def sample_pion_def pion_for_def)
  have "rtcp_port call_pion = rtcp_port sample_pion" "mediaDirection call_pion = mediaDirection sample_pion"
    by (intro ext; simp add: rtcp_port_def mediaDirection_def same(1))+
  note eqs = this
  have "ParseAudio call_pion body = ParseAudio sample_pion ''v=0''" unfolding ParseAudio_def same(2) eqs ..
  also have "\<dots> = Inr call_leg"
    using built_parse [OF pion_for_attributes [of sample_session, folded sample_pion_def]
        pion_for_round_trip [of sample_session, folded sample_pion_def] sample_Build, of 3232235777]
    by (simp add: sample_rtp_def sample_rtcp_def sample_codecs_def isSupported_def clockRateG711_def call_leg_def
        known_direction_def direction_defs)
  finally show ?thesis .
qed

lemma call_build:
  "ap_IsValid rtp \<Longrightarrow> ap_IsValid rtcp \<Longrightarrow> ap_Addr rtp = ap_Addr rtcp \<Longrightarrow> hasAudioCodec cs \<Longrightarrow>
     BuildAudio call_pion now rtp rtcp cs dir = Inr ''v=0''"
  by (simp add: BuildAudio_def call_pion_def Let_def)

lemma call_acquire:
  "acquire_pool sample_udp (\<lambda>_. context_Background) (sample_pool ls (port # ports) n) os =
     Some (sample_pool (ls @ [sample_lease port os]) ports (n + 1), Suc (Suc os), Inr (length ls))"
  by (simp add: acquire_pool_def acquire_select_def chan_recv_def sample_pool_def sample_bind sample_lease_def
      context_Background_def numeral_2_eq_2 Let_def)

lemma call_media:
  "factory_New sample_udp relay_cfg (\<lambda>_. context_Background) (\<lambda>_. context_Background) (Inr (replicate 10 0))
     (Inr (replicate 10 0)) (Inr ''m'') meta (sample_pool [] [20000, 20002] 0) 0 =
     Some (sample_full, 4, Inr (new_session ''m'' meta relay_cfg 0 (Suc 0) relay_rw relay_rw))"
  by (simp add: factory_New_def call_acquire relay_rw_new sample_full_def numeral_2_eq_2)

definition call_ok :: sip_answer where
  "call_ok = \<lparr>rsp_StatusCode = 200, rsp_Reason = ''OK'', rsp_Body = ''v=0'', rsp_Headers = [], an_ContentType = None,
     an_GetHeaders = (\<lambda>_. [])\<rparr>"

definition call_ringing :: sip_answer where
  "call_ringing = call_ok\<lparr>rsp_StatusCode := 180, rsp_Reason := ''Ringing'', rsp_Body := []\<rparr>"

definition call_env :: "(memory, (event chan, event, nat) bus_history, unit, nat, nat) b2b_env" where
  "call_env =
     \<lparr>be_cfg = \<lparr>bc_TenantID = ''t'', bc_Realm = ''pbx'', bc_NodeID = ''n'', bc_MaxActiveCalls = 2, bc_MailboxSize = 4,
        bc_InviteTimeout = 30 * Second, bc_DispatchTimeout = Second\<rparr>,
      be_sip = \<lparr>uri_Addr = (\<lambda>u. uri_User u), ParseUri = (\<lambda>x. Inr (uri_zero\<lparr>uri_User := x\<rparr>)),
        DialogIDFromRequestUAS = (\<lambda>_. Inr ''in''), DialogIDFromRequestUAC = (\<lambda>_. Inr ''out'')\<rparr>,
      be_pion = call_pion, be_store = memory_store sample_picks, be_registrations = (\<lambda>_. sample_memory),
      be_publisher = history_publish CallBus_Publish, be_summaries = DiscardPublisher, be_udp = sample_udp,
      be_mediaCfg = relay_cfg, be_workers = relay_workers relay_pkg relay_events [], be_ctx = (\<lambda>_. context_Background),
      be_now = (\<lambda>_. 120), be_acquire = (\<lambda>_ _. context_Background), be_random = (\<lambda>_. Inr (replicate 10 0)),
      be_uuid = Inr ''m'', be_tag = ''tag'',
      be_dispatch = (\<lambda>acts. \<lparr>dp_before = (if acts = [] then [ActorStart context_Background] else []),
        dp_send = SendAccepted, dp_sendCtx = context_Background,
        dp_between = [ActorArm (ArmCommand context_Background)], dp_wait = WaitReply, dp_waitCtx = context_Background\<rparr>),
      be_finish = [], be_Respond = (\<lambda>_ _. None), be_WriteInvite = (\<lambda>_ _. Inr ''out''),
      be_WaitAnswer = ([call_ringing], WaitAnswered call_ok), be_Ack = (\<lambda>_. None), be_Do = (\<lambda>_ _. Inr call_ok),
      be_Acks = (\<lambda>_ _. False)\<rparr>"

definition call_header :: "string \<Rightarrow> address_header" where
  "call_header user = \<lparr>ah_Address = uri_zero\<lparr>uri_User := user\<rparr>, ah_Params = (\<lambda>_. None)\<rparr>"

definition call_invite :: sip_request where
  "call_invite = \<lparr>req_Method = ''INVITE'', req_Recipient = uri_zero, req_From = Some (call_header ''alice''),
     req_To = Some (call_header ''bob''), req_Contact = None, req_CSeq = 1, req_Body = ''v=0'', req_Source = ''h0:5060'',
     req_Transport = ''udp'', req_GetHeader = (\<lambda>_. None), req_GetHeaders = (\<lambda>_. [])\<rparr>"

definition call_session :: "((event chan, event, nat) bus_history, unit, nat, nat) b2b_session" where
  "call_session =
     start_session sample_call sample_actor call_invite (new_history (chan_make 8) 0) (sample_pool [] [20000, 20002] 0) 0 ()"

lemma call_resolve:
  "manager_Resolve (memory_store sample_picks) context_Background 120 ''t'' ''sip:bob@pbx'' sample_memory = Inr sample_binding"
  by (simp add: manager_Resolve_def manager_List_def memory_ListActive_def sample_memory_def sample_binding_def
      context_Background_def sample_picks_def of_aor_def active_def slices_SortFunc_def)

lemma call_negotiate: "\<exists>m. Negotiate call_leg call_leg = Inr m \<and> hasAudioCodec (CodecListForAnswer m)"
  by (simp add: Negotiate_def call_leg_def sample_codecs_def negotiated_def findCodec_def CodecListForAnswer_def
      hasAudioCodec_def)

definition call_mapping :: mapping where
  "call_mapping = (case Negotiate call_leg call_leg of Inr m \<Rightarrow> m | Inl _ \<Rightarrow> undefined)"

lemma call_mapping: "Negotiate call_leg call_leg = Inr call_mapping" "hasAudioCodec (CodecListForAnswer call_mapping)"
  using call_negotiate by (auto simp: call_mapping_def)

lemma call_advertised: "addr_IsValid (mc_AdvertisedIP relay_cfg)"
  by (simp add: relay_cfg_def)

lemma call_env_sel:
  "be_publisher call_env = history_publish CallBus_Publish" "be_Respond call_env acts r = None" "be_Ack call_env acts = None"
  "be_store call_env = memory_store sample_picks" "be_ctx call_env acts = context_Background" "be_now call_env acts = 120"
  "bc_TenantID (be_cfg call_env) = ''t''" "bc_Realm (be_cfg call_env) = ''pbx''" "be_registrations call_env acts = sample_memory"
  "be_pion call_env = call_pion" "be_udp call_env = sample_udp" "be_mediaCfg call_env = relay_cfg"
  "be_acquire call_env leg = (\<lambda>_. context_Background)" "be_random call_env leg = Inr (replicate 10 0)" "be_uuid call_env = Inr ''m''"
  "ParseUri (be_sip call_env) x = Inr (uri_zero\<lparr>uri_User := x\<rparr>)" "be_WriteInvite call_env acts q = Inr ''out''"
  "be_WaitAnswer call_env = ([call_ringing], WaitAnswered call_ok)" "be_workers call_env = relay_workers relay_pkg relay_events []"
  "be_summaries call_env = DiscardPublisher" "be_finish call_env = []"
  by (simp_all add: call_env_def)

lemma call_env_prompt: "prompt call_env"
  by (simp add: prompt_def call_env_def)

lemma call_endpoints:
  "LocalEndpoint sample_full (new_session ''m'' meta relay_cfg 0 (Suc 0) relay_rw relay_rw) CallerLeg =
     Inr (AddrPortFrom (mc_AdvertisedIP relay_cfg) 20000, AddrPortFrom (mc_AdvertisedIP relay_cfg) 20001)"
  "LocalEndpoint sample_full (new_session ''m'' meta relay_cfg 0 (Suc 0) relay_rw relay_rw) CalleeLeg =
     Inr (AddrPortFrom (mc_AdvertisedIP relay_cfg) 20002, AddrPortFrom (mc_AdvertisedIP relay_cfg) 20003)"
  by (simp_all add: LocalEndpoint_def session_endpoint_def CallerLeg_def CalleeLeg_def new_session_def newEndpoint_def
      sample_full_def sample_pool_def sample_lease_def new_lease_def lease_RTPPort_def lease_RTCPPort_def)

lemma call_builds:
  "hasAudioCodec cs \<Longrightarrow> BuildAudio call_pion now (AddrPortFrom (mc_AdvertisedIP relay_cfg) x) (AddrPortFrom (mc_AdvertisedIP relay_cfg) y) cs dir
     = Inr ''v=0''"
  by (rule call_build) (simp_all add: ap_IsValid_def call_advertised)

lemma call_session_sel:
  "bs_log call_session = []" "bs_actor call_session = sample_actor" "bs_bus call_session = new_history (chan_make 8) 0"
  "bs_invite call_session = call_invite" "bs_pool call_session = sample_pool [] [20000, 20002] 0" "bs_os call_session = 0"
  "mp_Name (bs_mediaMapping call_session) = ''''" "bs_media call_session = None" "bs_pendingReInvite call_session = None"
  "bs_outbound call_session = None"
  by (simp_all add: call_session_def start_session_def)

lemma call_aor: "aor_of call_env (req_To call_invite) = ''sip:bob@pbx''"
  by (simp add: aor_of_def call_env_sel call_invite_def call_header_def uri_zero_def)

lemma call_leg_audio: "hasAudioCodec (CodecListForOffer call_leg)"
  by (simp add: CodecListForOffer_def call_leg_def sample_codecs_def hasAudioCodec_def)

lemma call_room: "CallBus_Depth (bh_bus (bs_bus call_session)) + length [call_ringing] + 3 + 4 \<le> ch_cap (bh_bus (bs_bus call_session))"
  by (simp add: call_session_sel new_history_def CallBus_Depth_def)

lemmas call_setup =
  call_env_prompt call_env_sel call_session_sel call_aor call_resolve call_parse call_media call_endpoints call_mapping
  call_builds [OF call_leg_audio] call_builds [OF call_mapping(2)]

text \<open>The invitation to the binding of \<open>bob\<close>.\<close>

abbreviation call_request :: out_request where
  "call_request \<equiv> invite_for call_env call_invite sample_binding (uri_zero\<lparr>uri_User := bi_Contact sample_binding\<rparr>) ''v=0''"

abbreviation call_port :: "16 word \<Rightarrow> addr_port" where
  "call_port \<equiv> AddrPortFrom (mc_AdvertisedIP relay_cfg)"

abbreviation call_new_media :: "metadata \<Rightarrow> media_session" where
  "call_new_media \<equiv> \<lambda>meta. new_session ''m'' meta relay_cfg 0 (Suc 0) relay_rw relay_rw"

lemma call_up:
  "\<exists>s' m'. run_body call_env arms call_session = established call_env arms s' \<and>
    bs_log s' = connected_log call_request [call_ringing] ''out'' ''v=0'' \<and>
    call_State (actor_call (bs_actor s')) = StateAnswered \<and> ready 4 StateAnswered s' \<and> bs_callerAnswer s' = ''v=0'' \<and>
    bs_media s' = Some m' \<and> ms_mapping m' = Some call_mapping \<and> bs_mediaResult s' \<and>
    bs_pool s' = sample_full \<and> bs_outbound s' \<noteq> None \<and> bs_mediaMapping s' = call_mapping \<and>
    bs_pendingReInvite s' = bs_pendingReInvite call_session \<and>
    LocalEndpoint sample_full m' CallerLeg = Inr (call_port 20000, call_port 20001) \<and>
    LocalEndpoint sample_full m' CalleeLeg = Inr (call_port 20002, call_port 20003)"
  unfolding call_session_sel(4) [symmetric]
  by (rule call_connected [where m = call_new_media and offer = call_leg and answer = call_leg and response = call_ok
        and p = sample_full and os = 4 and bi = sample_binding and ?rtp1.0 = "call_port 20000" and ?rtcp1.0 = "call_port 20001" and ?rtp2.0 = "call_port 20002"
        and ?rtcp2.0 = "call_port 20003", OF call_env_prompt _ _ _ _ sample_NewActor [folded call_session_sel(2)]])
    (use call_room in \<open>simp_all add: call_setup sample_call_def call_ringing_def call_ok_def StatusRinging_def\<close>)

text \<open>The caller puts the call on hold, then hangs up.\<close>

definition call_hold :: session_command where
  "call_hold = \<lparr>sc_kind = commandReInvite, sc_origin = hangupCaller, sc_request = call_invite\<lparr>req_CSeq := 2\<rparr>,
     sc_transaction = 5, sc_result = Some 0\<rparr>"

definition call_bye :: session_command where
  "call_bye = \<lparr>sc_kind = commandHangup, sc_origin = hangupCaller, sc_request = call_invite\<lparr>req_CSeq := 3\<rparr>,
     sc_transaction = 6, sc_result = None\<rparr>"

lemma hangup_ends:
  fixes s :: "((event chan, event, 'w) bus_history, 'm, 'o, 'c) b2b_session"
  assumes "prompt en" and "be_publisher en = history_publish CallBus_Publish" and "bs_log s \<noteq> []"
    and "ready (Suc (Suc n)) st s" and "st = StateAnswered \<or> st = StateHeld"
  shows "\<exists>s' acts. handleHangup en hangupCaller s = Some s' \<and> actor_done (bs_actor s') \<and> bs_log s' = bs_log s @ acts \<and>
    bs_pendingReInvite s' = bs_pendingReInvite s"
proof -
  let ?leg = "call_CallerLeg (bs_call s)"
  obtain a b where t: "session_transition en StateTerminating ?leg ''BYE'' ''normal clearing'' s =
      Some (act (Transitioned StateTerminating None) (s\<lparr>bs_actor := a, bs_bus := b\<rparr>), None)"
    "ready (Suc n) StateTerminating (act (Transitioned StateTerminating None) (s\<lparr>bs_actor := a, bs_bus := b\<rparr>))"
    by (rule prompt_transition [OF assms(1-4), of StateTerminating]) (use assms(5) in \<open>auto simp: isTerminal_def\<close>)
  define s1 where "s1 = act (Transitioned StateTerminating None) (s\<lparr>bs_actor := a, bs_bus := b\<rparr>)"
  define s2 where "s2 = (if bs_outbound s1 \<noteq> None then act ByeToCallee s1 else s1)"
  have r2: "ready (Suc n) StateTerminating s2" "bs_log s2 \<noteq> []"
    using t(2) by (auto simp: s2_def s1_def [symmetric] ready_respond) (simp_all add: s1_def)
  obtain a' b' where "session_transition en StateTerminated ?leg ''200'' ''normal clearing'' s2 =
      Some (act (Transitioned StateTerminated None) (s2\<lparr>bs_actor := a', bs_bus := b'\<rparr>), None)" "actor_done a'"
    by (rule prompt_terminal [OF assms(1,2) r2(2,1), of StateTerminated]) (auto simp: isTerminal_def)
  then show ?thesis
    by (auto simp: handleHangup_def t(1) s1_def [symmetric] s2_def [symmetric] Let_def) (auto simp: s2_def s1_def)
qed

lemma call_held:
  assumes "bs_log s = connected_log call_request [call_ringing] ''out'' ''v=0''" and "ready 4 StateAnswered s"
    and "bs_media s = Some m" and "bs_pool s = sample_full" and "bs_outbound s \<noteq> None" and "bs_mediaMapping s = call_mapping"
    and "LocalEndpoint sample_full m CallerLeg = Inr (call_port 20000, call_port 20001)"
    and "LocalEndpoint sample_full m CalleeLeg = Inr (call_port 20002, call_port 20003)"
    and "bs_pendingReInvite s = None"
  shows "\<exists>s' acts. handleCommand call_env call_hold s = Some (s', False) \<and> ready 3 StateHeld s' \<and>
    bs_log s' = bs_log s @ acts \<and> ReInvitePending 5 2 \<in> set acts \<and> bs_pendingReInvite s' = Some 5"
proof -
  obtain d where d: "bs_outbound s = Some d" using assms(5) by blast
  let ?re = "(NewRequest ''INVITE'' (oq_Recipient (od_InviteRequest d)))\<lparr>oq_Body := ''v=0'', oq_Headers := [sdp_type]\<rparr>"
  define s1 where "s1 = (act Acked ((act (RelayedToCallee ?re) s)\<lparr>bs_outbound :=
    Some (d\<lparr>od_InviteRequest := ?re, od_InviteResponse := Some call_ok\<rparr>)\<rparr>))\<lparr>bs_callerOffer := call_leg\<rparr>"
  have ok: "rsp_StatusCode call_ok = 200" "rsp_Body call_ok = ''v=0''" "ep_Direction call_leg \<noteq> DirectionSendRecv"
    "sc_transaction call_hold = 5" "req_CSeq (sc_request call_hold) = 2"
    by (simp_all add: call_ok_def call_leg_def call_hold_def DirectionSendOnly_def DirectionSendRecv_def)
  have usable: "mp_Name call_mapping \<noteq> '''' \<and> mp_ClockRate call_mapping \<noteq> 0"
    by (rule Negotiate_usable [OF call_parse call_mapping(1)])
  obtain m' where app: "applyMediaAnswer call_env ''v=0'' s1 =
      (startMedia (s1\<lparr>bs_media := Some m', bs_mediaMapping := call_mapping, bs_callerAnswer := ''v=0''\<rparr>), Inr ''v=0'')"
    using applyMediaAnswer_ok [of call_env "''v=0''" call_leg s1 call_mapping m "call_port 20000" "call_port 20001" "''v=0''"]
      usable assms by (auto simp: s1_def call_setup)
  define s2 where "s2 = startMedia (s1\<lparr>bs_media := Some m', bs_mediaMapping := call_mapping, bs_callerAnswer := ''v=0''\<rparr>)"
  have s2: "ready (Suc 3) StateAnswered s2" "bs_log s2 = bs_log s @ [RelayedToCallee ?re, Acked]" "bs_log s2 \<noteq> []"
    using assms(2) by (auto simp: s2_def s1_def ready_def startMedia_def)
  obtain a b where t: "session_transition call_env StateHeld (call_CallerLeg (bs_call s2)) ''re-INVITE'' '''' s2 =
      Some (act (Transitioned StateHeld None) (s2\<lparr>bs_actor := a, bs_bus := b\<rparr>), None)"
    "ready 3 StateHeld (act (Transitioned StateHeld None) (s2\<lparr>bs_actor := a, bs_bus := b\<rparr>))"
    by (rule prompt_transition [OF call_env_prompt call_env_sel(1) s2(3,1), of StateHeld]) (auto simp: isTerminal_def)
  define s3 where "s3 = act (Transitioned StateHeld None) (s2\<lparr>bs_actor := a, bs_bus := b\<rparr>)"
  have answered: "reinvite_answered call_env call_hold call_leg ?re call_ok (act (RelayedToCallee ?re) s) =
      Some (tx_Respond call_hold (response_with StatusOK ''OK'' ''v=0'' [sdp_type]) (setPendingReInvite 5 2 s3))"
    by (simp add: reinvite_answered_def call_env_sel d Let_def ok app s1_def [symmetric] s2_def [symmetric] t(1) s3_def [symmetric])
  have "handleReInviteCommand call_env call_hold s =
      Some (tx_Respond call_hold (response_with StatusOK ''OK'' ''v=0'' [sdp_type]) (setPendingReInvite 5 2 s3))"
    unfolding answered [symmetric]
    using assms by (simp add: handleReInviteCommand_def hasPendingReInvite_def d call_setup call_env_def Let_def)
  then show ?thesis
    using t(2) s2(2)
    by (auto simp: handleCommand_def call_hold_def tx_Respond_def setPendingReInvite_def s3_def ready_def less_Suc_eq Let_def)
qed

lemma connected_log_pending: "pending_of None (connected_log call_request [call_ringing] ident sdp) = Some None"
  by (simp add: connected_log_def ringing_acts_def)

lemma call_body:
  "\<exists>s' acts. run_body call_env [LoopCommand call_hold, LoopCommand call_bye] call_session = Some s' \<and> actor_done (bs_actor s') \<and>
    bs_log s' = connected_log call_request [call_ringing] ''out'' ''v=0'' @ acts \<and> ReInvitePending 5 2 \<in> set acts"
proof -
  let ?arms = "[LoopCommand call_hold, LoopCommand call_bye]"
  obtain s m where up: "run_body call_env ?arms call_session = established call_env ?arms s"
    "bs_log s = connected_log call_request [call_ringing] ''out'' ''v=0''" "ready 4 StateAnswered s" "bs_media s = Some m"
    "bs_pool s = sample_full" "bs_outbound s \<noteq> None" "bs_mediaMapping s = call_mapping" "bs_pendingReInvite s = None"
    "LocalEndpoint sample_full m CallerLeg = Inr (call_port 20000, call_port 20001)"
    "LocalEndpoint sample_full m CalleeLeg = Inr (call_port 20002, call_port 20003)"
    using call_up [of ?arms] by (auto simp: call_session_sel)
  obtain s1 acts where held: "handleCommand call_env call_hold s = Some (s1, False)" "ready 3 StateHeld s1"
    "bs_log s1 = bs_log s @ acts" "ReInvitePending 5 2 \<in> set acts"
    using call_held [OF up(2-7,9,10,8)] by blast
  have "\<exists>s' acts. handleHangup call_env hangupCaller s1 = Some s' \<and> actor_done (bs_actor s') \<and> bs_log s' = bs_log s1 @ acts \<and>
      bs_pendingReInvite s' = bs_pendingReInvite s1"
    by (rule hangup_ends [OF call_env_prompt call_env_sel(1), where n = 1 and st = StateHeld])
      (use held(2-4) in \<open>auto simp: numeral_3_eq_3\<close>)
  then obtain s2 acts' where bye: "handleHangup call_env hangupCaller s1 = Some s2" "actor_done (bs_actor s2)"
    "bs_log s2 = bs_log s1 @ acts'" by blast
  then have "handleCommand call_env call_bye s1 = Some (s2, True)" by (simp add: handleCommand_def call_bye_def)
  then show ?thesis
    using up(2) held(3,4) bye(2,3)
    by (intro exI [of _ s2] exI [of _ "acts @ acts'"]) (simp add: up(1) held(1))
qed

lemma call_pool_inv: "pool_inv (pool_ports sample_cfg) ([], bs_pool call_session, bs_os call_session)"
  by (rule pool_reached [OF sample_pool_New, of sample_udp 0]) (simp add: call_session_sel)

lemma call_run:
  "\<exists>s'. session_run call_env [LoopCommand call_hold, LoopCommand call_bye] call_session = Some s' \<and>
    ReInvitePending 5 2 \<in> set (bs_log s') \<and> Responded (response_with StatusOK ''OK'' ''v=0'' [sdp_type]) \<in> set (bs_log s')"
proof -
  let ?arms = "[LoopCommand call_hold, LoopCommand call_bye]"
  obtain s1 acts where body: "run_body call_env ?arms call_session = Some s1" "actor_done (bs_actor s1)"
    "bs_log s1 = connected_log call_request [call_ringing] ''out'' ''v=0'' @ acts" "ReInvitePending 5 2 \<in> set acts"
    using call_body by blast
  have quiet: "quiet_workers (be_workers call_env)" by (simp add: call_env_sel relay_workers_quiet)
  have "ports_inv (pool_ports sample_cfg) (open_leases (bs_pool call_session)) call_session"
    using call_pool_inv by (simp add: ports_inv_def holds_ports_def call_session_sel(8))
  then have "ports_inv (pool_ports sample_cfg) (open_leases (bs_pool call_session)) s1"
    using returnsD [OF run_ports.body_I [where en = call_env and s = call_session] body(1)] quiet
    by (simp add: call_session_sel(8,10))
  then have "ports_inv (pool_ports sample_cfg) (open_leases (bs_pool call_session)) (completePendingReInvite s1)"
    by (simp add: ports_inv_def completePendingReInvite_def clear_pending_def split: option.splits)
  then obtain s3 where stop: "stopMedia call_env (completePendingReInvite s1) = Some s3"
    using stopMedia_returns [OF quiet, of "pool_ports sample_cfg" "open_leases (bs_pool call_session)"]
    by (auto simp: call_env_sel(20) DiscardPublisher_def)
  have await: "await_actor call_env s1 = Some s1"
    using body(2) by (simp add: await_actor_def call_env_sel)
  have "session_run call_env ?arms call_session = Some (act InboundClosed s3)"
    by (simp add: session_run_def body(1) await stop)
  then show ?thesis
    using returnsD [OF stopMedia_log stop] body(3,4)
    by (auto simp: completePendingReInvite_log connected_log_def)
qed

lemma call_others: "\<not> others_step call_env h h'"
  by (auto simp: others_step_def call_env_def)


theorem run_protocol_witness:
  "\<exists>s' ph. session_run call_env [LoopCommand call_hold, LoopCommand call_bye] call_session = Some s' \<and>
    leg_run Offered (bs_log s') = Some ph \<and> length (final_responses (bs_log s')) \<le> 1 \<and>
    subseq [Acked, Transitioned StateAnswered None, Responded (response_with StatusOK ''OK'' ''v=0'' [sdp_type])] (bs_log s')"
proof -
  obtain s' where run: "session_run call_env [LoopCommand call_hold, LoopCommand call_bye] call_session = Some s'"
    "Responded (response_with StatusOK ''OK'' ''v=0'' [sdp_type]) \<in> set (bs_log s')"
    using call_run by blast
  have "refusals (snd (be_WaitAnswer call_env))" by (simp add: call_env_sel refusals_def)
  from run_protocol [OF run(1) call_session_sel(1) this] run show ?thesis
    by (auto simp: response_with_def NewResponse_def StatusOK_def)
qed

theorem reinvite_exclusive_witness:
  "\<exists>s'. session_run call_env [LoopCommand call_hold, LoopCommand call_bye] call_session = Some s' \<and>
    ReInvitePending 5 2 \<in> set (bs_log s') \<and> pending_of None (bs_log s') = Some None \<and>
    handleReInviteCommand call_env call_hold (call_session\<lparr>bs_pendingReInvite := Some 5\<rparr>) =
      Some (tx_Respond call_hold (NewResponse StatusRequestPending ''Request Pending'' []) (call_session\<lparr>bs_pendingReInvite := Some 5\<rparr>))"
proof -
  obtain s' where run: "session_run call_env [LoopCommand call_hold, LoopCommand call_bye] call_session = Some s'"
    "ReInvitePending 5 2 \<in> set (bs_log s')"
    using call_run by blast
  have "\<not> be_Acks call_env acts tx" for acts tx by (simp add: call_env_def)
  with reinvite_exclusive [OF run(1) call_session_sel(1,9,8,10)] run show ?thesis by auto
qed


end
