(* ===== verification/B2bua_Engine.thy ===== *)
theory B2bua_Engine
  imports B2bua_Call
begin

text \<open>
  The engine of \<open>internal/sip/b2bua\<close>: admission of calls and the correlation of dialogs with
  sessions (\<open>Engine\<close> and its methods in \<open>engine.go\<close>, the handlers at the top of \<open>in_dialog.go\<close>).

  The handlers run concurrently, one goroutine per request, and share the engine's fields under its
  mutex. A session is named by the number of the \<open>handleInvite\<close> goroutine that runs it. Each goroutine
  is cut at its accesses to the shared fields, so that the step relation \<open>engine_step\<close> has every
  interleaving of them.
\<close>

subsection \<open>The engine\<close>

record engine =
  eg_stopping :: bool
  eg_reserved :: int
  eg_byInbound :: "string \<rightharpoonup> nat"
  eg_byOutbound :: "string \<rightharpoonup> nat"
  eg_wg :: int

definition NewEngine ::
  "b2b_config \<Rightarrow> 'r option \<Rightarrow> 'p option \<Rightarrow> 'k option \<Rightarrow> 'l option \<Rightarrow> 'm option \<Rightarrow> 'g option \<Rightarrow> engine result" where
  "NewEngine cfg registrations publisher clock client mediaFactory logger =
     (if bc_TenantID cfg = '''' \<or> bc_Realm cfg = '''' \<or> bc_NodeID cfg = ''''
      then Inl (Errorf ''tenant, realm, and node ID are required'')
      else if bc_MaxActiveCalls cfg \<le> 0 \<or> bc_MailboxSize cfg \<le> 0 \<or> MaxMailboxCapacity < bc_MailboxSize cfg
      then Inl (Errorf ''active call and mailbox limits are invalid'')
      else if bc_InviteTimeout cfg \<le> 0 \<or> bc_DispatchTimeout cfg \<le> 0
      then Inl (Errorf ''invite and dispatch timeouts must be positive'')
      else if registrations = None \<or> publisher = None \<or> clock = None \<or> client = None \<or> mediaFactory = None \<or> logger = None
      then Inl (Errorf ''B2BUA dependencies are required'')
      else Inr \<lparr>eg_stopping = False, eg_reserved = 0, eg_byInbound = Map.empty, eg_byOutbound = Map.empty, eg_wg = 0\<rparr>)"

definition reserve :: "b2b_config \<Rightarrow> engine \<Rightarrow> engine \<times> bool" where
  "reserve cfg e =
     (if eg_stopping e \<or> eg_reserved e \<ge> bc_MaxActiveCalls cfg then (e, False)
      else (e\<lparr>eg_reserved := eg_reserved e + 1, eg_wg := eg_wg e + 1\<rparr>, True))"

definition wg_Done :: "engine \<Rightarrow> engine" where
  "wg_Done e = e\<lparr>eg_wg := eg_wg e - 1\<rparr>"

text \<open>\<open>release\<close>: its critical section, and then \<open>wg.Done\<close>.\<close>

definition release_locked :: "engine \<Rightarrow> engine" where
  "release_locked e = e\<lparr>eg_reserved := eg_reserved e - 1\<rparr>"

definition release :: "engine \<Rightarrow> engine" where
  "release e = wg_Done (release_locked e)"

definition remove :: "string \<Rightarrow> string option \<Rightarrow> engine \<Rightarrow> engine" where
  "remove inbound outbound e =
     e\<lparr>eg_byInbound := (eg_byInbound e)(inbound := None),
       eg_byOutbound := (case outbound of None \<Rightarrow> eg_byOutbound e | Some oid \<Rightarrow> (eg_byOutbound e)(oid := None)),
       eg_reserved := eg_reserved e - 1\<rparr>"

text \<open>\<open>Wait\<close> up to \<open>wg.Wait\<close>, and when that returns.\<close>

definition Wait_stop :: "engine \<Rightarrow> engine" where
  "Wait_stop e = e\<lparr>eg_stopping := True\<rparr>"

definition Wait_returns :: "engine \<Rightarrow> bool" where
  "Wait_returns e \<longleftrightarrow> eg_stopping e \<and> eg_wg e = 0"

subsection \<open>A new INVITE\<close>

text \<open>What one \<open>handleInvite\<close> finds: the registrations, its context, clock readings and new UUIDs.\<close>

record 's invite_env =
  iv_bindings :: 's
  iv_ctx :: ctx
  iv_listed :: time
  iv_now :: time
  iv_uuid1 :: "string result"
  iv_uuid2 :: "string result"
  iv_uuid3 :: "string result"
  iv_clock :: "nat \<Rightarrow> time"

definition sourceIsRegistered ::
  "b2b_config \<Rightarrow> 's registration_store \<Rightarrow> ctx \<Rightarrow> time \<Rightarrow> string \<Rightarrow> string \<Rightarrow> string \<Rightarrow> 's \<Rightarrow> bool result" where
  "sourceIsRegistered cfg st c now aor source transport s =
     (case manager_List st c now (bc_TenantID cfg) aor s of
        Inl e \<Rightarrow> Inl e
      | Inr bindings \<Rightarrow>
          Inr (list_ex (\<lambda>b. bi_RouteTarget b = source \<and> bi_Transport b = strings_ToLower transport) bindings))"

text \<open>\<open>Refuse\<close> is a response after \<open>release\<close>; \<open>Start\<close> the dialog, the call and the actor of a new session.\<close>

datatype invite_verdict = Refuse sip_response | Start string call actor

definition caller_aor :: "b2b_config \<Rightarrow> address_header \<Rightarrow> string" where
  "caller_aor cfg from = ''sip:'' @ uri_User (ah_Address from) @ ''@'' @ bc_Realm cfg"

text \<open>\<open>handleInvite\<close> after \<open>reserve\<close>; \<open>dialog\<close> is the result of \<open>ReadInvite\<close>.\<close>

definition check_invite ::
  "b2b_config \<Rightarrow> 's registration_store \<Rightarrow> string result \<Rightarrow> 's invite_env \<Rightarrow> sip_request \<Rightarrow> invite_verdict" where
  "check_invite cfg st dialog iv request =
     (case (req_From request, req_To request) of
        (Some from, Some to) \<Rightarrow>
          if uri_User (ah_Address from) = '''' \<or> uri_User (ah_Address to) = ''''
          then Refuse (NewResponse StatusBadRequest ''Bad Request'' [])
          else
            (case sourceIsRegistered cfg st (iv_ctx iv) (iv_listed iv) (caller_aor cfg from) (req_Source request)
                    (req_Transport request) (iv_bindings iv) of
               Inr True \<Rightarrow>
                 (case dialog of
                    Inl _ \<Rightarrow> Refuse (NewResponse StatusBadRequest ''Bad Dialog'' [])
                  | Inr ident \<Rightarrow>
                      (case call_New (bc_TenantID cfg) (bc_NodeID cfg) (iv_now iv) (iv_uuid1 iv) (iv_uuid2 iv) (iv_uuid3 iv) of
                         Inl _ \<Rightarrow> Refuse (NewResponse StatusInternalServerError ''Server Internal Error'' [])
                       | Inr current \<Rightarrow>
                           (case NewActor (bc_MailboxSize cfg) current (Some ()) (Some (iv_clock iv)) of
                              Inl _ \<Rightarrow> Refuse (NewResponse StatusInternalServerError ''Server Internal Error'' [])
                            | Inr actor \<Rightarrow> Start ident current actor)))
             | _ \<Rightarrow> Refuse (NewResponse StatusForbidden ''Forbidden'' []))
      | _ \<Rightarrow> Refuse (NewResponse StatusBadRequest ''Bad Request'' []))"

text \<open>
  A goroutine inside \<open>handleInvite\<close>: before \<open>reserve\<close>, between \<open>reserve\<close> and its next access to the
  engine, inside \<open>release\<close>, before its session is stored, running the session (with its dialog and
  the outbound dialog it has), after \<open>remove\<close>, and returned with the response it sent itself.
\<close>

datatype 's invite_task =
    Arrived "'s invite_env" sip_request
  | Reserved "'s invite_env" sip_request
  | Releasing sip_response
  | Entering string call actor
  | InCall string "string option"
  | Leaving
  | Returned "sip_response option"

text \<open>What the session of a running task does to the engine: it gets an outbound dialog, stores it,
  or ends.\<close>

datatype run_event = RunInvited string | RunStored | RunEnd

definition busy :: sip_response where
  "busy = AppendHeader (Header ''Retry-After'' ''1'') (NewResponse StatusServiceUnavailable ''Service Unavailable'' [])"

fun invite_step ::
  "b2b_config \<Rightarrow> 's registration_store \<Rightarrow> (nat \<Rightarrow> string result) \<Rightarrow> nat \<Rightarrow> run_event \<Rightarrow> 's invite_task \<Rightarrow> engine
     \<Rightarrow> ('s invite_task \<times> engine) option" where
  "invite_step cfg st dialogs i ev (Arrived iv request) e =
     (case reserve cfg e of
        (e', False) \<Rightarrow> Some (Returned (Some busy), e')
      | (e', True) \<Rightarrow> Some (Reserved iv request, e'))"
| "invite_step cfg st dialogs i ev (Reserved iv request) e =
     (case check_invite cfg st (dialogs i) iv request of
        Refuse r \<Rightarrow> Some (Releasing r, release_locked e)
      | Start ident current actor \<Rightarrow> Some (Entering ident current actor, e))"
| "invite_step cfg st dialogs i ev (Releasing r) e = Some (Returned (Some r), wg_Done e)"
| "invite_step cfg st dialogs i ev (Entering ident current actor) e =
     Some (InCall ident None, e\<lparr>eg_byInbound := (eg_byInbound e)(ident \<mapsto> i)\<rparr>)"
| "invite_step cfg st dialogs i ev (InCall ident outbound) e =
     (case ev of
        RunInvited oid \<Rightarrow> if outbound = None then Some (InCall ident (Some oid), e) else None
      | RunStored \<Rightarrow>
          (case outbound of
             None \<Rightarrow> None
           | Some oid \<Rightarrow> Some (InCall ident outbound, e\<lparr>eg_byOutbound := (eg_byOutbound e)(oid \<mapsto> i)\<rparr>))
      | RunEnd \<Rightarrow> Some (Leaving, remove ident outbound e))"
| "invite_step cfg st dialogs i ev Leaving e = Some (Returned None, wg_Done e)"
| "invite_step cfg st dialogs i ev (Returned r) e = None"

inductive engine_step ::
  "b2b_config \<Rightarrow> 's registration_store \<Rightarrow> (nat \<Rightarrow> string result) \<Rightarrow> 's invite_task list \<times> engine \<Rightarrow> 's invite_task list \<times> engine \<Rightarrow> bool"
  for cfg st dialogs where
  arrive: "engine_step cfg st dialogs (ts, e) (ts @ [Arrived iv request], e)"
| proceed: "i < length ts \<Longrightarrow> invite_step cfg st dialogs i ev (ts ! i) e = Some (t, e') \<Longrightarrow>
    engine_step cfg st dialogs (ts, e) (ts[i := t], e')"
| stop: "engine_step cfg st dialogs (ts, e) (ts, Wait_stop e)"

inductive_cases engine_stepE: "engine_step cfg st dialogs (ts, e) s"

subsection \<open>Admission\<close>

text \<open>The tasks that occupy one of the \<open>MaxActiveCalls\<close> places, and those \<open>wg\<close> counts.\<close>

fun occupies :: "'s invite_task \<Rightarrow> bool" where
  "occupies (Reserved iv request) = True"
| "occupies (Entering ident current actor) = True"
| "occupies (InCall ident outbound) = True"
| "occupies _ = False"

fun counted :: "'s invite_task \<Rightarrow> bool" where
  "counted (Arrived iv request) = False"
| "counted (Returned r) = False"
| "counted _ = True"

definition places :: "'s invite_task list \<Rightarrow> int" where
  "places ts = int (length (filter occupies ts))"

definition waits_for :: "'s invite_task list \<Rightarrow> int" where
  "waits_for ts = int (length (filter counted ts))"

text \<open>The dialog maps name tasks that run the session of that dialog.\<close>

definition found_running :: "'s invite_task list \<Rightarrow> engine \<Rightarrow> bool" where
  "found_running ts e \<longleftrightarrow>
     (\<forall>ident i. eg_byInbound e ident = Some i \<longrightarrow> i < length ts \<and> (\<exists>out. ts ! i = InCall ident out)) \<and>
     (\<forall>oid i. eg_byOutbound e oid = Some i \<longrightarrow> i < length ts \<and> (\<exists>ident. ts ! i = InCall ident (Some oid)))"

definition running_found :: "(nat \<Rightarrow> string result) \<Rightarrow> 's invite_task list \<Rightarrow> engine \<Rightarrow> bool" where
  "running_found dialogs ts e \<longleftrightarrow>
     (\<forall>i < length ts. \<forall>ident cl a out.
        (ts ! i = Entering ident cl a \<longrightarrow> dialogs i = Inr ident) \<and>
        (ts ! i = InCall ident out \<longrightarrow> dialogs i = Inr ident \<and> eg_byInbound e ident = Some i))"

text \<open>Different INVITEs open different dialogs.\<close>

definition own_dialogs :: "(nat \<Rightarrow> string result) \<Rightarrow> bool" where
  "own_dialogs dialogs \<longleftrightarrow> (\<forall>i j ident. dialogs i = Inr ident \<and> dialogs j = Inr ident \<longrightarrow> i = j)"

definition engine_inv :: "b2b_config \<Rightarrow> 's invite_task list \<times> engine \<Rightarrow> bool" where
  "engine_inv cfg = (\<lambda>(ts, e). eg_reserved e = places ts \<and> eg_wg e = waits_for ts \<and>
     eg_reserved e \<le> bc_MaxActiveCalls cfg \<and> found_running ts e)"

lemma filter_update:
  "i < length xs \<Longrightarrow>
     int (length (filter P (xs[i := t]))) = int (length (filter P xs)) + (if P t then 1 else 0) - (if P (xs ! i) then 1 else 0)"
proof (induction xs arbitrary: i)
  case (Cons x xs)
  show ?case
  proof (cases i)
    case (Suc k)
    then show ?thesis using Cons.IH [of k] Cons.prems by (cases "P t"; cases "P (xs ! k)") simp_all
  qed simp
qed simp

lemma places_update: "i < length ts \<Longrightarrow>
     places (ts[i := t]) = places ts + (if occupies t then 1 else 0) - (if occupies (ts ! i) then 1 else 0)"
  unfolding places_def by (rule filter_update)

lemma waits_for_update: "i < length ts \<Longrightarrow>
     waits_for (ts[i := t]) = waits_for ts + (if counted t then 1 else 0) - (if counted (ts ! i) then 1 else 0)"
  unfolding waits_for_def by (rule filter_update)

lemma arrived_counts [simp]: "places (ts @ [Arrived iv r]) = places ts" "waits_for (ts @ [Arrived iv r]) = waits_for ts"
  by (simp_all add: places_def waits_for_def)

lemmas engine_ops = reserve_def release_locked_def wg_Done_def remove_def

text \<open>One step of a task, on the counters and on the maps.\<close>

lemma invite_step_counts:
  assumes "invite_step cfg st dialogs i ev t e = Some (t', e')"
  shows "eg_reserved e' = eg_reserved e + (if occupies t' then 1 else 0) - (if occupies t then 1 else 0) \<and>
    eg_wg e' = eg_wg e + (if counted t' then 1 else 0) - (if counted t then 1 else 0) \<and>
    (eg_reserved e \<le> bc_MaxActiveCalls cfg \<longrightarrow> eg_reserved e' \<le> bc_MaxActiveCalls cfg)"
  using assms
  by (cases t) (auto simp: engine_ops split: if_splits invite_verdict.splits run_event.splits option.splits)

fun in_call :: "'s invite_task \<Rightarrow> bool" where
  "in_call (InCall ident out) = True"
| "in_call _ = False"

lemma invite_step_maps:
  "invite_step cfg st dialogs i ev t e = Some (t', e') \<Longrightarrow> \<not> in_call t \<Longrightarrow> \<not> in_call t' \<Longrightarrow>
     eg_byInbound e' = eg_byInbound e \<and> eg_byOutbound e' = eg_byOutbound e"
  by (cases t) (auto simp: engine_ops split: if_splits invite_verdict.splits)

lemma found_other:
  assumes "found_running ts e" and "\<not> in_call (ts ! i)" and "eg_byInbound e' = eg_byInbound e" and "eg_byOutbound e' = eg_byOutbound e"
  shows "found_running (ts[i := t]) e'"
proof -
  have "j \<noteq> i" if "ts ! j = InCall ident out" for j ident out using that assms(2) by auto
  then show ?thesis using assms unfolding found_running_def by (metis length_list_update nth_list_update_neq)
qed

lemma found_running_in:
  "found_running ts e \<Longrightarrow> eg_byInbound e ident = Some i \<Longrightarrow> i < length ts \<and> (\<exists>out. ts ! i = InCall ident out)"
  "found_running ts e \<Longrightarrow> eg_byOutbound e oid = Some i \<Longrightarrow> i < length ts \<and> (\<exists>ident. ts ! i = InCall ident (Some oid))"
  by (simp_all add: found_running_def)

lemma found_entry:
  assumes "found_running ts e" and "i < length ts" and "\<not> in_call (ts ! i)"
  shows "found_running (ts[i := InCall ident None]) (e\<lparr>eg_byInbound := (eg_byInbound e)(ident \<mapsto> i)\<rparr>)"
  using found_other [OF assms(1,3) refl refl, of "InCall ident None"] assms(2)
  by (auto simp: found_running_def)

lemma found_run:
  assumes "found_running ts e" and "i < length ts" and "ts ! i = InCall ident out"
  shows "out = None \<Longrightarrow> found_running (ts[i := InCall ident (Some oid)]) e"
    and "out = Some oid \<Longrightarrow> found_running (ts[i := InCall ident out]) (e\<lparr>eg_byOutbound := (eg_byOutbound e)(oid \<mapsto> i)\<rparr>)"
    and "found_running (ts[i := Leaving]) (remove ident out e)"
proof -
  have own: "eg_byInbound e x = Some i \<Longrightarrow> x = ident" "eg_byOutbound e y = Some i \<Longrightarrow> out = Some y" for x y
    using found_running_in [OF assms(1)] assms(3) by fastforce+
  note found = found_running_in [OF assms(1)]
  show "found_running (ts[i := InCall ident (Some oid)]) e" if "out = None"
    using found own that assms(2) unfolding found_running_def by (metis length_list_update nth_list_update option.distinct(1))
  show "found_running (ts[i := InCall ident out]) (e\<lparr>eg_byOutbound := (eg_byOutbound e)(oid \<mapsto> i)\<rparr>)" if "out = Some oid"
    unfolding list_update_id [of ts i, unfolded assms(3)]
    using assms that by (auto simp: found_running_def)
  show "found_running (ts[i := Leaving]) (remove ident out e)"
  proof -
    have "i \<noteq> j \<and> j < length ts \<and> (\<exists>out. ts ! j = InCall x out)" if "eg_byInbound e x = Some j" "x \<noteq> ident" for x j
      using that own found by auto
    moreover have "i \<noteq> j \<and> j < length ts \<and> (\<exists>ident. ts ! j = InCall ident (Some y))"
      if "eg_byOutbound e y = Some j" "out \<noteq> Some y" for y j
      using that own found by auto
    ultimately show ?thesis unfolding found_running_def remove_def by (fastforce split: option.splits if_splits)
  qed
qed

lemma invite_step_found:
  assumes "invite_step cfg st dialogs i ev (ts ! i) e = Some (t', e')" and "i < length ts" and "found_running ts e"
  shows "found_running (ts[i := t']) e'"
proof (cases "ts ! i")
  case (Entering ident cl a)
  then show ?thesis using assms(1) found_entry [OF assms(3,2)] by auto
next
  case (InCall ident out)
  then show ?thesis
    using assms(1) found_run [OF assms(3,2) InCall] by (auto split: run_event.splits option.splits if_splits)
next
  case (Reserved iv request)
  have "\<not> in_call t'" using assms(1) Reserved by (auto split: invite_verdict.splits)
  then show ?thesis using invite_step_maps [OF assms(1)] found_other [OF assms(3)] Reserved by simp
next
  case (Arrived iv request)
  have "\<not> in_call t'" using assms(1) Arrived by (auto split: prod.splits bool.splits)
  then show ?thesis using invite_step_maps [OF assms(1)] found_other [OF assms(3)] Arrived by simp
qed (use assms(1) invite_step_maps [OF assms(1)] found_other [OF assms(3)] in auto)

lemma check_invite_Start:
  assumes "check_invite cfg st dialog iv request = Start ident cl a"
  obtains h to where "req_From request = Some h" "req_To request = Some to"
    "sourceIsRegistered cfg st (iv_ctx iv) (iv_listed iv) (caller_aor cfg h) (req_Source request)
       (req_Transport request) (iv_bindings iv) = Inr True"
    "dialog = Inr ident"
    "call_New (bc_TenantID cfg) (bc_NodeID cfg) (iv_now iv) (iv_uuid1 iv) (iv_uuid2 iv) (iv_uuid3 iv) = Inr cl"
    "NewActor (bc_MailboxSize cfg) cl (Some ()) (Some (iv_clock iv)) = Inr a"
  using assms unfolding check_invite_def by (auto split: option.splits if_splits sum.splits bool.splits)

lemma refused_releases:
  "check_invite cfg st (dialogs i) iv request = Refuse r \<Longrightarrow>
     invite_step cfg st dialogs i ev (Reserved iv request) e = Some (Releasing r, release_locked e) \<and>
     invite_step cfg st dialogs i ev (Releasing r) (release_locked e) = Some (Returned (Some r), release e)"
  by (simp add: release_def)

lemma invite_step_own:
  assumes "invite_step cfg st dialogs i ev (ts ! i) e = Some (t', e')" and "i < length ts"
    and "running_found dialogs ts e" and "own_dialogs dialogs"
  shows "running_found dialogs (ts[i := t']) e'"
proof (cases "ts ! i")
  case (Reserved iv request)
  then show ?thesis
    using assms
    by (auto simp: running_found_def release_locked_def nth_list_update split: invite_verdict.splits elim!: check_invite_Start)
qed (use assms in \<open>auto simp: running_found_def own_dialogs_def engine_ops nth_list_update
      split: if_splits run_event.splits option.splits\<close>)

lemma engine_inv_step: "engine_step cfg st dialogs s s' \<Longrightarrow> engine_inv cfg s \<Longrightarrow> engine_inv cfg s'"
proof (induction rule: engine_step.induct)
  case (arrive ts e iv request)
  then show ?case by (auto simp: engine_inv_def nth_append found_running_def less_Suc_eq)
next
  case (proceed i ts ev e t e')
  then show ?case
    using invite_step_counts [OF proceed(2)] invite_step_found [OF proceed(2,1)] places_update [OF proceed(1), of t]
      waits_for_update [OF proceed(1), of t]
    by (simp add: engine_inv_def)
next
  case (stop ts e)
  then show ?case by (simp add: engine_inv_def Wait_stop_def found_running_def)
qed

lemma running_found_step:
  "engine_step cfg st dialogs s s' \<Longrightarrow> own_dialogs dialogs \<Longrightarrow> running_found dialogs (fst s) (snd s) \<Longrightarrow>
     running_found dialogs (fst s') (snd s')"
proof (induction rule: engine_step.induct)
  case (arrive ts e iv request)
  then show ?case by (auto simp: running_found_def nth_append)
next
  case (proceed i ts ev e t e')
  then show ?case using invite_step_own [OF proceed(2,1)] by simp
next
  case (stop ts e)
  then show ?case by (simp add: running_found_def Wait_stop_def)
qed

lemma NewEngine_inv:
  assumes "NewEngine cfg registrations publisher clock client mediaFactory logger = Inr e0"
  shows "engine_inv cfg ([], e0)"
  using assms
  by (auto simp: NewEngine_def engine_inv_def places_def waits_for_def found_running_def split: if_splits)

lemma empty_found: "running_found dialogs [] e"
  by (simp add: running_found_def)

lemma engine_reached:
  assumes "(engine_step cfg st dialogs)\<^sup>*\<^sup>* s s'" and "engine_inv cfg s"
  shows "engine_inv cfg s'"
  using assms by induction (auto intro: engine_inv_step)

lemma engine_reached_own:
  assumes "(engine_step cfg st dialogs)\<^sup>*\<^sup>* s s'" and "own_dialogs dialogs" and "running_found dialogs (fst s) (snd s)"
  shows "running_found dialogs (fst s') (snd s')"
  using assms by induction (auto intro: running_found_step)

text \<open>C5: Admission control holds in every interleaving of the handlers. The engine counts exactly the
  INVITE handlers that have passed \<open>reserve\<close> and not given their place back, never more than
  \<open>MaxActiveCalls\<close>; a new INVITE is turned away with 503 and \<open>Retry-After\<close> exactly when the engine is
  stopping or that many are in progress; every session the dialog maps name is still running, with
  that dialog; and when INVITEs get dialogs of their own, every running session is found by its
  dialog.\<close>

theorem engine_admission:
  assumes "NewEngine cfg registrations publisher clock client mediaFactory logger = Inr e0"
    and "(engine_step cfg st dialogs)\<^sup>*\<^sup>* ([], e0) (ts, e)"
  shows "eg_reserved e = places ts \<and> places ts \<le> bc_MaxActiveCalls cfg \<and>
    (\<forall>i ev iv request. invite_step cfg st dialogs i ev (Arrived iv request) e =
       (if eg_stopping e \<or> places ts = bc_MaxActiveCalls cfg then Some (Returned (Some busy), e)
        else Some (Reserved iv request, e\<lparr>eg_reserved := places ts + 1, eg_wg := waits_for ts + 1\<rparr>))) \<and>
    found_running ts e \<and> (own_dialogs dialogs \<longrightarrow> running_found dialogs ts e)"
proof -
  have "engine_inv cfg (ts, e)" by (rule engine_reached [OF assms(2) NewEngine_inv [OF assms(1)]])
  moreover have "running_found dialogs ts e" if "own_dialogs dialogs"
    using engine_reached_own [OF assms(2) that] by (simp add: empty_found)
  ultimately show ?thesis by (auto simp: engine_inv_def reserve_def)
qed

subsection \<open>Shutdown\<close>

fun steps_left :: "'s invite_task \<Rightarrow> nat" where
  "steps_left (Arrived iv request) = 5"
| "steps_left (Reserved iv request) = 4"
| "steps_left (Entering ident current actor) = 3"
| "steps_left (InCall ident outbound) = 2"
| "steps_left (Releasing r) = 1"
| "steps_left Leaving = 1"
| "steps_left (Returned r) = 0"

lemma invite_step_progress:
  "steps_left t \<noteq> 0 \<Longrightarrow> \<exists>t' e'. invite_step cfg st dialogs i RunEnd t e = Some (t', e') \<and> steps_left t' < steps_left t"
  by (cases t) (auto simp: reserve_def split: invite_verdict.splits)

lemma drained_step:
  "engine_step cfg st dialogs s s' \<Longrightarrow> engine_inv cfg s \<Longrightarrow> Wait_returns (snd s) \<Longrightarrow> Wait_returns (snd s')"
proof (induction rule: engine_step.induct)
  case (proceed i ts ev e t e')
  then have "waits_for ts = 0" by (simp add: engine_inv_def Wait_returns_def)
  then have "\<not> counted (ts ! i)" using proceed(1) by (auto simp: waits_for_def filter_empty_conv)
  then show ?case
    using proceed(2,4) by (cases "ts ! i") (auto simp: Wait_returns_def reserve_def)
qed (simp_all add: Wait_returns_def Wait_stop_def)

lemma drained_reached:
  assumes "(engine_step cfg st dialogs)\<^sup>*\<^sup>* s s'" and "engine_inv cfg s" and "Wait_returns (snd s)"
  shows "Wait_returns (snd s')"
proof -
  have "engine_inv cfg s' \<and> Wait_returns (snd s')"
    using assms by induction (auto intro: engine_inv_step drained_step)
  then show ?thesis ..
qed

lemma drained_empty:
  assumes "engine_inv cfg (ts, e)" and "Wait_returns e"
  shows "places ts = 0 \<and> eg_byInbound e = Map.empty \<and> eg_byOutbound e = Map.empty"
proof -
  have none: "\<not> counted t" if "t \<in> set ts" for t
    using assms that by (auto simp: engine_inv_def Wait_returns_def waits_for_def filter_empty_conv)
  have "\<not> occupies t" if "t \<in> set ts" for t using none [OF that] by (cases t) auto
  then have places: "places ts = 0" by (simp add: places_def)
  have found: "found_running ts e" using assms(1) by (simp add: engine_inv_def)
  have idle: "ts ! i \<noteq> InCall ident out" if "i < length ts" for i ident out
    using none [OF nth_mem [OF that]] by auto
  have "eg_byInbound e ident = None" "eg_byOutbound e oid = None" for ident oid
    using found_running_in [OF found] idle by (metis option.exhaust)+
  then show ?thesis using places by (auto intro: ext)
qed

text \<open>C19: Shutdown is complete and final. No handler that \<open>Wait\<close> waits for is ever blocked by another one:
  once its session has ended it reaches its return within its own next steps. When \<open>Wait\<close> has
  returned, no call occupies a place, both dialog maps are empty, and this stays so for ever,
  however many INVITEs arrive.\<close>

theorem engine_drained:
  assumes "NewEngine cfg registrations publisher clock client mediaFactory logger = Inr e0"
    and "(engine_step cfg st dialogs)\<^sup>*\<^sup>* ([], e0) (ts, e)" and "(engine_step cfg st dialogs)\<^sup>*\<^sup>* (ts, e) (ts', e')"
  shows "(\<forall>i < length ts. counted (ts ! i) \<longrightarrow>
       (\<exists>t e1. invite_step cfg st dialogs i RunEnd (ts ! i) e = Some (t, e1) \<and> steps_left t < steps_left (ts ! i))) \<and>
    (Wait_returns e \<longrightarrow> Wait_returns e' \<and> places ts' = 0 \<and> eg_byInbound e' = Map.empty \<and> eg_byOutbound e' = Map.empty)"
proof -
  have inv: "engine_inv cfg (ts, e)" by (rule engine_reached [OF assms(2) NewEngine_inv [OF assms(1)]])
  have inv': "engine_inv cfg (ts', e')" by (rule engine_reached [OF assms(3) inv])
  have "\<exists>t' e1. invite_step cfg st dialogs i RunEnd t e = Some (t', e1) \<and> steps_left t' < steps_left t" if "counted t" for i t
    by (rule invite_step_progress) (use that in \<open>cases t; simp\<close>)
  moreover have "Wait_returns e'" if "Wait_returns e"
    using drained_reached [OF assms(3) inv] that by simp
  ultimately show ?thesis using drained_empty [OF inv'] by blast
qed

subsection \<open>Who may call\<close>

text \<open>The caller's binding that matches where the INVITE came from.\<close>

definition matching :: "b2b_config \<Rightarrow> memory \<Rightarrow> time \<Rightarrow> sip_request \<Rightarrow> address_header \<Rightarrow> binding \<Rightarrow> bool" where
  "matching cfg s now request h b \<longleftrightarrow>
     b \<in> bindings_of (map_of s) (bc_TenantID cfg) (caller_aor cfg h) now \<and>
     bi_RouteTarget b = req_Source request \<and> bi_Transport b = strings_ToLower (req_Transport request)"

lemma source_registered:
  assumes "memory_inv s"
  shows "sourceIsRegistered cfg (memory_store p) c now (caller_aor cfg h) (req_Source request) (req_Transport request) s = Inr True
    \<longleftrightarrow> ctx_Err c = None \<and> (\<exists>b. matching cfg s now request h b)"
proof (cases "ctx_Err c")
  case None
  then obtain bs where bs: "st_ListActive (memory_store p) c (bc_TenantID cfg) (caller_aor cfg h) now s = Inr bs"
    using memory_reads.list_answers by blast
  then show ?thesis
    using memory.list_active [OF assms bs] None
    by (auto simp: sourceIsRegistered_def manager_List_def matching_def list_ex_iff)
next
  case (Some e)
  then show ?thesis by (simp add: sourceIsRegistered_def manager_List_def memory_ListActive_def)
qed

text \<open>C16: Only a registered device can start a call. Whatever was registered, removed or expired before,
  \<open>handleInvite\<close> starts a session only when the user of the From header has an unexpired binding in
  the engine's tenant and realm whose route is the source of the INVITE and whose transport is the
  one it came by; the session then starts with a new call on the dialog of that INVITE and nothing
  allocated. An INVITE with no such binding is refused with 403.\<close>

theorem invite_registered:
  assumes "(manager_step (memory_store p))\<^sup>*\<^sup>* NewRegistrationStore (iv_bindings iv)"
    and "req_From request = Some h" and "req_To request = Some to"
    and "uri_User (ah_Address h) \<noteq> ''''" and "uri_User (ah_Address to) \<noteq> ''''"
  shows "(\<forall>ident cl a. check_invite cfg (memory_store p) dialog iv request = Start ident cl a \<longrightarrow>
      (\<exists>b. matching cfg (iv_bindings iv) (iv_listed iv) request h b) \<and> dialog = Inr ident \<and>
      call_State cl = StateNew \<and> call_TenantID cl = bc_TenantID cfg \<and> actor_phase a = Stopped \<and> actor_call a = cl) \<and>
    ((\<forall>b. \<not> matching cfg (iv_bindings iv) (iv_listed iv) request h b) \<longrightarrow>
      check_invite cfg (memory_store p) dialog iv request = Refuse (NewResponse StatusForbidden ''Forbidden'' []))"
proof -
  note source = source_registered [OF memory_reached(1) [OF assms(1)], of cfg p "iv_ctx iv" "iv_listed iv" h request]
  have started: "(\<exists>b. matching cfg (iv_bindings iv) (iv_listed iv) request h b) \<and> dialog = Inr ident \<and>
      call_State cl = StateNew \<and> call_TenantID cl = bc_TenantID cfg \<and> actor_phase a = Stopped \<and> actor_call a = cl"
    if "check_invite cfg (memory_store p) dialog iv request = Start ident cl a" for ident cl a
    using that
    by (rule check_invite_Start)
      (use assms(2) source in \<open>auto simp: call_New_def NewActor_def storeSnapshot_def split: if_splits sum.splits\<close>)
  moreover have "check_invite cfg (memory_store p) dialog iv request = Refuse (NewResponse StatusForbidden ''Forbidden'' [])"
    if "\<forall>b. \<not> matching cfg (iv_bindings iv) (iv_listed iv) request h b"
    using that source assms(2-5) by (auto simp: check_invite_def split: sum.splits bool.splits)
  ultimately show ?thesis by blast
qed

subsection \<open>Requests inside a dialog\<close>

text \<open>What the handlers share with a session: its fields, its queue of commands, and whether \<open>done\<close> is
  closed.\<close>

record ('b, 'm, 'o, 'c) live_session =
  lv_session :: "('b, 'm, 'o, 'c) b2b_session"
  lv_commands :: "session_command chan"
  lv_done :: bool

text \<open>The arm a \<open>select\<close> takes; an arm that is not ready gives \<open>None\<close>.\<close>

datatype enqueue_arm = EnqueueSent | EnqueueDone | EnqueueTimeout

definition enqueue ::
  "enqueue_arm \<Rightarrow> session_command \<Rightarrow> ('b, 'm, 'o, 'c) live_session \<Rightarrow> ('b, 'm, 'o, 'c) live_session option" where
  "enqueue arm cmd lv =
     (case arm of
        EnqueueSent \<Rightarrow> map_option (\<lambda>ch. lv\<lparr>lv_commands := ch\<rparr>) (chan_send cmd (lv_commands lv))
      | EnqueueDone \<Rightarrow> if lv_done lv then Some lv else None
      | EnqueueTimeout \<Rightarrow> Some lv)"

datatype result_arm = ResultClosed | ResultDone | ResultTimeout

text \<open>
  How a command is waited for: the two arms, a new result channel, and what the session and the other
  goroutines do to it between them, with whether the result channel is closed then.
\<close>

record ('b, 'm, 'o, 'c) command_wait =
  cw_enqueue :: enqueue_arm
  cw_others :: "('b, 'm, 'o, 'c) live_session \<Rightarrow> ('b, 'm, 'o, 'c) live_session \<times> bool"
  cw_result :: result_arm
  cw_channel :: nat

definition enqueueAndWait ::
  "('b, 'm, 'o, 'c) command_wait \<Rightarrow> session_command \<Rightarrow> ('b, 'm, 'o, 'c) live_session
     \<Rightarrow> (('b, 'm, 'o, 'c) live_session \<times> bool) option" where
  "enqueueAndWait cw cmd lv =
     do { lv1 \<leftarrow> enqueue (cw_enqueue cw) (cmd\<lparr>sc_result := Some (cw_channel cw)\<rparr>) lv;
          let (lv2, closed) = cw_others cw lv1;
          case cw_result cw of
            ResultClosed \<Rightarrow> if closed then Some (lv2, True) else None
          | ResultDone \<Rightarrow> if lv_done lv2 then Some (lv2, False) else None
          | ResultTimeout \<Rightarrow> Some (lv2, False) }"

definition findInboundSession :: "sip_pkg \<Rightarrow> sip_request \<Rightarrow> engine \<Rightarrow> nat option" where
  "findInboundSession sp request e =
     (case DialogIDFromRequestUAS sp request of Inl _ \<Rightarrow> None | Inr dialogID \<Rightarrow> eg_byInbound e dialogID)"

definition findOutboundSession :: "sip_pkg \<Rightarrow> sip_request \<Rightarrow> engine \<Rightarrow> nat option" where
  "findOutboundSession sp request e =
     (case DialogIDFromRequestUAC sp request of Inl _ \<Rightarrow> None | Inr dialogID \<Rightarrow> eg_byOutbound e dialogID)"

definition no_transaction :: sip_response where
  "no_transaction = NewResponse StatusCallTransactionDoesNotExists ''Call/Transaction Does Not Exist'' []"

text \<open>
  The sessions by their numbers; the result is the new sessions and the responses the handler itself
  passed to its transaction. \<open>ReadRequest\<close>, \<open>ReadBye\<close> and \<open>ReadAck\<close> of the dialogs are the error they
  return.
\<close>

type_synonym ('b, 'm, 'o, 'c) sessions = "nat \<Rightarrow> ('b, 'm, 'o, 'c) live_session"

definition with_session :: "('b, 'm, 'o, 'c) b2b_session \<Rightarrow> ('b, 'm, 'o, 'c) live_session \<Rightarrow> ('b, 'm, 'o, 'c) live_session" where
  "with_session s lv = lv\<lparr>lv_session := s\<rparr>"

text \<open>The end of three handlers: dispatch a command, and answer 408 when it was not handled in time.\<close>

definition dispatch_command ::
  "('b, 'm, 'o, 'c) command_wait \<Rightarrow> session_command \<Rightarrow> nat \<Rightarrow> ('b, 'm, 'o, 'c) sessions
     \<Rightarrow> (('b, 'm, 'o, 'c) sessions \<times> sip_response list) option" where
  "dispatch_command cw cmd i ss =
     do { (lv, ok) \<leftarrow> enqueueAndWait cw cmd (ss i);
          Some (ss(i := lv), if ok then [] else [NewResponse StatusRequestTimeout ''Request Timeout'' []]) }"

definition request_command :: "command_kind \<Rightarrow> sip_request \<Rightarrow> nat \<Rightarrow> session_command" where
  "request_command kind request tx =
     \<lparr>sc_kind = kind, sc_origin = hangupCaller, sc_request = request, sc_transaction = tx, sc_result = None\<rparr>"

definition handleReInvite ::
  "sip_pkg \<Rightarrow> (nat \<Rightarrow> go_error option) \<Rightarrow> ('b, 'm, 'o, 'c) command_wait \<Rightarrow> sip_request \<Rightarrow> nat \<Rightarrow> engine \<Rightarrow> ('b, 'm, 'o, 'c) sessions
     \<Rightarrow> (('b, 'm, 'o, 'c) sessions \<times> sip_response list) option" where
  "handleReInvite sp readRequest cw request tx e ss =
     (case findInboundSession sp request e of
        None \<Rightarrow> Some (ss, [no_transaction])
      | Some i \<Rightarrow>
          if bs_outbound (lv_session (ss i)) = None then Some (ss, [no_transaction])
          else
            (case beginReInvite (lv_session (ss i)) of
               (_, False) \<Rightarrow> Some (ss, [NewResponse StatusRequestPending ''Request Pending'' []])
             | (s1, True) \<Rightarrow>
                 let ss1 = ss(i := with_session s1 (ss i));
                     finish = (\<lambda>ss. ss(i := with_session (finishReInvite (lv_session (ss i))) (ss i)))
                 in if readRequest i \<noteq> None
                    then Some (finish ss1, [NewResponse StatusBadRequest ''Bad Dialog Request'' []])
                    else map_option (apfst finish)
                           (dispatch_command cw (request_command commandReInvite request tx) i ss1)))"

definition handleRefer ::
  "sip_pkg \<Rightarrow> (nat \<Rightarrow> go_error option) \<Rightarrow> ('b, 'm, 'o, 'c) command_wait \<Rightarrow> sip_request \<Rightarrow> nat \<Rightarrow> engine \<Rightarrow> ('b, 'm, 'o, 'c) sessions
     \<Rightarrow> (('b, 'm, 'o, 'c) sessions \<times> sip_response list) option" where
  "handleRefer sp readRequest cw request tx e ss =
     (case findInboundSession sp request e of
        None \<Rightarrow> Some (ss, [no_transaction])
      | Some i \<Rightarrow>
          if bs_outbound (lv_session (ss i)) = None then Some (ss, [no_transaction])
          else if req_GetHeader request ''Refer-To'' = None
          then Some (ss, [NewResponse StatusBadRequest ''Missing Refer-To'' []])
          else if readRequest i \<noteq> None
          then Some (ss, [NewResponse StatusBadRequest ''Bad Dialog Request'' []])
          else dispatch_command cw (request_command commandRefer request tx) i ss)"

text \<open>A session always has an inbound dialog.\<close>

definition handleNotify ::
  "sip_pkg \<Rightarrow> (nat \<Rightarrow> go_error option) \<Rightarrow> ('b, 'm, 'o, 'c) command_wait \<Rightarrow> sip_request \<Rightarrow> nat \<Rightarrow> engine \<Rightarrow> ('b, 'm, 'o, 'c) sessions
     \<Rightarrow> (('b, 'm, 'o, 'c) sessions \<times> sip_response list) option" where
  "handleNotify sp readRequest cw request tx e ss =
     (case findOutboundSession sp request e of
        None \<Rightarrow> Some (ss, [no_transaction])
      | Some i \<Rightarrow>
          if readRequest i \<noteq> None
          then Some (ss, [NewResponse StatusBadRequest ''Bad Dialog Request'' []])
          else dispatch_command cw (request_command commandNotify request tx) i ss)"

text \<open>A hang-up carries no request; \<open>handleHangup\<close> reads the origin only.\<close>

definition hangup_command :: "hangup_origin \<Rightarrow> sip_request \<Rightarrow> nat \<Rightarrow> session_command" where
  "hangup_command origin request tx = (request_command commandHangup request tx)\<lparr>sc_origin := origin\<rparr>"

definition bye_to ::
  "enqueue_arm \<Rightarrow> session_command \<Rightarrow> nat \<Rightarrow> ('b, 'm, 'o, 'c) sessions
     \<Rightarrow> (('b, 'm, 'o, 'c) sessions \<times> sip_response list) option" where
  "bye_to arm cmd i ss = map_option (\<lambda>lv. (ss(i := lv), [])) (enqueue arm cmd (ss i))"

definition handleBye ::
  "sip_pkg \<Rightarrow> go_error option \<Rightarrow> go_error option \<Rightarrow> enqueue_arm \<Rightarrow> sip_request \<Rightarrow> nat \<Rightarrow> engine \<Rightarrow> ('b, 'm, 'o, 'c) sessions
     \<Rightarrow> (('b, 'm, 'o, 'c) sessions \<times> sip_response list) option" where
  "handleBye sp serverReadBye clientReadBye arm request tx e ss =
     (case (findInboundSession sp request e, serverReadBye) of
        (Some i, None) \<Rightarrow> bye_to arm (hangup_command hangupCaller request tx) i ss
      | _ \<Rightarrow>
          (case (findOutboundSession sp request e, clientReadBye) of
             (Some i, None) \<Rightarrow> bye_to arm (hangup_command hangupCallee request tx) i ss
           | _ \<Rightarrow> Some (ss, [no_transaction])))"

definition handleAck ::
  "sip_pkg \<Rightarrow> go_error option \<Rightarrow> sip_request \<Rightarrow> engine \<Rightarrow> ('b, 'm, 'o, 'c) sessions \<Rightarrow> ('b, 'm, 'o, 'c) sessions" where
  "handleAck sp readAck request e ss =
     (if readAck \<noteq> None then ss
      else case findInboundSession sp request e of
             None \<Rightarrow> ss
           | Some i \<Rightarrow> ss(i := with_session (completePendingReInviteCSeq (req_CSeq request) (lv_session (ss i))) (ss i)))"

text \<open>\<open>OnInvite\<close>: whether an INVITE is one inside a dialog.\<close>

definition in_dialog_invite :: "sip_request \<Rightarrow> bool" where
  "in_dialog_invite request =
     (case req_To request of None \<Rightarrow> False | Some to \<Rightarrow> ah_Params to ''tag'' \<noteq> None)"

text \<open>The handler of INVITE: \<open>handleReInvite\<close>, or a new task of \<open>handleInvite\<close>.\<close>

definition OnInvite ::
  "sip_pkg \<Rightarrow> (nat \<Rightarrow> go_error option) \<Rightarrow> ('b, 'm, 'o, 'c) command_wait \<Rightarrow> 's invite_env \<Rightarrow> sip_request \<Rightarrow> nat \<Rightarrow> engine
     \<Rightarrow> ('b, 'm, 'o, 'c) sessions \<Rightarrow> (('b, 'm, 'o, 'c) sessions \<times> sip_response list) option + 's invite_task" where
  "OnInvite sp readRequest cw iv request tx e ss =
     (if in_dialog_invite request then Inl (handleReInvite sp readRequest cw request tx e ss)
      else Inr (Arrived iv request))"

text \<open>The session a request names: one that runs, with the dialog of the request.\<close>

definition names_inbound :: "sip_pkg \<Rightarrow> sip_request \<Rightarrow> 's invite_task list \<Rightarrow> nat \<Rightarrow> bool" where
  "names_inbound sp request ts i \<longleftrightarrow>
     (\<exists>ident out. DialogIDFromRequestUAS sp request = Inr ident \<and> i < length ts \<and> ts ! i = InCall ident out)"

definition names_outbound :: "sip_pkg \<Rightarrow> sip_request \<Rightarrow> 's invite_task list \<Rightarrow> nat \<Rightarrow> bool" where
  "names_outbound sp request ts i \<longleftrightarrow>
     (\<exists>ident oid. DialogIDFromRequestUAC sp request = Inr oid \<and> i < length ts \<and> ts ! i = InCall ident (Some oid))"

text \<open>A handler that touches nothing but a session that satisfies \<open>P\<close>, or answers 481.\<close>

definition confined :: "(nat \<Rightarrow> bool) \<Rightarrow> ('b, 'm, 'o, 'c) sessions \<Rightarrow> (('b, 'm, 'o, 'c) sessions \<times> sip_response list) option \<Rightarrow> bool" where
  "confined P ss r \<longleftrightarrow>
     (\<forall>ss' rs. r = Some (ss', rs) \<longrightarrow>
        length rs \<le> 1 \<and> (ss' = ss \<and> rs = [no_transaction] \<or> (\<exists>i. P i \<and> (\<forall>j. j \<noteq> i \<longrightarrow> ss' j = ss j))))"

lemma confined_refused [simp]: "confined P ss (Some (ss, [no_transaction]))"
  by (simp add: confined_def)

lemma confined_answer: "P i \<Longrightarrow> (\<And>j. j \<noteq> i \<Longrightarrow> ss' j = ss j) \<Longrightarrow> confined P ss (Some (ss', [r]))"
  by (auto simp: confined_def)

lemma confined_dispatch: "P i \<Longrightarrow> (\<And>j. j \<noteq> i \<Longrightarrow> ss1 j = ss j) \<Longrightarrow> confined P ss (dispatch_command cw cmd i ss1)"
  by (auto simp: confined_def dispatch_command_def bind_eq_Some_conv)

lemma confined_map:
  "confined P ss r \<Longrightarrow> P i \<Longrightarrow> r = dispatch_command cw cmd i ss1 \<Longrightarrow> (\<And>j. j \<noteq> i \<Longrightarrow> ss1 j = ss j) \<Longrightarrow>
     confined P ss (map_option (apfst (\<lambda>ss. ss(i := f ss))) r)"
  by (auto simp: confined_def dispatch_command_def bind_eq_Some_conv)

lemma confined_bye: "P i \<Longrightarrow> confined P ss (bye_to arm cmd i ss)"
  by (auto simp: confined_def bye_to_def)

lemma find_inbound: "found_running ts e \<Longrightarrow> findInboundSession sp request e = Some i \<Longrightarrow> names_inbound sp request ts i"
  by (auto simp: findInboundSession_def names_inbound_def split: sum.splits dest!: found_running_in(1))

lemma find_outbound: "found_running ts e \<Longrightarrow> findOutboundSession sp request e = Some i \<Longrightarrow> names_outbound sp request ts i"
  by (auto simp: findOutboundSession_def names_outbound_def split: sum.splits dest!: found_running_in(2))

lemma find_own:
  "running_found dialogs ts e \<Longrightarrow> names_inbound sp request ts i \<Longrightarrow> findInboundSession sp request e = Some i"
  by (auto simp: running_found_def names_inbound_def findInboundSession_def)

lemma reinvite_confined:
  assumes "found_running ts e"
  shows "confined (names_inbound sp request ts) ss (handleReInvite sp rr cw request tx e ss)"
proof (cases "findInboundSession sp request e")
  case (Some i)
  note P = find_inbound [OF assms Some]
  obtain s1 ok where b: "beginReInvite (lv_session (ss i)) = (s1, ok)" by fastforce
  show ?thesis
    by (cases ok)
      (auto simp: handleReInvite_def Some b Let_def intro!: confined_answer [of "names_inbound sp request ts" i, OF P] confined_map [where P = "names_inbound sp request ts" and i = i, OF confined_dispatch [of "names_inbound sp request ts" i, OF P] P refl])
qed (simp add: handleReInvite_def)

lemma refer_confined:
  assumes "found_running ts e"
  shows "confined (names_inbound sp request ts) ss (handleRefer sp rr cw request tx e ss)"
proof (cases "findInboundSession sp request e")
  case (Some i)
  note P = find_inbound [OF assms Some]
  show ?thesis
    by (auto simp: handleRefer_def Some intro!: confined_answer [of "names_inbound sp request ts" i, OF P] confined_dispatch [of "names_inbound sp request ts" i, OF P])
qed (simp add: handleRefer_def)

lemma notify_confined:
  assumes "found_running ts e"
  shows "confined (names_outbound sp request ts) ss (handleNotify sp rr cw request tx e ss)"
proof (cases "findOutboundSession sp request e")
  case (Some i)
  note P = find_outbound [OF assms Some]
  show ?thesis
    by (auto simp: handleNotify_def Some intro!: confined_answer [of "names_outbound sp request ts" i, OF P] confined_dispatch [of "names_outbound sp request ts" i, OF P])
qed (simp add: handleNotify_def)

lemma bye_confined:
  assumes "found_running ts e"
  shows "confined (\<lambda>i. names_inbound sp request ts i \<or> names_outbound sp request ts i) ss (handleBye sp r1 r2 arm request tx e ss)"
proof -
  note P = find_inbound [OF assms, of sp request] and Q = find_outbound [OF assms, of sp request]
  show ?thesis
    by (auto simp: handleBye_def split: option.splits intro!: confined_bye dest!: P Q)
qed

lemma ack_confined:
  assumes "found_running ts e" and "\<not> names_inbound sp request ts j"
  shows "handleAck sp r request e ss j = ss j"
  using find_inbound [OF assms(1), of sp request] assms(2)
  by (auto simp: handleAck_def split: option.splits)

text \<open>C17: A request inside a dialog reaches the call it belongs to and no other. In every interleaving of
  the handlers, re-INVITE, REFER, NOTIFY and BYE touch at most one session, one that is running
  with the dialog the request names, and send at most one response themselves; otherwise they
  change nothing and answer 481. An ACK touches no other session either, and an INVITE is handled
  inside a dialog exactly when its To header has a tag. And when INVITEs get dialogs of their own, the BYE of the caller of
  a running call is queued as its hang-up.\<close>

theorem in_dialog_routed:
  assumes "NewEngine cfg registrations publisher clock client mediaFactory logger = Inr e0"
    and "(engine_step cfg st dialogs)\<^sup>*\<^sup>* ([], e0) (ts, e)"
  shows "(case OnInvite sp rr cw iv request tx e ss of
       Inl r \<Rightarrow> in_dialog_invite request \<and> confined (names_inbound sp request ts) ss r
     | Inr t \<Rightarrow> \<not> in_dialog_invite request \<and> t = Arrived iv request) \<and>
    (\<forall>j. \<not> names_inbound sp request ts j \<longrightarrow> handleAck sp r1 request e ss j = ss j) \<and>
    confined (names_inbound sp request ts) ss (handleRefer sp rr cw request tx e ss) \<and>
    confined (names_outbound sp request ts) ss (handleNotify sp rr cw request tx e ss) \<and>
    confined (\<lambda>i. names_inbound sp request ts i \<or> names_outbound sp request ts i) ss (handleBye sp r1 r2 arm request tx e ss) \<and>
    (own_dialogs dialogs \<and> names_inbound sp request ts i \<and> length (ch_buf (lv_commands (ss i))) < ch_cap (lv_commands (ss i)) \<longrightarrow>
      (\<exists>lv. handleBye sp None r2 EnqueueSent request tx e ss = Some (ss(i := lv), []) \<and> lv_session lv = lv_session (ss i) \<and>
         ch_buf (lv_commands lv) = ch_buf (lv_commands (ss i)) @ [hangup_command hangupCaller request tx]))"
proof -
  have found: "found_running ts e"
    using engine_reached [OF assms(2) NewEngine_inv [OF assms(1)]] by (simp add: engine_inv_def)
  have "findInboundSession sp request e = Some i" if "own_dialogs dialogs" "names_inbound sp request ts i"
    using engine_reached_own [OF assms(2) that(1)] find_own [OF _ that(2)] by (simp add: empty_found)
  then show ?thesis
    using reinvite_confined [OF found] refer_confined [OF found] notify_confined [OF found] bye_confined [OF found]
      ack_confined [OF found]
    by (auto simp: OnInvite_def handleBye_def bye_to_def enqueue_def chan_send_def)
qed

subsection \<open>A concrete engine\<close>

definition desk_cfg :: b2b_config where
  "desk_cfg = be_cfg call_env"

definition desk_engine :: engine where
  "desk_engine = \<lparr>eg_stopping = False, eg_reserved = 0, eg_byInbound = Map.empty, eg_byOutbound = Map.empty, eg_wg = 0\<rparr>"

lemma desk_New: "NewEngine desk_cfg (Some ()) (Some ()) (Some ()) (Some ()) (Some ()) (Some ()) = Inr desk_engine"
  by (simp add: NewEngine_def desk_cfg_def call_env_def desk_engine_def MaxMailboxCapacity_def Second_def)

definition desk_dialogs :: "nat \<Rightarrow> string result" where
  "desk_dialogs i = Inr (replicate i CHR ''d'')"

lemma desk_own: "own_dialogs desk_dialogs"
  by (auto simp: own_dialogs_def desk_dialogs_def)

definition desk_iv :: "memory invite_env" where
  "desk_iv = \<lparr>iv_bindings = sample_memory, iv_ctx = context_Background, iv_listed = 120, iv_now = 7,
     iv_uuid1 = Inr ''c'', iv_uuid2 = Inr ''a'', iv_uuid3 = Inr ''b'', iv_clock = (\<lambda>k. 100 + int k)\<rparr>"

definition desk_invite :: sip_request where
  "desk_invite = call_invite\<lparr>req_From := Some (call_header ''bob''), req_To := Some (call_header ''alice''),
     req_Source := ''h1:5060'', req_Transport := ''UDP''\<rparr>"

lemma desk_lower: "strings_ToLower ''UDP'' = ''udp''"
  by code_simp

lemma desk_aor: "caller_aor desk_cfg (call_header ''bob'') = ''sip:bob@pbx''"
  by (simp add: caller_aor_def desk_cfg_def call_env_def call_header_def)

lemma desk_binding: "matching desk_cfg sample_memory 120 desk_invite (call_header ''bob'') sample_binding"
proof -
  have "bc_TenantID desk_cfg = ''t''" by (simp add: desk_cfg_def call_env_def)
  then show ?thesis
    by (auto simp: matching_def desk_aor desk_lower desk_invite_def bindings_of_def sample_memory_def sample_binding_def active_def)
qed

lemma desk_admit: "check_invite desk_cfg (memory_store sample_picks) (Inr ident) desk_iv desk_invite = Start ident sample_call sample_actor"
proof -
  have "sourceIsRegistered desk_cfg (memory_store sample_picks) context_Background 120 (caller_aor desk_cfg (call_header ''bob''))
      (req_Source desk_invite) (req_Transport desk_invite) sample_memory = Inr True"
    using source_registered [OF memory_reached(1) [OF sample_directory]] desk_binding by (auto simp: context_Background_def)
  moreover have "bc_TenantID desk_cfg = ''t''" "bc_NodeID desk_cfg = ''n''" "bc_MailboxSize desk_cfg = 4"
    by (simp_all add: desk_cfg_def call_env_def)
  ultimately show ?thesis
    using sample_New sample_NewActor
    by (simp add: check_invite_def desk_iv_def desk_invite_def call_header_def)
qed

definition desk_busy :: engine where
  "desk_busy = desk_engine\<lparr>eg_reserved := 1, eg_byInbound := [[] \<mapsto> 0], eg_wg := 1\<rparr>"

definition desk_closed :: engine where
  "desk_closed = desk_engine\<lparr>eg_stopping := True\<rparr>"

abbreviation desk_step :: "memory invite_task list \<times> engine \<Rightarrow> memory invite_task list \<times> engine \<Rightarrow> bool" where
  "desk_step \<equiv> engine_step desk_cfg (memory_store sample_picks) desk_dialogs"

lemma desk_proceed:
  "invite_step desk_cfg (memory_store sample_picks) desk_dialogs (length ts) ev t e = Some (t', e') \<Longrightarrow>
     desk_step (ts @ [t], e) (ts @ [t'], e')"
  using proceed [of "length ts" "ts @ [t]" desk_cfg "memory_store sample_picks" desk_dialogs ev e t' e'] by simp

lemma desk_limit: "bc_MaxActiveCalls desk_cfg = 2"
  by (simp add: desk_cfg_def call_env_def)

lemma desk_up: "desk_step\<^sup>*\<^sup>* ([], desk_engine) ([InCall [] None], desk_busy)"
proof -
  let ?e1 = "desk_engine\<lparr>eg_reserved := 1, eg_wg := 1\<rparr>"
  have "desk_step\<^sup>*\<^sup>* ([], desk_engine) ([], desk_engine)" by simp
  also have "desk_step ([], desk_engine) ([Arrived desk_iv desk_invite], desk_engine)"
    using arrive [of _ _ _ "[]"] by simp
  also have "desk_step ([Arrived desk_iv desk_invite], desk_engine) ([Reserved desk_iv desk_invite], ?e1)"
    by (rule desk_proceed [of "[]", simplified]) (simp add: reserve_def desk_limit desk_engine_def)
  also have "desk_step ([Reserved desk_iv desk_invite], ?e1) ([Entering [] sample_call sample_actor], ?e1)"
    by (rule desk_proceed [of "[]", simplified]) (simp add: desk_dialogs_def desk_admit)
  also have "desk_step ([Entering [] sample_call sample_actor], ?e1) ([InCall [] None], desk_busy)"
    by (rule desk_proceed [of "[]", simplified]) (simp add: desk_busy_def desk_engine_def)
  finally show ?thesis .
qed

lemma desk_down: "desk_step\<^sup>*\<^sup>* ([], desk_engine) ([Returned None], desk_closed)"
proof -
  let ?e2 = "desk_engine\<lparr>eg_wg := 1\<rparr>"
  note desk_up
  also have "desk_step ([InCall [] None], desk_busy) ([Leaving], ?e2)"
    by (rule desk_proceed [of "[]", where ev = RunEnd, simplified]) (auto simp: remove_def desk_busy_def desk_engine_def)
  also have "desk_step ([Leaving], ?e2) ([Leaving], Wait_stop ?e2)" by (rule stop)
  also have "desk_step ([Leaving], Wait_stop ?e2) ([Returned None], desk_closed)"
    by (rule desk_proceed [of "[]", simplified]) (simp add: Wait_stop_def wg_Done_def desk_closed_def desk_engine_def)
  finally show ?thesis .
qed

lemma desk_after: "desk_step\<^sup>*\<^sup>* ([Returned None], desk_closed) ([Returned None, Returned (Some busy)], desk_closed)"
proof -
  have "desk_step\<^sup>*\<^sup>* ([Returned None], desk_closed) ([Returned None], desk_closed)" by simp
  also have "desk_step ([Returned None], desk_closed) ([Returned None, Arrived desk_iv desk_invite], desk_closed)"
    using arrive [of _ _ _ "[Returned None]"] by simp
  also have "desk_step ([Returned None, Arrived desk_iv desk_invite], desk_closed) ([Returned None, Returned (Some busy)], desk_closed)"
    by (rule desk_proceed [of "[Returned None]", simplified]) (simp add: reserve_def desk_closed_def)
  finally show ?thesis .
qed

theorem engine_admission_witness:
  "eg_reserved desk_busy = places [InCall [] None :: memory invite_task] \<and> found_running [InCall [] None :: memory invite_task] desk_busy \<and>
   running_found desk_dialogs [InCall [] None :: memory invite_task] desk_busy"
  using engine_admission [OF desk_New desk_up] desk_own by blast

theorem engine_drained_witness:
  "Wait_returns desk_closed \<and> places [Returned None, Returned (Some busy) :: memory invite_task] = 0 \<and>
   eg_byInbound desk_closed = Map.empty"
proof -
  have "Wait_returns desk_closed" by (simp add: Wait_returns_def desk_closed_def desk_engine_def)
  with engine_drained [OF desk_New desk_down desk_after] show ?thesis by blast
qed

theorem invite_registered_witness:
  "(\<exists>b. matching desk_cfg sample_memory 120 desk_invite (call_header ''bob'') b) \<and>
   check_invite desk_cfg (memory_store sample_picks) (Inr ''d'') desk_iv (desk_invite\<lparr>req_Source := ''h9:5060''\<rparr>) =
     Refuse (NewResponse StatusForbidden ''Forbidden'' [])"
proof -
  have away: "\<not> matching desk_cfg sample_memory 120 (desk_invite\<lparr>req_Source := ''h9:5060''\<rparr>) (call_header ''bob'') b" for b
    by (auto simp: matching_def bindings_of_def sample_memory_def sample_binding_def split: if_splits)
  have sel: "iv_bindings desk_iv = sample_memory" "iv_listed desk_iv = 120" "req_From desk_invite = Some (call_header ''bob'')"
    "req_To desk_invite = Some (call_header ''alice'')" "uri_User (ah_Address (call_header u)) = u" for u
    by (simp_all add: desk_iv_def desk_invite_def call_header_def)
  have here: "\<exists>b. matching desk_cfg (iv_bindings desk_iv) (iv_listed desk_iv) desk_invite (call_header ''bob'') b"
    using invite_registered [where iv = desk_iv and p = sample_picks and request = desk_invite and h = "call_header ''bob''"
        and to = "call_header ''alice''" and cfg = desk_cfg and dialog = "Inr ''d''", THEN conjunct1, rule_format, OF _ _ _ _ _ desk_admit]
      sample_directory sel by simp
  have "check_invite desk_cfg (memory_store sample_picks) (Inr ''d'') desk_iv (desk_invite\<lparr>req_Source := ''h9:5060''\<rparr>) =
      Refuse (NewResponse StatusForbidden ''Forbidden'' [])"
    by (rule invite_registered [where h = "call_header ''bob''" and to = "call_header ''alice''", THEN conjunct2, rule_format])
      (use sample_directory sel away in simp_all)
  then show ?thesis using here sel(1,2) by simp
qed

definition desk_pkg :: sip_pkg where
  "desk_pkg = (be_sip call_env)\<lparr>DialogIDFromRequestUAS := \<lambda>_. Inr []\<rparr>"

definition desk_sessions :: "((event chan, event, nat) bus_history, unit, nat, nat) sessions" where
  "desk_sessions i = \<lparr>lv_session = call_session, lv_commands = chan_make 4, lv_done = False\<rparr>"

theorem in_dialog_routed_witness:
  "\<exists>lv. handleBye desk_pkg None None EnqueueSent desk_invite 3 desk_busy desk_sessions = Some (desk_sessions(0 := lv), []) \<and>
     ch_buf (lv_commands lv) = [hangup_command hangupCaller desk_invite 3]"
proof -
  have "names_inbound desk_pkg desk_invite [InCall [] None :: memory invite_task] 0"
    by (simp add: names_inbound_def desk_pkg_def)
  moreover have "ch_buf (lv_commands (desk_sessions 0)) = []" "ch_cap (lv_commands (desk_sessions 0)) = 4"
    by (simp_all add: desk_sessions_def)
  ultimately show ?thesis
    using in_dialog_routed [OF desk_New desk_up, where sp = desk_pkg and request = desk_invite and ss = desk_sessions and i = 0
        and tx = 3 and ?r2.0 = None, THEN conjunct2, THEN conjunct2, THEN conjunct2, THEN conjunct2, THEN conjunct2] desk_own
    by auto
qed

end
