(* ===== verification/Registrar.thy ===== *)
theory Registrar
  imports Sip Digest_Auth Memory_Store
begin

text \<open>
  \<open>internal/sip/registrar\<close>: the handler of REGISTER requests. It authenticates the request, turns
  each contact into a request to the registration manager and answers with the bindings that are
  active. The state is the store of the manager, the authenticator and the responses passed to the
  server transaction; \<open>register_env\<close> is what the surroundings supply during one transaction. A
  context, a clock reading or a fresh identifier that is obtained anew at every use is a sequence:
  \<open>Verify\<close> runs in context 0 and reads the clock as 0 and 1, \<open>Challenge\<close> as 2, the list of bindings
  runs in context 1 and reads the clock as 3 and 4, and the contact number \<open>i\<close> has the context
  \<open>2 + i\<close>, the reading \<open>5 + i\<close> and the identifier \<open>i\<close>.
\<close>

subsection \<open>Data\<close>

record registrar_config =
  rc_Realm :: string
  rc_DefaultExpires :: duration
  rc_MinExpires :: duration
  rc_MaxExpires :: duration
  rc_TransactionTimeout :: duration

definition statusIntervalTooBrief :: int where "statusIntervalTooBrief = 423"

definition errIntervalTooBrief :: go_error where
  "errIntervalTooBrief = Sentinel ''registration interval too brief''"

definition errResponseFailed :: go_error where
  "errResponseFailed = Sentinel ''sip response failed''"

record 's registrar =
  rg_store :: 's
  rg_auth :: authenticator
  rg_sent :: "sip_response list"

record register_env =
  en_sip :: sip_pkg
  en_digest :: digest_pkg
  en_lookup :: lookup_credential
  en_respond :: "sip_response list \<Rightarrow> sip_response \<Rightarrow> go_error option"
  en_ctx :: "nat \<Rightarrow> ctx"
  en_now :: "nat \<Rightarrow> time"
  en_uuid :: "nat \<Rightarrow> string result"
  en_random :: "go_error + (nat \<Rightarrow> byte)"

definition NewHandler ::
  "registrar_config \<Rightarrow> 'a option \<Rightarrow> 'm option \<Rightarrow> (registrar_config \<times> 'a \<times> 'm) result" where
  "NewHandler cfg auth manager =
     (if rc_Realm cfg = [] then Inl (Errorf ''registrar realm is required'')
      else if rc_MinExpires cfg \<le> 0 \<or> rc_DefaultExpires cfg < rc_MinExpires cfg
              \<or> rc_MaxExpires cfg < rc_DefaultExpires cfg
      then Inl (Errorf ''registration expiration bounds are invalid'')
      else if rc_TransactionTimeout cfg \<le> 0 then Inl (Errorf ''transaction timeout must be positive'')
      else case auth of
             None \<Rightarrow> Inl (Errorf ''authenticator is required'')
           | Some a \<Rightarrow>
               (case manager of
                  None \<Rightarrow> Inl (Errorf ''registration manager is required'')
                | Some m \<Rightarrow> Inr (cfg, a, m)))"

subsection \<open>Reading the request\<close>

definition parse_expires :: "string \<Rightarrow> int option" where
  "parse_expires value =
     (case ParseInt 32 value of None \<Rightarrow> None | Some n \<Rightarrow> if n < 0 then None else Some n)"

definition contactExpires :: "registrar_config \<Rightarrow> sip_request \<Rightarrow> address_header \<Rightarrow> duration result" where
  "contactExpires cfg request contact =
     (let header_seconds =
            (case req_GetHeader request ''Expires'' of
               None \<Rightarrow> Inr (go_div (rc_DefaultExpires cfg) Second)
             | Some value \<Rightarrow>
                 (case parse_expires value of
                    None \<Rightarrow> Inl (Errorf ''invalid Expires header'')
                  | Some n \<Rightarrow> Inr n))
      in case header_seconds of
           Inl e \<Rightarrow> Inl e
         | Inr n \<Rightarrow>
             (let seconds =
                    (case ah_Params contact ''expires'' of
                       None \<Rightarrow> Inr n
                     | Some value \<Rightarrow>
                         (case parse_expires value of
                            None \<Rightarrow> Inl (Errorf ''invalid Contact expires parameter'')
                          | Some n' \<Rightarrow> Inr n'))
              in case seconds of
                   Inl e \<Rightarrow> Inl e
                 | Inr secs \<Rightarrow>
                     if secs = 0 then Inr 0
                     else
                       let d = int64 (secs * Second)
                       in if d < rc_MinExpires cfg then Inl errIntervalTooBrief
                          else if rc_MaxExpires cfg < d then Inr (rc_MaxExpires cfg)
                          else Inr d))"

definition parseTransport :: "string \<Rightarrow> string result" where
  "parseTransport value =
     (let t = strings_ToLower value
      in if t = ''udp'' \<or> t = '''' then Inr TransportUDP
         else if t = ''tcp'' then Inr TransportTCP
         else Inl (Errorf ''unsupported transport %q''))"

definition parseQ :: "address_header \<Rightarrow> float32 result" where
  "parseQ contact =
     (case ah_Params contact ''q'' of
        None \<Rightarrow> Inr (Fin 1)
      | Some value \<Rightarrow>
          (case ParseFloat32 value of
             None \<Rightarrow> Inl (Errorf ''q value must be between 0 and 1'')
           | Some parsed \<Rightarrow>
               if fl_less parsed (Fin 0) \<or> fl_less (Fin 1) parsed
               then Inl (Errorf ''q value must be between 0 and 1'')
               else Inr parsed))"

definition headerValue :: "string option \<Rightarrow> nat \<Rightarrow> string" where
  "headerValue header maxLength =
     (case header of
        None \<Rightarrow> []
      | Some value \<Rightarrow> if maxLength < length value then take maxLength value else value)"

subsection \<open>Answering\<close>

definition registrar_respond ::
  "register_env \<Rightarrow> sip_response \<Rightarrow> 's registrar \<Rightarrow> 's registrar \<times> go_error option" where
  "registrar_respond en response h =
     (h\<lparr>rg_sent := rg_sent h @ [response]\<rparr>,
      case en_respond en (rg_sent h) response of
        None \<Rightarrow> None
      | Some e \<Rightarrow> Some (Wrapf ''%w: respond to REGISTER: %w'' (Joined [errResponseFailed, e])))"

text \<open>The \<open>Contact\<close> header of one active binding, with its remaining lifetime in seconds.\<close>

definition binding_contact :: "sip_pkg \<Rightarrow> time \<Rightarrow> binding \<Rightarrow> sip_header result" where
  "binding_contact sp now b =
     (case ParseUri sp (bi_Contact b) of
        Inl e \<Rightarrow> Inl (Wrapf ''parse stored contact: %w'' e)
      | Inr uri \<Rightarrow>
          Inr (ContactHeader
                 \<lparr>ah_Address = uri,
                  ah_Params = [''expires'' \<mapsto> Itoa (nat (max 0 (go_div (bi_ExpiresAt b - now) Second)))]\<rparr>))"

fun append_bindings :: "sip_pkg \<Rightarrow> time \<Rightarrow> binding list \<Rightarrow> sip_response \<Rightarrow> sip_response result" where
  "append_bindings sp now [] response = Inr response"
| "append_bindings sp now (b # bs) response =
     (case binding_contact sp now b of
        Inl e \<Rightarrow> Inl e
      | Inr c \<Rightarrow> append_bindings sp now bs (AppendHeader c response))"

definition respondBindings ::
  "'s registration_store \<Rightarrow> register_env \<Rightarrow> string \<Rightarrow> string \<Rightarrow> 's registrar \<Rightarrow> 's registrar \<times> go_error option" where
  "respondBindings st en tenantID aor h =
     (case manager_List st (en_ctx en 1) (en_now en 3) tenantID aor (rg_store h) of
        Inl e \<Rightarrow> (h, Some (Wrapf ''list response bindings: %w'' e))
      | Inr bindings \<Rightarrow>
          (case append_bindings (en_sip en) (en_now en 4) bindings (NewResponse StatusOK ''OK'' []) of
             Inl e \<Rightarrow> (h, Some e)
           | Inr response \<Rightarrow> registrar_respond en response h))"

subsection \<open>The handler\<close>

definition user_aor :: "credential \<Rightarrow> string" where
  "user_aor cred = ''sip:'' @ cred_Username cred @ ''@'' @ cred_Realm cred"

text \<open>The request to the manager for one contact.\<close>

definition contact_request ::
  "sip_pkg \<Rightarrow> credential \<Rightarrow> addr_port \<Rightarrow> string \<Rightarrow> string \<Rightarrow> address_header \<Rightarrow> float32 \<Rightarrow> duration \<Rightarrow> request" where
  "contact_request sp cred received transport userAgent contact q expires =
     \<lparr>rq_TenantID = cred_TenantID cred, rq_AoR = user_aor cred,
      rq_Contact = (if uri_Wildcard (ah_Address contact) then ''*'' else uri_Addr sp (ah_Address contact)),
      rq_RouteTarget = ap_String received, rq_Transport = transport, rq_Received = received,
      rq_UserAgent = userAgent, rq_Q = q, rq_Expires = expires, rq_MaxBindings = cred_MaxBindings cred\<rparr>"

text \<open>The loop over the contacts; \<open>None\<close> as its last result means that every contact was applied.\<close>

fun apply_contacts ::
  "'s registration_store \<Rightarrow> registrar_config \<Rightarrow> register_env \<Rightarrow> sip_request \<Rightarrow> credential \<Rightarrow> addr_port
     \<Rightarrow> string \<Rightarrow> string \<Rightarrow> nat \<Rightarrow> sip_header list \<Rightarrow> 's registrar
     \<Rightarrow> 's registrar \<times> go_error option option" where
  "apply_contacts st cfg en request cred received transport userAgent i [] h = (h, None)"
| "apply_contacts st cfg en request cred received transport userAgent i (Header n v # hs) h =
     map_prod id Some (registrar_respond en (NewResponse StatusBadRequest ''Bad Contact'' []) h)"
| "apply_contacts st cfg en request cred received transport userAgent i (ContactHeader contact # hs) h =
     (case contactExpires cfg request contact of
        Inl e \<Rightarrow>
          map_prod id Some (registrar_respond en
            (if errors_Is e errIntervalTooBrief
             then AppendHeader (Header ''Min-Expires'' (Itoa (nat (go_div (rc_MinExpires cfg) Second))))
                    (NewResponse statusIntervalTooBrief ''Interval Too Brief'' [])
             else NewResponse StatusBadRequest ''Bad Expires'' []) h)
      | Inr expires \<Rightarrow>
          (case parseQ contact of
             Inl _ \<Rightarrow> map_prod id Some (registrar_respond en (NewResponse StatusBadRequest ''Bad Contact'' []) h)
           | Inr q \<Rightarrow>
               (case manager_Apply st (en_ctx en (2 + i)) (en_now en (5 + i)) (en_uuid en i)
                       (contact_request (en_sip en) cred received transport userAgent contact q expires) (rg_store h) of
                  (s, Inl e) \<Rightarrow>
                    if IsBindingLimit (Some e)
                    then map_prod id Some (registrar_respond en
                           (NewResponse StatusForbidden ''Binding Limit Reached'' []) (h\<lparr>rg_store := s\<rparr>))
                    else (h\<lparr>rg_store := s\<rparr>, Some (Some (Wrapf ''apply registration: %w'' e)))
                | (s, Inr _) \<Rightarrow>
                    apply_contacts st cfg en request cred received transport userAgent (Suc i) hs
                      (h\<lparr>rg_store := s\<rparr>))))"

definition registrar_register ::
  "'s registration_store \<Rightarrow> registrar_config \<Rightarrow> register_env \<Rightarrow> sip_request \<Rightarrow> credential \<Rightarrow> 's registrar
     \<Rightarrow> 's registrar \<times> go_error option" where
  "registrar_register st cfg en request cred h =
     (let aor = user_aor cred; contactHeaders = req_GetHeaders request ''Contact''
      in if contactHeaders = [] then respondBindings st en (cred_TenantID cred) aor h
         else case ParseAddrPort (req_Source request) of
           Inl _ \<Rightarrow> registrar_respond en (NewResponse StatusBadRequest ''Bad Request'' []) h
         | Inr received \<Rightarrow>
             (case parseTransport (req_Transport request) of
                Inl _ \<Rightarrow> registrar_respond en (NewResponse StatusUnsupportedMediaType ''Unsupported Transport'' []) h
              | Inr transport \<Rightarrow>
                  (let userAgent = headerValue (req_GetHeader request ''User-Agent'') 255
                   in case apply_contacts st cfg en request cred received transport userAgent 0 contactHeaders h of
                        (h', Some err) \<Rightarrow> (h', err)
                      | (h', None) \<Rightarrow> respondBindings st en (cred_TenantID cred) aor h')))"

definition registrar_challenge ::
  "register_env \<Rightarrow> bool \<Rightarrow> 's registrar \<Rightarrow> 's registrar \<times> go_error option" where
  "registrar_challenge en stale h =
     (case Challenge (en_digest en) (rg_auth h) (en_now en 2) (en_random en) stale of
        Inl e \<Rightarrow> (h, Some (Wrapf ''create digest challenge: %w'' e))
      | Inr challenge \<Rightarrow>
          registrar_respond en
            (AppendHeader (Header ''WWW-Authenticate'' challenge) (NewResponse StatusUnauthorized ''Unauthorized'' [])) h)"

definition registrar_handle ::
  "'s registration_store \<Rightarrow> registrar_config \<Rightarrow> register_env \<Rightarrow> sip_request \<Rightarrow> 's registrar
     \<Rightarrow> 's registrar \<times> go_error option" where
  "registrar_handle st cfg en request h =
     (case req_To request of
        None \<Rightarrow> registrar_respond en (NewResponse StatusBadRequest ''Bad Request'' []) h
      | Some to \<Rightarrow>
          if uri_User (ah_Address to) = [] \<or> uri_Host (ah_Address to) \<noteq> rc_Realm cfg
          then registrar_respond en (NewResponse StatusBadRequest ''Bad Request'' []) h
          else
            let authorization = (case req_GetHeader request ''Authorization'' of None \<Rightarrow> [] | Some v \<Rightarrow> v);
                (a, verified) = Verify (en_digest en) (en_lookup en) (en_ctx en 0) (en_now en 0) (en_now en 1)
                   (req_Method request) (uri_Addr (en_sip en) (req_Recipient request)) authorization (rg_auth h);
                h' = h\<lparr>rg_auth := a\<rparr>
            in case verified of
                 Inl e \<Rightarrow> registrar_challenge en (errors_Is e ErrStaleNonce) h'
               | Inr cred \<Rightarrow>
                   if cred_Username cred \<noteq> uri_User (ah_Address to) then registrar_challenge en False h'
                   else registrar_register st cfg en request cred h')"

definition registrar_Handle ::
  "'s registration_store \<Rightarrow> registrar_config \<Rightarrow> register_env \<Rightarrow> sip_request \<Rightarrow> 's registrar \<Rightarrow> 's registrar" where
  "registrar_Handle st cfg en request h =
     (case registrar_handle st cfg en request h of
        (h', None) \<Rightarrow> h'
      | (h', Some err) \<Rightarrow>
          if errors_Is err errResponseFailed then h'
          else fst (registrar_respond en (NewResponse StatusInternalServerError ''Server Internal Error'' []) h'))"

subsection \<open>What a REGISTER may change\<close>



definition same_elsewhere :: "string \<Rightarrow> string \<Rightarrow> directory \<Rightarrow> directory \<Rightarrow> bool" where
  "same_elsewhere t a m m' = (\<forall>k. \<not> (fst k = t \<and> fst (snd k) = a) \<longrightarrow> m' k = m k)"

text \<open>Lifetimes of all bindings lie within the bounds of the configuration.\<close>

definition lifetimes_ok :: "registrar_config \<Rightarrow> directory \<Rightarrow> bool" where
  "lifetimes_ok cfg m =
     (\<forall>k b. m k = Some b \<longrightarrow>
        rc_MinExpires cfg \<le> bi_ExpiresAt b - bi_UpdatedAt b \<and> bi_ExpiresAt b - bi_UpdatedAt b \<le> rc_MaxExpires cfg)"

lemma same_elsewhere_refl [simp]: "same_elsewhere t a m m"
  by (simp add: same_elsewhere_def)

lemma same_elsewhere_trans: "same_elsewhere t a m m' \<Longrightarrow> same_elsewhere t a m' m'' \<Longrightarrow> same_elsewhere t a m m''"
  by (simp add: same_elsewhere_def)

lemma lifetimes_ok_removed [simp]:
  "lifetimes_ok cfg m \<Longrightarrow> lifetimes_ok cfg (m(k := None))"
  "lifetimes_ok cfg m \<Longrightarrow> lifetimes_ok cfg (without_aor t a m)"
  "lifetimes_ok cfg m \<Longrightarrow> lifetimes_ok cfg (without_expired now m)"
  by (auto simp: lifetimes_ok_def without_aor_def without_expired_def split: option.splits if_splits)

lemma parse_expires_range: "parse_expires s = Some n \<Longrightarrow> 0 \<le> n \<and> n < 2 ^ 31"
  using ParseInt_bound [of 32 s] by (auto simp: parse_expires_def split: option.splits if_splits)

lemma contactExpires_bounds:
  assumes "contactExpires cfg request contact = Inr d" and "rc_MinExpires cfg \<le> rc_MaxExpires cfg"
  shows "d = 0 \<or> rc_MinExpires cfg \<le> d \<and> d \<le> rc_MaxExpires cfg"
  using assms by (auto simp: contactExpires_def Let_def split: option.splits if_splits sum.splits)

lemma registrar_respond_sel [simp]:
  "rg_store (fst (registrar_respond en r h)) = rg_store h"
  "rg_auth (fst (registrar_respond en r h)) = rg_auth h"
  "rg_sent (fst (registrar_respond en r h)) = rg_sent h @ [r]"
  by (simp_all add: registrar_respond_def)

lemma respondBindings_store [simp]: "rg_store (fst (respondBindings st en t a h)) = rg_store h"
  by (simp add: respondBindings_def split: sum.splits)

lemma registrar_challenge_store [simp]: "rg_store (fst (registrar_challenge en stale h)) = rg_store h"
  by (simp add: registrar_challenge_def split: sum.splits)

lemma unchanged_store:
  "registrar_respond en r h = (h', e) \<Longrightarrow> rg_store h' = rg_store h"
  "respondBindings st en t a h = (h', e) \<Longrightarrow> rg_store h' = rg_store h"
  "registrar_challenge en stale h = (h', e) \<Longrightarrow> rg_store h' = rg_store h"
  by (metis fst_conv registrar_respond_sel(1), metis fst_conv respondBindings_store,
      metis fst_conv registrar_challenge_store)

context registration_contract
begin

lemma apply_effect:
  assumes "inv s" and "manager_Apply st c now uuid rq s = (s', r)"
  shows "inv s'" and "same_elsewhere (rq_TenantID rq) (rq_AoR rq) (bound s) (bound s')"
    and "rq_Expires rq = 0 \<or> rc_MinExpires cfg \<le> rq_Expires rq \<and> rq_Expires rq \<le> rc_MaxExpires cfg \<Longrightarrow>
      0 < rc_MinExpires cfg \<Longrightarrow> lifetimes_ok cfg (bound s) \<Longrightarrow> lifetimes_ok cfg (bound s')"
proof -
  have d: "inv s' \<and> bound s' = applied rq r (bound s)" by (rule apply_directory [OF assms])
  then show "inv s'" by simp
  have key: "requested now rq b" if "r = Inr b" "0 < rq_Expires rq" for b
    using apply_requested [of c now uuid rq s s' b] assms(2) that by simp
  show "same_elsewhere (rq_TenantID rq) (rq_AoR rq) (bound s) (bound s')"
    using d key
    by (auto simp: same_elsewhere_def applied_def without_aor_def requested_def split: sum.splits)
  show "lifetimes_ok cfg (bound s')"
    if "rq_Expires rq = 0 \<or> rc_MinExpires cfg \<le> rq_Expires rq \<and> rq_Expires rq \<le> rc_MaxExpires cfg"
      "0 < rc_MinExpires cfg" "lifetimes_ok cfg (bound s)"
  proof (cases r)
    case (Inl e)
    then show ?thesis using d that(3) by (simp add: applied_def)
  next
    case (Inr b)
    then show ?thesis
      using d key [OF Inr] that
      by (auto simp: applied_def requested_def lifetimes_ok_def without_aor_def)
  qed
qed

lemma contacts_effect:
  assumes "inv (rg_store h)"
    and "apply_contacts st cfg en request cred received transport userAgent i hs h = (h', r)"
  shows "inv (rg_store h') \<and> rg_auth h' = rg_auth h
    \<and> same_elsewhere (cred_TenantID cred) (user_aor cred) (bound (rg_store h)) (bound (rg_store h'))
    \<and> (0 < rc_MinExpires cfg \<longrightarrow> rc_MinExpires cfg \<le> rc_MaxExpires cfg \<longrightarrow> lifetimes_ok cfg (bound (rg_store h))
         \<longrightarrow> lifetimes_ok cfg (bound (rg_store h')))"
  using assms
proof (induction hs arbitrary: i h h' r)
  case (Cons hd hs)
  show ?case
  proof (cases hd)
    case (Header n v)
    with Cons.prems show ?thesis by (auto simp: registrar_respond_def)
  next
    case (ContactHeader contact)
    show ?thesis
    proof (cases "contactExpires cfg request contact")
      case (Inl e)
      with ContactHeader Cons.prems show ?thesis by (auto simp: registrar_respond_def)
    next
      case expires: (Inr d)
      show ?thesis
      proof (cases "parseQ contact")
        case (Inl e)
        with ContactHeader Cons.prems expires show ?thesis by (auto simp: registrar_respond_def)
      next
        case q: (Inr q)
        obtain s res where ap: "manager_Apply st (en_ctx en (2 + i)) (en_now en (5 + i)) (en_uuid en i)
            (contact_request (en_sip en) cred received transport userAgent contact q d) (rg_store h) = (s, res)"
          by fastforce
        note eff = apply_effect(1,2) [OF Cons.prems(1) ap] apply_effect(3) [OF Cons.prems(1) ap, where cfg = cfg]
        have d: "d = 0 \<or> rc_MinExpires cfg \<le> d \<and> d \<le> rc_MaxExpires cfg"
          if "rc_MinExpires cfg \<le> rc_MaxExpires cfg"
          using contactExpires_bounds [OF expires that] .
        show ?thesis
        proof (cases res)
          case (Inl e)
          then have "rg_store h' = s \<and> rg_auth h' = rg_auth h"
            using Cons.prems(2) ContactHeader expires q ap
            by (auto simp: registrar_respond_def split: if_splits)
          then show ?thesis using eff d by (simp add: contact_request_def)
        next
          case (Inr b)
          then have "apply_contacts st cfg en request cred received transport userAgent (Suc i) hs
              (h\<lparr>rg_store := s\<rparr>) = (h', r)"
            using Cons.prems(2) ContactHeader expires q ap by simp
          from Cons.IH [OF _ this] eff d show ?thesis
            by (auto simp: contact_request_def intro: same_elsewhere_trans)
        qed
      qed
    qed
  qed
qed simp

end

text \<open>The request carries credentials of the user it registers.\<close>

definition authenticated :: "register_env \<Rightarrow> sip_request \<Rightarrow> authenticator \<Rightarrow> credential \<Rightarrow> bool" where
  "authenticated en request a cred =
     (\<exists>to. req_To request = Some to \<and> uri_User (ah_Address to) = cred_Username cred
        \<and> snd (Verify (en_digest en) (en_lookup en) (en_ctx en 0) (en_now en 0) (en_now en 1)
                (req_Method request) (uri_Addr (en_sip en) (req_Recipient request))
                (case req_GetHeader request ''Authorization'' of None \<Rightarrow> [] | Some v \<Rightarrow> v) a) = Inr cred)"

context registration_contract
begin

definition keeps :: "registrar_config \<Rightarrow> 's \<Rightarrow> 's \<Rightarrow> bool" where
  "keeps cfg s s' =
     (inv s' \<and> (0 < rc_MinExpires cfg \<longrightarrow> rc_MinExpires cfg \<le> rc_MaxExpires cfg
        \<longrightarrow> lifetimes_ok cfg (bound s) \<longrightarrow> lifetimes_ok cfg (bound s')))"

lemma register_effect:
  assumes "inv (rg_store h)" and "registrar_register st cfg en request cred h = (h', r)"
  shows "keeps cfg (rg_store h) (rg_store h')
    \<and> same_elsewhere (cred_TenantID cred) (user_aor cred) (bound (rg_store h)) (bound (rg_store h'))"
proof -
  have same: "keeps cfg (rg_store h) (rg_store h)" using assms(1) by (simp add: keeps_def)
  consider "req_GetHeaders request ''Contact'' = []" | e where "ParseAddrPort (req_Source request) = Inl e"
    | received e where "ParseAddrPort (req_Source request) = Inr received"
        "parseTransport (req_Transport request) = Inl e"
    | received transport where "req_GetHeaders request ''Contact'' \<noteq> []"
        "ParseAddrPort (req_Source request) = Inr received"
        "parseTransport (req_Transport request) = Inr transport"
    by (metis sum.exhaust)
  then show ?thesis
  proof cases
    case 4
    let ?ua = "headerValue (req_GetHeader request ''User-Agent'') 255"
    obtain h1 r1 where ap: "apply_contacts st cfg en request cred received transport ?ua 0
        (req_GetHeaders request ''Contact'') h = (h1, r1)" by fastforce
    have "h' = h1 \<or> h' = fst (respondBindings st en (cred_TenantID cred) (user_aor cred) h1)"
      using assms(2) 4 ap by (auto simp: registrar_register_def Let_def split: option.splits)
    then have "rg_store h' = rg_store h1" by auto
    then show ?thesis using contacts_effect [OF assms(1) ap] by (simp add: keeps_def)
  qed (use assms(2) same in \<open>auto simp: registrar_register_def Let_def dest: unchanged_store split: if_splits\<close>)
qed

lemma handle_effect:
  assumes "inv (rg_store h)" and "registrar_handle st cfg en request h = (h', r)"
  shows "keeps cfg (rg_store h) (rg_store h')
    \<and> (bound (rg_store h') = bound (rg_store h)
       \<or> (\<exists>cred. authenticated en request (rg_auth h) cred
            \<and> same_elsewhere (cred_TenantID cred) (user_aor cred) (bound (rg_store h)) (bound (rg_store h'))))"
proof -
  have same: "keeps cfg (rg_store h) (rg_store h)" using assms(1) by (simp add: keeps_def)
  have challenge: ?thesis if "registrar_challenge en stale h1 = (h', r)" "rg_store h1 = rg_store h" for stale h1
    using unchanged_store(3) [OF that(1)] that(2) same by simp
  have refuse: ?thesis if "registrar_respond en res h = (h', r)" for res
    using unchanged_store(1) [OF that] same by simp
  show ?thesis
  proof (cases "req_To request")
    case None
    then show ?thesis using refuse assms(2) by (simp add: registrar_handle_def)
  next
    case (Some to)
    obtain a v where v: "Verify (en_digest en) (en_lookup en) (en_ctx en 0) (en_now en 0) (en_now en 1)
        (req_Method request) (uri_Addr (en_sip en) (req_Recipient request))
        (case req_GetHeader request ''Authorization'' of None \<Rightarrow> [] | Some v \<Rightarrow> v) (rg_auth h) = (a, v)"
      by fastforce
    show ?thesis
    proof (cases "uri_User (ah_Address to) = [] \<or> uri_Host (ah_Address to) \<noteq> rc_Realm cfg")
      case True
      then show ?thesis using refuse assms(2) Some by (auto simp: registrar_handle_def)
    next
      case False
      note unfolded = assms(2) [unfolded registrar_handle_def Some option.case Let_def v, simplified]
      show ?thesis
      proof (cases v)
        case (Inl e)
        then show ?thesis using challenge [of _ "h\<lparr>rg_auth := a\<rparr>"] unfolded False by simp
      next
        case (Inr cred)
        show ?thesis
        proof (cases "cred_Username cred = uri_User (ah_Address to)")
          case True
          then have "registrar_register st cfg en request cred (h\<lparr>rg_auth := a\<rparr>) = (h', r)"
            using unfolded False Inr by simp
          from register_effect [OF _ this] assms(1) have "keeps cfg (rg_store h) (rg_store h')
            \<and> same_elsewhere (cred_TenantID cred) (user_aor cred) (bound (rg_store h)) (bound (rg_store h'))"
            by simp
          moreover have "authenticated en request (rg_auth h) cred"
            using Some True v Inr by (simp add: authenticated_def)
          ultimately show ?thesis by blast
        next
          case False
          then show ?thesis using challenge [of False "h\<lparr>rg_auth := a\<rparr>"] unfolded \<open>\<not> (_ \<or> _)\<close> Inr by simp
        qed
      qed
    qed
  qed
qed

lemma Handle_store:
  "rg_store (registrar_Handle st cfg en request h) = rg_store (fst (registrar_handle st cfg en request h))"
  by (simp add: registrar_Handle_def split: prod.splits option.splits)

lemma Handle_effect:
  assumes "inv (rg_store h)"
  shows "keeps cfg (rg_store h) (rg_store (registrar_Handle st cfg en request h))
    \<and> (bound (rg_store (registrar_Handle st cfg en request h)) = bound (rg_store h)
       \<or> (\<exists>cred. authenticated en request (rg_auth h) cred
            \<and> same_elsewhere (cred_TenantID cred) (user_aor cred) (bound (rg_store h))
                (bound (rg_store (registrar_Handle st cfg en request h)))))"
  using handle_effect [OF assms, of cfg en request] unfolding Handle_store
  by (metis prod.collapse)

end

subsection \<open>Serving requests\<close>

text \<open>A history of the registrar: REGISTER transactions and runs of the expiry of old bindings.\<close>

datatype registrar_op = Register register_env sip_request | ExpireOld ctx time

fun registrar_step :: "'s registration_store \<Rightarrow> registrar_config \<Rightarrow> registrar_op \<Rightarrow> 's registrar \<Rightarrow> 's registrar" where
  "registrar_step st cfg (Register en request) h = registrar_Handle st cfg en request h"
| "registrar_step st cfg (ExpireOld c now) h = h\<lparr>rg_store := fst (manager_Expire st c now (rg_store h))\<rparr>"

definition registrar_run :: "'s registration_store \<Rightarrow> registrar_config \<Rightarrow> registrar_op list \<Rightarrow> 's registrar \<Rightarrow> 's registrar" where
  "registrar_run st cfg ops h = fold (registrar_step st cfg) ops h"

context registration_contract
begin

lemma registrar_step_keeps:
  assumes "inv (rg_store h)"
  shows "keeps cfg (rg_store h) (rg_store (registrar_step st cfg op h))"
proof (cases op)
  case (Register en request)
  then show ?thesis using Handle_effect [OF assms] by simp
next
  case (ExpireOld c now)
  obtain s r where e: "manager_Expire st c now (rg_store h) = (s, r)" by fastforce
  then show ?thesis
    using ExpireOld expire_directory [OF assms e] by (auto simp: keeps_def split: sum.splits)
qed

lemma registrar_run_keeps:
  assumes "inv (rg_store h)"
  shows "keeps cfg (rg_store h) (rg_store (registrar_run st cfg ops h))"
  using assms
proof (induction ops arbitrary: h)
  case (Cons op ops)
  have "keeps cfg (rg_store h) (rg_store (registrar_step st cfg op h))"
    by (rule registrar_step_keeps [OF Cons.prems])
  moreover from this have "keeps cfg (rg_store (registrar_step st cfg op h)) (rg_store (registrar_run st cfg (op # ops) h))"
    using Cons.IH [of "registrar_step st cfg op h"] by (simp add: keeps_def registrar_run_def)
  ultimately show ?case by (auto simp: keeps_def)
qed (simp add: keeps_def registrar_run_def)

end

lemma Verify_realm:
  assumes "snd (Verify pkg lookup cx now now' method uri authz a) = Inr cred"
  shows "cred_Realm cred = ac_Realm (auth_cfg a)" and "lookup cx (ac_Realm (auth_cfg a)) (cred_Username cred) = Inr cred"
proof -
  obtain c cr t where "verify_check pkg lookup (auth_cfg a) cx now method uri authz = Inr (c, cr, t)" "c = cred"
    using assms by (auto simp: Verify_def split: sum.splits prod.splits option.splits)
  then show "cred_Realm cred = ac_Realm (auth_cfg a)" "lookup cx (ac_Realm (auth_cfg a)) (cred_Username cred) = Inr cred"
    using verify_check_Inr by metis+
qed

subsection \<open>A request that is applied\<close>



lemma parseTransport_known: "parseTransport s = Inr t \<Longrightarrow> t = TransportUDP \<or> t = TransportTCP"
  by (auto simp: parseTransport_def Let_def split: if_splits)

lemma parseQ_range: "parseQ contact = Inr q \<Longrightarrow> \<not> fl_less q (Fin 0) \<and> \<not> fl_less (Fin 1) q"
  by (auto simp: parseQ_def split: option.splits if_splits)



lemma append_bindings_total:
  assumes "\<forall>b \<in> set bs. \<exists>u. ParseUri sp (bi_Contact b) = Inr u"
  shows "\<exists>r'. append_bindings sp now bs r = Inr r' \<and> rsp_StatusCode r' = rsp_StatusCode r
    \<and> length (rsp_Headers r') = length (rsp_Headers r) + length bs
    \<and> (\<forall>b \<in> set bs. \<exists>c. binding_contact sp now b = Inr c \<and> c \<in> set (rsp_Headers r'))
    \<and> set (rsp_Headers r) \<subseteq> set (rsp_Headers r')"
  using assms
proof (induction bs arbitrary: r)
  case (Cons b bs)
  then obtain u where "ParseUri sp (bi_Contact b) = Inr u" by auto
  then obtain c where c: "binding_contact sp now b = Inr c" by (simp add: binding_contact_def)
  from Cons.IH [of "AppendHeader c r"] Cons.prems obtain r' where
    "append_bindings sp now bs (AppendHeader c r) = Inr r' \<and> rsp_StatusCode r' = rsp_StatusCode r
     \<and> length (rsp_Headers r') = length (rsp_Headers r) + 1 + length bs
     \<and> (\<forall>b \<in> set bs. \<exists>c. binding_contact sp now b = Inr c \<and> c \<in> set (rsp_Headers r'))
     \<and> insert c (set (rsp_Headers r)) \<subseteq> set (rsp_Headers r')" by auto
  with c show ?case by (intro exI [of _ r']) auto
qed simp

lemma contact_binding_valid:
  assumes "0 < d" and "parseQ contact = Inr q" and "ParseAddrPort source = Inr received"
    and "parseTransport tr = Inr transport" and "ident \<noteq> []" and "cred_TenantID cred \<noteq> []"
    and "uri_Wildcard (ah_Address contact) \<or> uri_Addr sp (ah_Address contact) \<noteq> []" and "now \<noteq> 0"
    and "0 < cred_MaxBindings cred" and "ctx_Err c = None"
    and "map_of s (cred_TenantID cred, user_aor cred, rq_Contact rq) \<noteq> None
      \<or> int (card (bindings_of (map_of s) (cred_TenantID cred) (user_aor cred) now)) < cred_MaxBindings cred"
    and "memory_inv s" and "rq = contact_request sp cred received transport userAgent contact q d"
  shows "\<exists>b. manager_Apply (memory_store p) c now (Inr ident) rq s
    = (AList.update (cred_TenantID cred, user_aor cred, rq_Contact rq) b s, Inr b)"
proof -
  let ?b = "\<lparr>bi_ID = ident, bi_TenantID = rq_TenantID rq, bi_AoR = rq_AoR rq, bi_Contact = rq_Contact rq,
      bi_RouteTarget = rq_RouteTarget rq, bi_Transport = rq_Transport rq, bi_Received = rq_Received rq,
      bi_UserAgent = rq_UserAgent rq, bi_Q = rq_Q rq, bi_ExpiresAt = now + rq_Expires rq, bi_UpdatedAt = now\<rparr>"
  have rq: "rq_TenantID rq = cred_TenantID cred" "rq_AoR rq = user_aor cred" "rq_Expires rq = d"
    "rq_MaxBindings rq = cred_MaxBindings cred" "rq_Received rq = received" "rq_Transport rq = transport" "rq_Q rq = q"
    "rq_RouteTarget rq = ap_String received" "rq_Contact rq \<noteq> []"
    using assms(7,13) by (auto simp: contact_request_def)
  have "user_aor cred \<noteq> []" by (simp add: user_aor_def)
  then have "binding_Validate ?b now = None"
    using assms(1,5,6,8) parseQ_range [OF assms(2)] ParseAddrPort_valid [OF assms(3)] parseTransport_known [OF assms(4)]
    by (simp add: binding_Validate_def rq)
  moreover have "memory_Upsert c ?b (cred_MaxBindings cred) s =
      (AList.update (cred_TenantID cred, user_aor cred, rq_Contact rq) ?b s, None)"
    using assms(10,11) memory_bindings_card [OF assms(12), of "cred_TenantID cred" "user_aor cred" now]
    by (auto simp: memory_Upsert_def Let_def rq)
  ultimately show ?thesis
    using assms(1,9) ParseAddrPort_valid [OF assms(3)]
    by (intro exI [of _ ?b]) (simp add: manager_Apply_def Let_def rq)
qed

lemma registrar_run_inv:
  assumes "rg_store h0 = NewRegistrationStore"
  shows "memory_inv (rg_store (registrar_run (memory_store p) cfg ops h0))"
  using memory.registrar_run_keeps [of h0 cfg p ops] assms
  by (simp add: memory.keeps_def NewRegistrationStore_def memory_inv_def)

lemma authenticated_realm:
  "authenticated en request a cred \<Longrightarrow> cred_Realm cred = ac_Realm (auth_cfg a)
     \<and> en_lookup en (en_ctx en 0) (ac_Realm (auth_cfg a)) (cred_Username cred) = Inr cred"
  using Verify_realm by (fastforce simp: authenticated_def)

subsection \<open>Properties\<close>

text \<open>C7: Only the owner changes a registration. Whatever was registered before, a REGISTER that
  changes, adds or removes the binding under some key was authenticated as the user of its \<open>To\<close>
  header, with a credential the store holds for that user and the realm of the authenticator, and
  the key is one of that user's tenant and address of record.\<close>
theorem register_own_bindings:
  assumes "rg_store h0 = NewRegistrationStore" and "h = registrar_run (memory_store p) cfg ops h0"
    and "map_of (rg_store (registrar_Handle (memory_store p) cfg en request h)) k \<noteq> map_of (rg_store h) k"
  shows "\<exists>cred. authenticated en request (rg_auth h) cred
    \<and> en_lookup en (en_ctx en 0) (ac_Realm (auth_cfg (rg_auth h))) (cred_Username cred) = Inr cred
    \<and> fst k = cred_TenantID cred
    \<and> fst (snd k) = ''sip:'' @ cred_Username cred @ ''@'' @ ac_Realm (auth_cfg (rg_auth h))"
proof -
  have "memory_inv (rg_store h)" using registrar_run_inv assms(1,2) by metis
  from memory.Handle_effect [OF this, of cfg p en request] assms(3) obtain cred
    where cred: "authenticated en request (rg_auth h) cred"
      "same_elsewhere (cred_TenantID cred) (user_aor cred) (map_of (rg_store h))
         (map_of (rg_store (registrar_Handle (memory_store p) cfg en request h)))"
    by auto
  then have "fst k = cred_TenantID cred \<and> fst (snd k) = user_aor cred"
    using assms(3) unfolding same_elsewhere_def by blast
  then show ?thesis using cred(1) authenticated_realm [OF cred(1)] by (auto simp: user_aor_def)
qed

text \<open>C37: With a configuration that \<open>NewHandler\<close> accepts, no history of REGISTER transactions and
  expiries ever stores a binding whose lifetime at registration is below \<open>MinExpires\<close> or above
  \<open>MaxExpires\<close>.\<close>
theorem registered_lifetimes:
  assumes "NewHandler cfg auth manager = Inr x" and "rg_store h0 = NewRegistrationStore"
    and "map_of (rg_store (registrar_run (memory_store p) cfg ops h0)) k = Some b"
  shows "rc_MinExpires cfg \<le> bi_ExpiresAt b - bi_UpdatedAt b \<and> bi_ExpiresAt b - bi_UpdatedAt b \<le> rc_MaxExpires cfg"
proof -
  have "0 < rc_MinExpires cfg" "rc_MinExpires cfg \<le> rc_MaxExpires cfg"
    using assms(1) by (auto simp: NewHandler_def split: if_splits option.splits)
  moreover have "lifetimes_ok cfg (map_of (rg_store h0))" "memory_inv (rg_store h0)"
    using assms(2) by (simp_all add: lifetimes_ok_def NewRegistrationStore_def memory_inv_def)
  ultimately have "lifetimes_ok cfg (map_of (rg_store (registrar_run (memory_store p) cfg ops h0)))"
    using memory.registrar_run_keeps [of h0 cfg p ops] by (simp add: memory.keeps_def)
  then show ?thesis using assms(3) unfolding lifetimes_ok_def by blast
qed

lemma respondBindings_answers:
  assumes "ctx_Err (en_ctx en 1) = None" and "\<forall>c. \<exists>u. ParseUri (en_sip en) c = Inr u"
    and "\<forall>sent r. en_respond en sent r = None" and "memory_inv (rg_store h)"
  shows "\<exists>r. respondBindings (memory_store p) en t a h = (h\<lparr>rg_sent := rg_sent h @ [r]\<rparr>, None)
    \<and> rsp_StatusCode r = StatusOK
    \<and> length (rsp_Headers r) = card (bindings_of (map_of (rg_store h)) t a (en_now en 3))
    \<and> (\<forall>b \<in> bindings_of (map_of (rg_store h)) t a (en_now en 3).
         \<exists>c. binding_contact (en_sip en) (en_now en 4) b = Inr c \<and> c \<in> set (rsp_Headers r))"
proof -
  obtain bs where bs: "memory_ListActive p (en_ctx en 1) t a (en_now en 3) (rg_store h) = Inr bs"
    using assms(1) by (simp add: memory_ListActive_def)
  then have set: "set bs = bindings_of (map_of (rg_store h)) t a (en_now en 3)" "distinct bs"
    using memory.list_active [OF assms(4), of p] by auto
  obtain r where r: "append_bindings (en_sip en) (en_now en 4) bs (NewResponse StatusOK ''OK'' []) = Inr r"
    "rsp_StatusCode r = StatusOK" "length (rsp_Headers r) = length bs"
    "\<forall>b \<in> set bs. \<exists>c. binding_contact (en_sip en) (en_now en 4) b = Inr c \<and> c \<in> set (rsp_Headers r)"
    using append_bindings_total [of bs "en_sip en" "en_now en 4" "NewResponse StatusOK ''OK'' []"] assms(2) by auto
  then show ?thesis
    using bs set distinct_card [OF set(2)] assms(3)
    by (intro exI [of _ r]) (simp add: respondBindings_def manager_List_def registrar_respond_def)
qed


subsection \<open>One response\<close>

text \<open>The surroundings never return the registrar's own \<open>errResponseFailed\<close>, which it does not export.\<close>

definition foreign :: "register_env \<Rightarrow> bool" where
  "foreign en =
     ((\<forall>i e. ctx_Err (en_ctx en i) = Some e \<longrightarrow> \<not> errors_Is e errResponseFailed)
      \<and> (\<forall>i e. en_uuid en i = Inl e \<longrightarrow> \<not> errors_Is e errResponseFailed)
      \<and> (\<forall>e. en_random en = Inl e \<longrightarrow> \<not> errors_Is e errResponseFailed)
      \<and> (\<forall>c e. ParseUri (en_sip en) c = Inl e \<longrightarrow> \<not> errors_Is e errResponseFailed))"

text \<open>Either one response went out, or none did and the error is not a failed response.\<close>

definition answered :: "'s registrar \<Rightarrow> 's registrar \<Rightarrow> go_error option \<Rightarrow> bool" where
  "answered h h' r =
     (length (rg_sent h') = Suc (length (rg_sent h))
        \<and> (r = None \<or> error_is r errResponseFailed)
      \<or> rg_sent h' = rg_sent h \<and> r \<noteq> None \<and> \<not> error_is r errResponseFailed)"

lemma errors_differ:
  "\<not> errors_Is ErrBindingLimit errResponseFailed" "errors_Is errResponseFailed errResponseFailed"
  by (simp_all add: ErrBindingLimit_def errResponseFailed_def)

lemma wrapped_not_failed: "errors_Is (Wrapf s e) errResponseFailed = errors_Is e errResponseFailed"
  "\<not> errors_Is (Errorf s) errResponseFailed" "Wrapf s e \<noteq> errResponseFailed" "Errorf s \<noteq> errResponseFailed"
  by (simp_all add: errResponseFailed_def)

lemma answered_respond: "registrar_respond en res h = (h', r) \<Longrightarrow> answered h h' r"
  by (auto simp: registrar_respond_def answered_def errors_differ wrapped_not_failed split: option.splits)

lemma answered_sent: "answered h1 h' r \<Longrightarrow> rg_sent h1 = rg_sent h \<Longrightarrow> answered h h' r"
  by (simp add: answered_def)

lemma append_bindings_error:
  "append_bindings sp now bs r = Inl e \<Longrightarrow> \<exists>c e'. ParseUri sp c = Inl e' \<and> e = Wrapf ''parse stored contact: %w'' e'"
  by (induction bs arbitrary: r) (auto simp: binding_contact_def split: sum.splits)

lemma answered_respondBindings:
  assumes "foreign en" and "respondBindings (memory_store p) en t a h = (h', r)"
  shows "answered h h' r"
proof (cases "ctx_Err (en_ctx en 1)")
  case None
  then obtain bs where "memory_ListActive p (en_ctx en 1) t a (en_now en 3) (rg_store h) = Inr bs"
    by (simp add: memory_ListActive_def)
  then show ?thesis
    using assms answered_respond [of en _ h h' r]
    by (auto simp: respondBindings_def manager_List_def answered_def foreign_def wrapped_not_failed
        dest!: append_bindings_error split: sum.splits)
next
  case (Some e)
  then show ?thesis
    using assms by (auto simp: respondBindings_def manager_List_def memory_ListActive_def answered_def foreign_def
        wrapped_not_failed)
qed

lemma memory_errors:
  "memory_Upsert c b n s = (s', Some e) \<Longrightarrow> e = ErrBindingLimit \<or> ctx_Err c = Some e"
  "memory_Delete c t a ct s = (s', Some e) \<Longrightarrow> ctx_Err c = Some e"
  "memory_DeleteAll c t a s = (s', Some e) \<Longrightarrow> ctx_Err c = Some e"
  by (auto simp: memory_Upsert_def memory_Delete_def memory_DeleteAll_def Let_def split: option.splits if_splits)

lemma binding_Validate_error: "binding_Validate b now = Some e \<Longrightarrow> \<exists>s. e = Errorf s"
  by (auto simp: binding_Validate_def split: if_splits)

lemma memory_Apply_error:
  assumes "foreign en" and "manager_Apply (memory_store p) (en_ctx en i) now (en_uuid en j) rq s = (s', Inl e)"
  shows "\<not> errors_Is e errResponseFailed"
proof -
  have own: "\<not> errors_Is e' errResponseFailed" if "ctx_Err (en_ctx en i) = Some e' \<or> en_uuid en j = Inl e'" for e'
    using assms(1) that by (auto simp: foreign_def)
  consider "rq_Expires rq < 0" | "rq_Expires rq = 0" | "0 < rq_Expires rq" by linarith
  then show ?thesis
  proof cases
    case 1
    then show ?thesis using assms(2) by (auto simp: manager_Apply_def wrapped_not_failed)
  next
    case 2
    then show ?thesis using assms(2) own memory_errors(2,3)
      by (auto simp: manager_Apply_def removal_def split: if_split_asm prod.split_asm option.split_asm)
  next
    case 3
    then show ?thesis using assms(2) own errors_differ(1)
      by (auto simp: manager_Apply_def Let_def wrapped_not_failed dest!: binding_Validate_error memory_errors(1)
          split: if_split_asm sum.split_asm prod.split_asm option.split_asm)
  qed
qed

lemma answered_contacts:
  assumes "foreign en"
    and "apply_contacts (memory_store p) cfg en request cred received transport userAgent i hs h = (h', r)"
  shows "(case r of None \<Rightarrow> rg_sent h' = rg_sent h | Some err \<Rightarrow> answered h h' err)"
  using assms(2)
proof (induction hs arbitrary: i h)
  case (Cons x hs)
  show ?case
  proof (cases x)
    case (Header n v)
    then show ?thesis using Cons.prems answered_respond by (auto simp: map_prod_def split: prod.splits)
  next
    case (ContactHeader contact)
    show ?thesis
    proof (cases "contactExpires cfg request contact")
      case (Inl e)
      then show ?thesis using Cons.prems ContactHeader answered_respond by (auto simp: map_prod_def split: prod.splits)
    next
      case d: (Inr d)
      show ?thesis
      proof (cases "parseQ contact")
        case (Inl e)
        then show ?thesis using Cons.prems ContactHeader d answered_respond by (auto simp: map_prod_def split: prod.splits)
      next
        case q: (Inr q)
        obtain s res where ap: "manager_Apply (memory_store p) (en_ctx en (2 + i)) (en_now en (5 + i)) (en_uuid en i)
            (contact_request (en_sip en) cred received transport userAgent contact q d) (rg_store h) = (s, res)"
          by fastforce
        let ?h = "h\<lparr>rg_store := s\<rparr>"
        show ?thesis
        proof (cases res)
          case (Inl e)
          then have own: "\<not> errors_Is e errResponseFailed" using memory_Apply_error [OF assms(1)] ap by blast
          have limit: "case r of None \<Rightarrow> rg_sent h' = rg_sent h | Some err \<Rightarrow> answered h h' err"
            if "map_prod id Some (registrar_respond en res' ?h) = (h', r)" for res'
            using that answered_sent [OF answered_respond, of en res' ?h h' _ h] by (auto simp: map_prod_def split: prod.splits)
          show ?thesis
            using Cons.prems ContactHeader d q ap Inl own limit
            by (auto simp: answered_def wrapped_not_failed split: if_splits)
        next
          case (Inr b)
          then have "apply_contacts (memory_store p) cfg en request cred received transport userAgent (Suc i) hs ?h = (h', r)"
            using Cons.prems ContactHeader d q ap by simp
          from Cons.IH [OF this] show ?thesis by (auto simp: answered_def split: option.splits)
        qed
      qed
    qed
  qed
qed simp

lemma answered_challenge:
  assumes "foreign en" and "registrar_challenge en stale h1 = (h', r)" and "rg_sent h1 = rg_sent h"
  shows "answered h h' r"
proof (cases "Challenge (en_digest en) (rg_auth h1) (en_now en 2) (en_random en) stale")
  case (Inl e)
  then have "\<not> errors_Is e errResponseFailed"
    using assms(1) by (auto simp: Challenge_def issueNonce_def Let_def foreign_def wrapped_not_failed split: sum.splits)
  with Inl show ?thesis using assms(2,3) by (auto simp: registrar_challenge_def answered_def wrapped_not_failed)
next
  case (Inr c)
  then show ?thesis
    using assms(2,3) answered_sent [OF answered_respond, of en _ h1 h' r h] by (auto simp: registrar_challenge_def)
qed

lemma answered_register:
  assumes "foreign en" and "registrar_register (memory_store p) cfg en request cred h1 = (h', r)"
    and "rg_sent h1 = rg_sent h"
  shows "answered h h' r"
proof -
  have respond: "answered h h' r" if "registrar_respond en res h1 = (h', r)" for res
    using answered_sent [OF answered_respond [OF that] assms(3)] .
  have list: "answered h h' r" if "respondBindings (memory_store p) en t a h2 = (h', r)" "rg_sent h2 = rg_sent h" for t a h2
    using answered_sent [OF answered_respondBindings [OF assms(1) that(1)] that(2)] .
  show ?thesis
  proof (cases "req_GetHeaders request ''Contact'' = []")
    case True
    then show ?thesis using assms(2,3) list [of _ _ h1] by (simp add: registrar_register_def)
  next
    case False
    consider e where "ParseAddrPort (req_Source request) = Inl e"
      | received e where "ParseAddrPort (req_Source request) = Inr received"
          "parseTransport (req_Transport request) = Inl e"
      | received transport where "ParseAddrPort (req_Source request) = Inr received"
          "parseTransport (req_Transport request) = Inr transport"
      by (metis sum.exhaust)
    then show ?thesis
    proof cases
      case 3
      obtain h2 r2 where ap: "apply_contacts (memory_store p) cfg en request cred received transport
          (headerValue (req_GetHeader request ''User-Agent'') 255) 0 (req_GetHeaders request ''Contact'') h1 = (h2, r2)"
        by fastforce
      show ?thesis
        using answered_contacts [OF assms(1) ap] assms(2,3) False 3 ap list [of _ _ h2] answered_sent [of h1 h' r h]
        by (auto simp: registrar_register_def Let_def split: option.splits)
    qed (use assms(2) False respond in \<open>auto simp: registrar_register_def Let_def\<close>)
  qed
qed

lemma answered_handle:
  assumes "foreign en" and "registrar_handle (memory_store p) cfg en request h = (h', r)"
  shows "answered h h' r"
proof (cases "req_To request")
  case None
  then show ?thesis using assms(2) answered_respond by (auto simp: registrar_handle_def)
next
  case (Some to)
  obtain a v where v: "Verify (en_digest en) (en_lookup en) (en_ctx en 0) (en_now en 0) (en_now en 1)
      (req_Method request) (uri_Addr (en_sip en) (req_Recipient request))
      (case req_GetHeader request ''Authorization'' of None \<Rightarrow> [] | Some v \<Rightarrow> v) (rg_auth h) = (a, v)"
    by fastforce
  note steps = answered_respond [of en _ h h' r]
    answered_challenge [OF assms(1), of _ "h\<lparr>rg_auth := a\<rparr>" h' r h]
    answered_register [OF assms(1), of p cfg request _ "h\<lparr>rg_auth := a\<rparr>" h' r h]
  show ?thesis
    using assms(2) steps v
    by (auto simp: registrar_handle_def Some Let_def split: if_splits sum.splits)
qed


subsection \<open>A concrete registration\<close>

definition reg_cfg :: registrar_config where
  "reg_cfg = \<lparr>rc_Realm = ''pbx'', rc_DefaultExpires = 3600 * Second, rc_MinExpires = 60 * Second,
     rc_MaxExpires = 7200 * Second, rc_TransactionTimeout = 5 * Second\<rparr>"

definition reg_sip :: sip_pkg where
  "reg_sip = \<lparr>uri_Addr = uri_rest, ParseUri = \<lambda>s. Inr (uri_zero\<lparr>uri_rest := s\<rparr>),
     DialogIDFromRequestUAS = \<lambda>_. Inl (Errorf ''''), DialogIDFromRequestUAC = \<lambda>_. Inl (Errorf '''')\<rparr>"

definition reg_env :: register_env where
  "reg_env = \<lparr>en_sip = reg_sip, en_digest = sample_pkg,
     en_lookup = memory_LookupCredential (NewCredentialStore [sample_credential]),
     en_respond = \<lambda>_ _. None, en_ctx = \<lambda>_. context_Background, en_now = \<lambda>_. sample_issued,
     en_uuid = \<lambda>_. Inr ''id'', en_random = Inr (\<lambda>_. 0)\<rparr>"

definition reg_contact :: address_header where
  "reg_contact = \<lparr>ah_Address = uri_zero\<lparr>uri_rest := ''sip:1001@h''\<rparr>, ah_Params = Map.empty\<rparr>"

definition reg_to :: address_header where
  "reg_to = \<lparr>ah_Address = uri_zero\<lparr>uri_User := ''1001'', uri_Host := ''pbx''\<rparr>, ah_Params = Map.empty\<rparr>"

definition reg_received :: addr_port where
  "reg_received = AddrPortFrom (Addr4 167772169) 5060"

definition reg_request :: sip_request where
  "reg_request = \<lparr>req_Method = ''REGISTER'', req_Recipient = uri_zero\<lparr>uri_rest := ''pbx''\<rparr>,
     req_From = Some reg_to, req_To = Some reg_to, req_Contact = Some reg_contact, req_CSeq = 1, req_Body = [],
     req_Source = ap_String reg_received, req_Transport = ''UDP'', req_GetHeader = [''Authorization'' \<mapsto> ''x''],
     req_GetHeaders = \<lambda>n. if n = ''Contact'' then [ContactHeader reg_contact] else []\<rparr>"

definition reg_state :: "memory registrar" where
  "reg_state = \<lparr>rg_store = NewRegistrationStore, rg_auth = sample_auth, rg_sent = []\<rparr>"

lemma reg_authenticated: "authenticated reg_env reg_request sample_auth sample_credential"
  using sample_check [of 0 "''x''" "''REGISTER''"]
  by (simp add: authenticated_def reg_env_def reg_request_def reg_sip_def reg_to_def Verify_def recordNonceCount_def
      sample_auth_def sample_presented_def Let_def Second_def uri_zero_def)
    (simp add: sample_credential_def sample_cfg_def)

lemma reg_expires: "contactExpires reg_cfg reg_request reg_contact = Inr (3600 * Second)"
  by (simp add: contactExpires_def reg_cfg_def reg_request_def reg_contact_def go_div_def Second_def int64_def)

lemma reg_facts:
  "ParseAddrPort (req_Source reg_request) = Inr reg_received"
  "parseTransport (req_Transport reg_request) = Inr TransportUDP" "parseQ reg_contact = Inr (Fin 1)"
proof -
  have "strings_ToLower ''UDP'' = ''udp''" by code_simp
  then show "ParseAddrPort (req_Source reg_request) = Inr reg_received"
    "parseTransport (req_Transport reg_request) = Inr TransportUDP" "parseQ reg_contact = Inr (Fin 1)"
    by (simp_all add: reg_request_def reg_received_def ParseAddrPort_v4 parseTransport_def parseQ_def reg_contact_def)
qed

lemma reg_empty: "bindings_of (map_of (rg_store reg_state)) t a now = {}"
  by (simp add: bindings_of_def reg_state_def NewRegistrationStore_def)

lemma reg_sel [simp]:
  "rg_store reg_state = NewRegistrationStore" "rg_auth reg_state = sample_auth" "rg_sent reg_state = []"
  "req_To reg_request = Some reg_to" "uri_User (ah_Address reg_to) = ''1001''" "uri_Host (ah_Address reg_to) = ''pbx''"
  "rc_Realm reg_cfg = ''pbx''" "req_GetHeaders reg_request ''Contact'' = [ContactHeader reg_contact]"
  "uri_Wildcard (ah_Address reg_contact) = False" "uri_Addr (en_sip reg_env) (ah_Address reg_contact) = ''sip:1001@h''"
  "en_uuid reg_env i = Inr ''id''" "ctx_Err (en_ctx reg_env i) = None" "en_now reg_env i = sample_issued"
  "ParseUri (en_sip reg_env) c = Inr (uri_zero\<lparr>uri_rest := c\<rparr>)" "en_respond reg_env ss r = None"
  "cred_TenantID sample_credential = ''t''" "cred_MaxBindings sample_credential = 2"
  "user_aor sample_credential = ''sip:1001@pbx''"
  by (simp_all add: reg_state_def reg_request_def reg_to_def reg_cfg_def reg_contact_def reg_env_def reg_sip_def
      uri_zero_def sample_credential_def user_aor_def context_Background_def)

lemma reg_run: "reg_state = registrar_run (memory_store sample_picks) reg_cfg [] reg_state"
  by (simp add: registrar_run_def)

lemma reg_now: "sample_issued \<noteq> 0" "sample_issued < sample_issued + 3600 * Second"
  by (simp_all add: sample_issued_def Second_def)


text \<open>The state the concrete registration leaves.\<close>

lemma reg_stored:
  "map_of (rg_store (registrar_Handle (memory_store sample_picks) reg_cfg reg_env reg_request reg_state))
     (''t'', ''sip:1001@pbx'', ''sip:1001@h'') \<noteq> None"
proof -
  define rq where "rq = contact_request (en_sip reg_env) sample_credential reg_received TransportUDP
    (headerValue (req_GetHeader reg_request ''User-Agent'') 255) reg_contact (Fin 1) (3600 * Second)"
  have rq: "rq_Contact rq = ''sip:1001@h''" by (simp add: rq_def contact_request_def)
  have "memory_inv (rg_store reg_state)" by (simp add: NewRegistrationStore_def memory_inv_def)
  then obtain b where b: "manager_Apply (memory_store sample_picks) (en_ctx reg_env 2) sample_issued (Inr ''id'') rq
      NewRegistrationStore = (AList.update (''t'', ''sip:1001@pbx'', ''sip:1001@h'') b NewRegistrationStore, Inr b)"
    using contact_binding_valid [OF _ reg_facts(3,1,2), where d = "3600 * Second" and rq = rq
        and s = "rg_store reg_state" and cred = sample_credential and sp = "en_sip reg_env" and ident = "''id''"
        and now = sample_issued and c = "en_ctx reg_env 2" and p = sample_picks, OF _ _ _ _ _ _ _ _ _ rq_def]
      reg_now reg_empty
    by (auto simp: rq)
  obtain a where v: "Verify (en_digest reg_env) (en_lookup reg_env) (en_ctx reg_env 0) sample_issued sample_issued
      (req_Method reg_request) (uri_Addr (en_sip reg_env) (req_Recipient reg_request))
      (case req_GetHeader reg_request ''Authorization'' of None \<Rightarrow> [] | Some v \<Rightarrow> v) sample_auth = (a, Inr sample_credential)"
    and "cred_Username sample_credential = ''1001''"
    using reg_authenticated by (auto simp: authenticated_def prod_eq_iff)
  then have "rg_store (fst (registrar_handle (memory_store sample_picks) reg_cfg reg_env reg_request reg_state))
      = AList.update (''t'', ''sip:1001@pbx'', ''sip:1001@h'') b NewRegistrationStore"
    using b reg_expires reg_facts
    by (simp add: registrar_handle_def registrar_register_def Let_def rq_def [symmetric])
  then show ?thesis by (simp add: memory.Handle_store update_conv')
qed

theorem register_own_bindings_witness:
  "\<exists>cred. authenticated reg_env reg_request sample_auth cred \<and> cred_TenantID cred = ''t''"
proof -
  have "map_of (rg_store (registrar_Handle (memory_store sample_picks) reg_cfg reg_env reg_request reg_state))
      (''t'', ''sip:1001@pbx'', ''sip:1001@h'') \<noteq> map_of (rg_store reg_state) (''t'', ''sip:1001@pbx'', ''sip:1001@h'')"
    using reg_stored by (simp add: NewRegistrationStore_def)
  from register_own_bindings [OF _ reg_run this] show ?thesis by fastforce
qed

theorem registered_lifetimes_witness:
  "\<exists>b. map_of (rg_store (registrar_run (memory_store sample_picks) reg_cfg [Register reg_env reg_request] reg_state))
        (''t'', ''sip:1001@pbx'', ''sip:1001@h'') = Some b
     \<and> bi_ExpiresAt b - bi_UpdatedAt b \<le> 7200 * Second"
proof -
  have new: "NewHandler reg_cfg (Some ()) (Some ()) = Inr (reg_cfg, (), ())"
    by (simp add: NewHandler_def reg_cfg_def Second_def)
  have run: "registrar_run (memory_store sample_picks) reg_cfg [Register reg_env reg_request] reg_state
      = registrar_Handle (memory_store sample_picks) reg_cfg reg_env reg_request reg_state"
    by (simp add: registrar_run_def)
  from reg_stored obtain b where b: "map_of (rg_store (registrar_run (memory_store sample_picks) reg_cfg
      [Register reg_env reg_request] reg_state)) (''t'', ''sip:1001@pbx'', ''sip:1001@h'') = Some b"
    unfolding run by blast
  from registered_lifetimes [OF new reg_sel(1) b] b show ?thesis by (auto simp: reg_cfg_def)
qed

lemma reg_foreign: "foreign reg_env"
  by (simp add: foreign_def reg_env_def reg_sip_def context_Background_def)


end
