(* ===== verification/Application.thy ===== *)
theory Application
  imports B2bua_Engine Digest_Auth Registrar Mysql_Store
begin

text \<open>
  The application of \<open>internal/app/app.go\<close> and the command of \<open>cmd/aixvolinkpbx/main.go\<close>: how the
  components are assembled, and the life of the process from its sockets to its shutdown. The SIP
  library (\<open>emiago/sipgo\<close>) and \<open>golang.org/x/sync/errgroup\<close> are parameters.
\<close>

subsection \<open>Configuration\<close>

record app_config =
  cf_BindHost :: string
  cf_SIPPort :: int
  cf_Realm :: string
  cf_TenantID :: string
  cf_NodeID :: string
  cf_NonceSecret :: "byte list"
  cf_NonceTTL :: duration
  cf_MaxReplayEntries :: int
  cf_DefaultRegisterExpiry :: duration
  cf_MinRegisterExpiry :: duration
  cf_MaxRegisterExpiry :: duration
  cf_RegisterCleanup :: duration
  cf_TransactionTimeout :: duration
  cf_InviteTimeout :: duration
  cf_DispatchTimeout :: duration
  cf_MaxActiveCalls :: int
  cf_CallMailboxSize :: int
  cf_MediaBindIP :: netip_addr
  cf_MediaAdvertisedIP :: netip_addr
  cf_RTPStartPort :: "16 word"
  cf_RTPEndPort :: "16 word"
  cf_RTPReadPoll :: duration
  cf_MediaInactivity :: duration
  cf_RTCPInterval :: duration
  cf_MediaSummaryInterval :: duration
  cf_MediaSummaryTimeout :: duration

text \<open>\<open>net.ParseIP\<close> is not nil: an address without a zone.\<close>

definition ParseIP_ok :: "string \<Rightarrow> bool" where
  "ParseIP_ok s = (case ParseAddr s of Inl _ \<Rightarrow> False | Inr (Addr6 _ zone) \<Rightarrow> zone = '''' | Inr _ \<Rightarrow> True)"

definition validateConfig :: "app_config \<Rightarrow> go_error option" where
  "validateConfig cfg =
     (if \<not> ParseIP_ok (cf_BindHost cfg) then Some (Errorf ''bind host must be an IP address'')
      else if cf_SIPPort cfg \<le> 0 \<or> 65535 < cf_SIPPort cfg then Some (Errorf ''SIP port must be between 1 and 65535'')
      else if cf_Realm cfg = '''' \<or> cf_TenantID cfg = '''' \<or> cf_NodeID cfg = ''''
      then Some (Errorf ''realm, tenant ID, and node ID are required'')
      else if cf_RegisterCleanup cfg \<le> 0 then Some (Errorf ''registration cleanup interval must be positive'')
      else if \<not> addr_IsValid (cf_MediaBindIP cfg) \<or> \<not> addr_IsValid (cf_MediaAdvertisedIP cfg)
      then Some (Errorf ''media bind and advertised IPs are required'')
      else None)"

text \<open>The configurations \<open>New\<close> derives for the components.\<close>

definition auth_config_of :: "app_config \<Rightarrow> auth_config" where
  "auth_config_of cfg =
     \<lparr>ac_Realm = cf_Realm cfg, ac_NonceSecret = cf_NonceSecret cfg, ac_NonceTTL = cf_NonceTTL cfg,
      ac_MaxReplayEntries = cf_MaxReplayEntries cfg\<rparr>"

definition registrar_config_of :: "app_config \<Rightarrow> registrar_config" where
  "registrar_config_of cfg =
     \<lparr>rc_Realm = cf_Realm cfg, rc_DefaultExpires = cf_DefaultRegisterExpiry cfg, rc_MinExpires = cf_MinRegisterExpiry cfg,
      rc_MaxExpires = cf_MaxRegisterExpiry cfg, rc_TransactionTimeout = cf_TransactionTimeout cfg\<rparr>"

definition pool_config_of :: "app_config \<Rightarrow> pool_config" where
  "pool_config_of cfg =
     \<lparr>cfg_BindIP = cf_MediaBindIP cfg, cfg_StartPort = cf_RTPStartPort cfg, cfg_EndPort = cf_RTPEndPort cfg\<rparr>"

definition media_config_of :: "app_config \<Rightarrow> media_config" where
  "media_config_of cfg =
     \<lparr>mc_AdvertisedIP = cf_MediaAdvertisedIP cfg, mc_ReadPollInterval = cf_RTPReadPoll cfg,
      mc_InactivityTimeout = cf_MediaInactivity cfg, mc_RTCPInterval = cf_RTCPInterval cfg,
      mc_SummaryInterval = cf_MediaSummaryInterval cfg, mc_SummaryTimeout = cf_MediaSummaryTimeout cfg\<rparr>"

definition b2b_config_of :: "app_config \<Rightarrow> b2b_config" where
  "b2b_config_of cfg =
     \<lparr>bc_TenantID = cf_TenantID cfg, bc_Realm = cf_Realm cfg, bc_NodeID = cf_NodeID cfg,
      bc_MaxActiveCalls = cf_MaxActiveCalls cfg, bc_MailboxSize = cf_CallMailboxSize cfg,
      bc_InviteTimeout = cf_InviteTimeout cfg, bc_DispatchTimeout = cf_DispatchTimeout cfg\<rparr>"

subsection \<open>Assembly\<close>

text \<open>What \<open>New\<close> uses of \<open>sipgo\<close>, on the state \<open>'o\<close> of the outside world.\<close>

record ('o, 'u, 'v, 'l) sipgo =
  sg_NewUA :: "string \<Rightarrow> string \<Rightarrow> 'o \<Rightarrow> 'o \<times> 'u result"
  sg_NewServer :: "'u \<Rightarrow> 'o \<Rightarrow> 'o \<times> 'v result"
  sg_NewClient :: "'u \<Rightarrow> string \<Rightarrow> int \<Rightarrow> 'o \<Rightarrow> 'o \<times> 'l result"
  ua_Close :: "'u \<Rightarrow> 'o \<Rightarrow> 'o \<times> go_error option"

text \<open>The application; the fields after \<open>app_ran\<close> are those of its engine that never change.\<close>

record ('s, 'u, 'v, 'l, 'c, 'q) app =
  app_cfg :: app_config
  app_ua :: 'u
  app_server :: 'v
  app_manager :: "'s registration_store"
  app_registrar :: "registrar_config \<times> authenticator \<times> 's registration_store"
  app_calls :: engine
  app_ready :: bool
  app_ran :: bool
  app_client :: 'l
  app_contact :: "string \<times> string \<times> string \<times> int"
  app_mediaFactory :: "media_config \<times> 'c pool \<times> 'q"

text \<open>A failure after the user agent was created: it is closed, whatever that reports.\<close>

definition give_up :: "('o, 'u, 'v, 'l) sipgo \<Rightarrow> 'u \<Rightarrow> 'o \<Rightarrow> go_error \<Rightarrow> 'o \<times> 'a result" where
  "give_up sg ua os e = (fst (ua_Close sg ua os), Inl e)"

definition app_New ::
  "('o, 'u, 'v, 'l) sipgo \<Rightarrow> app_config \<Rightarrow> 'k option \<Rightarrow> 's registration_store option \<Rightarrow> 'p option \<Rightarrow> 'q option \<Rightarrow> 'g option \<Rightarrow> 'o \<Rightarrow>
     ('o \<times> ('s, 'u, 'v, 'l, 'c, 'q) app result) option" where
  "app_New sg cfg credentialStore registrationStore publisher mediaPublisher logger os =
     (case validateConfig cfg of
        Some e \<Rightarrow> Some (os, Inl e)
      | None \<Rightarrow>
     (case NewManager registrationStore (Some ()) of
        Inl e \<Rightarrow> Some (os, Inl e)
      | Inr manager \<Rightarrow>
     (case auth_New (auth_config_of cfg) credentialStore (Some ()) of
        Inl e \<Rightarrow> Some (os, Inl e)
      | Inr authenticator \<Rightarrow>
     (case NewHandler (registrar_config_of cfg) (Some authenticator) (Some manager) of
        Inl e \<Rightarrow> Some (os, Inl e)
      | Inr registerHandler \<Rightarrow>
     (case sg_NewUA sg ''AixvoLinkPBX'' (cf_BindHost cfg) os of
        (os1, Inl e) \<Rightarrow> Some (os1, Inl (Wrapf ''create SIP user agent: %w'' e))
      | (os1, Inr ua) \<Rightarrow>
     (case sg_NewServer sg ua os1 of
        (os2, Inl e) \<Rightarrow> Some (give_up sg ua os2 (Wrapf ''create SIP server: %w'' e))
      | (os2, Inr srv) \<Rightarrow>
     (case sg_NewClient sg ua (cf_BindHost cfg) (cf_SIPPort cfg) os2 of
        (os3, Inl e) \<Rightarrow> Some (give_up sg ua os3 (Wrapf ''create SIP client: %w'' e))
      | (os3, Inr client) \<Rightarrow>
     (case pool_New (pool_config_of cfg) of
        None \<Rightarrow> None
      | Some (Inl e) \<Rightarrow> Some (give_up sg ua os3 e)
      | Some (Inr mediaPool) \<Rightarrow>
     (case NewFactory (media_config_of cfg) (Some mediaPool) mediaPublisher of
        Inl e \<Rightarrow> Some (give_up sg ua os3 e)
      | Inr mediaFactory \<Rightarrow>
     (case NewEngine (b2b_config_of cfg) (Some manager) publisher (Some ()) (Some client) (Some mediaFactory) logger of
        Inl e \<Rightarrow> Some (give_up sg ua os3 e)
      | Inr callEngine \<Rightarrow>
          Some (os3, Inr
            \<lparr>app_cfg = cfg, app_ua = ua, app_server = srv, app_manager = manager, app_registrar = registerHandler,
             app_calls = callEngine, app_ready = False, app_ran = False, app_client = client,
             app_contact = (''sip'', ''pbx'', cf_BindHost cfg, cf_SIPPort cfg), app_mediaFactory = mediaFactory\<rparr>)))))))))))"

text \<open>The configurations that every constructor accepts.\<close>

definition config_ok :: "app_config \<Rightarrow> bool" where
  "config_ok cfg \<longleftrightarrow>
     ParseIP_ok (cf_BindHost cfg) \<and> 0 < cf_SIPPort cfg \<and> cf_SIPPort cfg \<le> 65535 \<and>
     cf_Realm cfg \<noteq> '''' \<and> cf_TenantID cfg \<noteq> '''' \<and> cf_NodeID cfg \<noteq> '''' \<and>
     32 \<le> length (cf_NonceSecret cfg) \<and> 0 < cf_NonceTTL cfg \<and> 0 < cf_MaxReplayEntries cfg \<and>
     0 < cf_MinRegisterExpiry cfg \<and> cf_MinRegisterExpiry cfg \<le> cf_DefaultRegisterExpiry cfg \<and>
     cf_DefaultRegisterExpiry cfg \<le> cf_MaxRegisterExpiry cfg \<and>
     0 < cf_RegisterCleanup cfg \<and> 0 < cf_TransactionTimeout cfg \<and> 0 < cf_InviteTimeout cfg \<and> 0 < cf_DispatchTimeout cfg \<and>
     0 < cf_MaxActiveCalls cfg \<and> 0 < cf_CallMailboxSize cfg \<and> cf_CallMailboxSize cfg \<le> MaxMailboxCapacity \<and>
     addr_IsValid (cf_MediaBindIP cfg) \<and> \<not> addr_IsUnspecified (cf_MediaBindIP cfg) \<and>
     addr_IsValid (cf_MediaAdvertisedIP cfg) \<and> \<not> addr_IsUnspecified (cf_MediaAdvertisedIP cfg) \<and>
     1024 \<le> cf_RTPStartPort cfg \<and> even (cf_RTPStartPort cfg) \<and> odd (cf_RTPEndPort cfg) \<and> cf_RTPStartPort cfg < cf_RTPEndPort cfg \<and>
     0 < cf_RTPReadPoll cfg \<and> cf_RTPReadPoll cfg < cf_MediaInactivity cfg \<and>
     0 < cf_RTCPInterval cfg \<and> 0 < cf_MediaSummaryInterval cfg \<and> 0 < cf_MediaSummaryTimeout cfg"

lemma pool_New_returns:
  "\<exists>r. pool_New cfg = Some r \<and>
     (isl r \<longleftrightarrow> \<not> (addr_IsValid (cfg_BindIP cfg) \<and> \<not> addr_IsUnspecified (cfg_BindIP cfg) \<and> 1024 \<le> cfg_StartPort cfg \<and>
        even (cfg_StartPort cfg) \<and> odd (cfg_EndPort cfg) \<and> cfg_StartPort cfg < cfg_EndPort cfg))"
proof (cases "addr_IsValid (cfg_BindIP cfg) \<and> \<not> addr_IsUnspecified (cfg_BindIP cfg) \<and> 1024 \<le> cfg_StartPort cfg \<and>
        even (cfg_StartPort cfg) \<and> odd (cfg_EndPort cfg) \<and> cfg_StartPort cfg < cfg_EndPort cfg")
  case True
  let ?s = "unat (cfg_StartPort cfg)" and ?e = "unat (cfg_EndPort cfg)"
  have lt: "?s < ?e" using True by (simp add: word_less_nat_alt)
  then have "uint (cfg_EndPort cfg) - uint (cfg_StartPort cfg) + 1 = int (?e + 1 - ?s)" unfolding uint_nat by linarith
  then have count: "go_div (uint (cfg_EndPort cfg) - uint (cfg_StartPort cfg) + 1) 2 = int ((?e + 1 - ?s) div 2)"
    by (simp only: go_div_nonneg of_nat_0_le_iff zero_less_numeral zdiv_int of_nat_numeral)
  have "length (map of_nat (port_range ?s ?e) :: 16 word list) = (?e + 1 - ?s) div 2" by (simp add: port_range_length)
  then have sent: "\<exists>ch. send_all (map of_nat (port_range ?s ?e) :: 16 word list) (chan_make ((?e + 1 - ?s) div 2)) = Some ch"
    by (subst send_all_room) (simp_all add: chan_make_def)
  have "0 < (?e + 1 - ?s) div 2" using lt by simp
  then show ?thesis
    using True count sent
    by (auto simp: pool_New_def Let_def even_iff_mod_2_eq_zero odd_iff_mod_2_eq_one not_le not_less)
next
  case False
  then show ?thesis
    by (auto simp: pool_New_def Let_def even_iff_mod_2_eq_zero odd_iff_mod_2_eq_one not_le not_less)
qed

lemma validateConfig_ok: "config_ok cfg \<Longrightarrow> validateConfig cfg = None"
  by (simp add: config_ok_def validateConfig_def)

text \<open>Each constructor accepts exactly its part of \<open>config_ok\<close>.\<close>

lemma constructors_accept:
  "isl (auth_New (auth_config_of cfg) credentialStore (Some ())) \<longleftrightarrow>
     \<not> (cf_Realm cfg \<noteq> '''' \<and> 32 \<le> length (cf_NonceSecret cfg) \<and> 0 < cf_NonceTTL cfg \<and> 0 < cf_MaxReplayEntries cfg \<and> credentialStore \<noteq> None)"
  "isl (NewHandler (registrar_config_of cfg) (Some a) (Some m)) \<longleftrightarrow>
     \<not> (cf_Realm cfg \<noteq> '''' \<and> 0 < cf_MinRegisterExpiry cfg \<and> cf_MinRegisterExpiry cfg \<le> cf_DefaultRegisterExpiry cfg \<and>
        cf_DefaultRegisterExpiry cfg \<le> cf_MaxRegisterExpiry cfg \<and> 0 < cf_TransactionTimeout cfg)"
  "isl (NewFactory (media_config_of cfg) (Some q) mediaPublisher) \<longleftrightarrow>
     \<not> (addr_IsValid (cf_MediaAdvertisedIP cfg) \<and> \<not> addr_IsUnspecified (cf_MediaAdvertisedIP cfg) \<and> 0 < cf_RTPReadPoll cfg \<and>
        cf_RTPReadPoll cfg < cf_MediaInactivity cfg \<and> 0 < cf_RTCPInterval cfg \<and> 0 < cf_MediaSummaryInterval cfg \<and>
        0 < cf_MediaSummaryTimeout cfg \<and> mediaPublisher \<noteq> None)"
  "isl (NewEngine (b2b_config_of cfg) (Some r) publisher (Some ()) (Some l) (Some f) logger) \<longleftrightarrow>
     \<not> (cf_TenantID cfg \<noteq> '''' \<and> cf_Realm cfg \<noteq> '''' \<and> cf_NodeID cfg \<noteq> '''' \<and> 0 < cf_MaxActiveCalls cfg \<and> 0 < cf_CallMailboxSize cfg \<and>
        cf_CallMailboxSize cfg \<le> MaxMailboxCapacity \<and> 0 < cf_InviteTimeout cfg \<and> 0 < cf_DispatchTimeout cfg \<and>
        publisher \<noteq> None \<and> logger \<noteq> None)"
  by (auto simp: auth_New_def auth_config_of_def NewHandler_def registrar_config_of_def NewFactory_def media_config_of_def
      NewEngine_def b2b_config_of_def split: option.splits)

lemma app_New_pool:
  "\<exists>r. pool_New (pool_config_of cfg) = Some r \<and>
     (isl r \<longleftrightarrow> \<not> (addr_IsValid (cf_MediaBindIP cfg) \<and> \<not> addr_IsUnspecified (cf_MediaBindIP cfg) \<and> 1024 \<le> cf_RTPStartPort cfg \<and>
        even (cf_RTPStartPort cfg) \<and> odd (cf_RTPEndPort cfg) \<and> cf_RTPStartPort cfg < cf_RTPEndPort cfg))"
  using pool_New_returns [of "pool_config_of cfg"] by (simp add: pool_config_of_def)

text \<open>Either an error with nothing left open, or an application of components that were accepted.\<close>

definition assembled ::
  "app_config \<Rightarrow> 'u \<Rightarrow> 'v \<Rightarrow> 'l \<Rightarrow> 'k option \<Rightarrow> 's registration_store option \<Rightarrow> 'p option \<Rightarrow> 'q option \<Rightarrow> 'g option \<Rightarrow> ('s, 'u, 'v, 'l, 'c, 'q) app \<Rightarrow> bool" where
  "assembled cfg ua srv client credentialStore registrationStore publisher mediaPublisher logger a \<longleftrightarrow>
     app_cfg a = cfg \<and> app_ua a = ua \<and> app_server a = srv \<and> app_client a = client \<and> \<not> app_ran a \<and> \<not> app_ready a \<and>
     registrationStore = Some (app_manager a) \<and> snd (snd (app_registrar a)) = app_manager a \<and>
     auth_New (auth_config_of cfg) credentialStore (Some ()) = Inr (fst (snd (app_registrar a))) \<and>
     pool_New (pool_config_of cfg) = Some (Inr (fst (snd (app_mediaFactory a)))) \<and>
     mediaPublisher = Some (snd (snd (app_mediaFactory a))) \<and>
     NewEngine (b2b_config_of cfg) (Some (app_manager a)) publisher (Some ()) (Some client) (Some (app_mediaFactory a)) logger = Inr (app_calls a)"

lemma app_New_tail:
  fixes sg :: "('o, 'u, 'v, 'l) sipgo" and mediaPublisher :: "'q option" and m :: "'s registration_store"
  assumes sip: "sg_NewUA sg ''AixvoLinkPBX'' (cf_BindHost cfg) os = (os1, Inr ua)" "sg_NewServer sg ua os1 = (os2, Inr srv)"
      "sg_NewClient sg ua (cf_BindHost cfg) (cf_SIPPort cfg) os2 = (os3, Inr client)"
    and valid: "validateConfig cfg = None" and auth: "auth_New (auth_config_of cfg) credentialStore (Some ()) = Inr au"
    and handler: "NewHandler (registrar_config_of cfg) (Some au) (Some m) = Inr h"
  shows "\<exists>r. (app_New sg cfg credentialStore (Some m) publisher mediaPublisher logger os
       :: ('o \<times> ('s, 'u, 'v, 'l, 'c, 'q) app result) option) = Some r \<and>
     (if config_ok cfg \<and> publisher \<noteq> None \<and> mediaPublisher \<noteq> None \<and> logger \<noteq> None
      then \<exists>a. r = (os3, Inr a) \<and> assembled cfg ua srv client credentialStore (Some m) publisher mediaPublisher logger a
      else \<exists>e. r = (fst (ua_Close sg ua os3), Inl e))"
proof -
  have manager: "NewManager (Some m) (Some ()) = Inr m" by (simp add: NewManager_def)
  obtain p :: "'c pool result" where pool: "pool_New (pool_config_of cfg) = Some p"
    and p: "isl p \<longleftrightarrow> \<not> (addr_IsValid (cf_MediaBindIP cfg) \<and> \<not> addr_IsUnspecified (cf_MediaBindIP cfg) \<and>
      1024 \<le> cf_RTPStartPort cfg \<and> even (cf_RTPStartPort cfg) \<and> odd (cf_RTPEndPort cfg) \<and> cf_RTPStartPort cfg < cf_RTPEndPort cfg)"
    using app_New_pool by blast
  note run = app_New_def sip valid manager auth handler pool prod.case sum.case option.case
  have h: "h = (registrar_config_of cfg, au, m)" using handler by (auto simp: NewHandler_def split: if_splits)
  show ?thesis
  proof (cases p)
    case (Inl e)
    then show ?thesis using p unfolding run by (auto simp: config_ok_def give_up_def)
  next
    case pool': (Inr q)
    show ?thesis
    proof (cases "NewFactory (media_config_of cfg) (Some q) mediaPublisher")
      case (Inl e)
      then show ?thesis using constructors_accept(3) [of cfg q mediaPublisher] pool'
        unfolding run by (auto simp: config_ok_def give_up_def)
    next
      case factory: (Inr f)
      then obtain w where f: "f = (media_config_of cfg, q, w)" "mediaPublisher = Some w"
        by (auto simp: NewFactory_def split: if_splits option.splits)
      show ?thesis
      proof (cases "NewEngine (b2b_config_of cfg) (Some m) publisher (Some ()) (Some client) (Some f) logger")
        case (Inl e)
        then show ?thesis using constructors_accept(4) [of cfg m publisher client f logger] pool' factory
          unfolding run by (auto simp: config_ok_def give_up_def)
      next
        case engine: (Inr g)
        have "config_ok cfg \<and> publisher \<noteq> None \<and> mediaPublisher \<noteq> None \<and> logger \<noteq> None"
          using valid p pool' auth handler factory engine constructors_accept(1) [of cfg credentialStore] constructors_accept(2) [of cfg au m]
            constructors_accept(3) [of cfg q mediaPublisher] constructors_accept(4) [of cfg m publisher client f logger]
          by (simp add: config_ok_def validateConfig_def split: if_splits)
        then show ?thesis
          using pool' factory engine f unfolding run by (auto simp: assembled_def h auth pool)
      qed
    qed
  qed
qed

text \<open>The application is assembled exactly from accepted parts. When the SIP library gives a user agent,
  a server and a client, \<open>New\<close> returns (it never blocks on the pool it fills); it returns an application
  exactly when every bound of the configuration holds and every dependency is present, and then its
  registrar, authenticator, port pool and call engine are in the states their own constructors
  make, share one registration store, and nothing has run yet; otherwise it returns an error, and
  the user agent is closed again if it had been created.\<close>

lemma app_New_outcome:
  fixes sg :: "('o, 'u, 'v, 'l) sipgo" and registrationStore :: "'s registration_store option" and mediaPublisher :: "'q option"
  assumes "sg_NewUA sg ''AixvoLinkPBX'' (cf_BindHost cfg) os = (os1, Inr ua)" and "sg_NewServer sg ua os1 = (os2, Inr srv)"
    and "sg_NewClient sg ua (cf_BindHost cfg) (cf_SIPPort cfg) os2 = (os3, Inr client)"
  shows "\<exists>r. (app_New sg cfg credentialStore registrationStore publisher mediaPublisher logger os
       :: ('o \<times> ('s, 'u, 'v, 'l, 'c, 'q) app result) option) = Some r \<and>
     (if config_ok cfg \<and> credentialStore \<noteq> None \<and> registrationStore \<noteq> None \<and> publisher \<noteq> None \<and> mediaPublisher \<noteq> None \<and> logger \<noteq> None
      then \<exists>a. r = (os3, Inr a) \<and> assembled cfg ua srv client credentialStore registrationStore publisher mediaPublisher logger a
      else \<exists>e. r = (os, Inl e) \<or> r = (fst (ua_Close sg ua os3), Inl e))"
proof (cases "validateConfig cfg")
  case (Some e)
  then show ?thesis using validateConfig_ok [of cfg] by (auto simp: app_New_def)
next
  case valid: None
  show ?thesis
  proof (cases registrationStore)
    case None
    then show ?thesis using valid by (auto simp: app_New_def NewManager_def)
  next
    case store: (Some m)
    show ?thesis
    proof (cases "auth_New (auth_config_of cfg) credentialStore (Some ())")
      case (Inl e)
      then show ?thesis using valid store constructors_accept(1) [of cfg credentialStore]
        by (auto simp: app_New_def NewManager_def config_ok_def)
    next
      case auth: (Inr au)
      show ?thesis
      proof (cases "NewHandler (registrar_config_of cfg) (Some au) (Some m)")
        case (Inl e)
        then show ?thesis using valid store auth constructors_accept(2) [of cfg au m]
          by (auto simp: app_New_def NewManager_def config_ok_def)
      next
        case (Inr h)
        have "credentialStore \<noteq> None" using auth constructors_accept(1) [of cfg credentialStore] by auto
        then show ?thesis
          using app_New_tail [OF assms valid auth Inr, of publisher mediaPublisher logger] store by (auto split: if_splits)
      qed
    qed
  qed
qed

subsection \<open>The command\<close>

text \<open>The flags as \<open>flags.Parse\<close> leaves them.\<close>

record flags =
  fl_showVersion :: bool
  fl_bindHost :: string
  fl_sipPort :: int
  fl_realm :: string
  fl_tenantID :: string
  fl_nodeID :: string
  fl_mediaBind :: string
  fl_mediaAdvertised :: string
  fl_rtpStart :: "64 word"
  fl_rtpEnd :: "64 word"

definition service_config :: "flags \<Rightarrow> netip_addr \<Rightarrow> netip_addr \<Rightarrow> byte list \<Rightarrow> app_config" where
  "service_config fl mediaBindIP mediaAdvertisedIP nonceSecret =
     \<lparr>cf_BindHost = fl_bindHost fl, cf_SIPPort = fl_sipPort fl, cf_Realm = fl_realm fl, cf_TenantID = fl_tenantID fl,
      cf_NodeID = fl_nodeID fl, cf_NonceSecret = nonceSecret, cf_NonceTTL = 5 * Minute, cf_MaxReplayEntries = 10000,
      cf_DefaultRegisterExpiry = 5 * Minute, cf_MinRegisterExpiry = Minute, cf_MaxRegisterExpiry = 60 * Minute,
      cf_RegisterCleanup = 30 * Second, cf_TransactionTimeout = 5 * Second, cf_InviteTimeout = 30 * Second,
      cf_DispatchTimeout = 5 * Second, cf_MaxActiveCalls = 1000, cf_CallMailboxSize = 64,
      cf_MediaBindIP = mediaBindIP, cf_MediaAdvertisedIP = mediaAdvertisedIP,
      cf_RTPStartPort = ucast (fl_rtpStart fl), cf_RTPEndPort = ucast (fl_rtpEnd fl), cf_RTPReadPoll = 250000 * Microsecond,
      cf_MediaInactivity = 10 * Second, cf_RTCPInterval = 5 * Second, cf_MediaSummaryInterval = 5 * Second,
      cf_MediaSummaryTimeout = 100000 * Microsecond\<rparr>"

text \<open>
  What \<open>run\<close> is given: the environment variables, the MySQL driver, the SIP library, and the group of
  goroutines (\<open>errgroup\<close>) that serves on the two queues and the application until it ends.
\<close>

record ('o, 'h, 'u, 'v, 'l, 'c) platform =
  pf_Getenv :: "string \<Rightarrow> string"
  pf_ParseDSN :: "string \<Rightarrow> dsn_config result"
  pf_sqlOpen :: "dsn_config \<Rightarrow> 'h result"
  pf_Ping :: "ctx \<Rightarrow> 'h \<Rightarrow> go_error option"
  pf_CloseStore :: "'h \<Rightarrow> go_error option"
  pf_mysql :: mysql
  pf_sipgo :: "('o, 'u, 'v, 'l) sipgo"
  pf_group :: "event chan \<Rightarrow> summary chan \<Rightarrow> (database, 'u, 'v, 'l, 'c, summary chan) app \<Rightarrow> 'o \<Rightarrow> 'o \<times> go_error option"

text \<open>\<open>run\<close> after the flags; \<open>connect\<close> is the context with the timeout for the connection.\<close>

definition main_run :: "('o, 'h, 'u, 'v, 'l, 'c) platform \<Rightarrow> ctx \<Rightarrow> flags \<Rightarrow> 'o \<Rightarrow> ('o \<times> go_error option) option" where
  "main_run pf connect fl os =
     (if fl_showVersion fl then Some (os, None)
      else case ParseAddr (fl_mediaBind fl) of
        Inl e \<Rightarrow> Some (os, Some (Wrapf ''parse media bind IP: %w'' e))
      | Inr mediaBindIP \<Rightarrow>
     (case ParseAddr (fl_mediaAdvertised fl) of
        Inl e \<Rightarrow> Some (os, Some (Wrapf ''parse media advertised IP: %w'' e))
      | Inr mediaAdvertisedIP \<Rightarrow>
      if 65535 < fl_rtpStart fl \<or> 65535 < fl_rtpEnd fl then Some (os, Some (Errorf ''media port range exceeds 65535''))
      else let dsn = pf_Getenv pf ''AIXVOLINKPBX_MYSQL_DSN''
      in if dsn = '''' then Some (os, Some (Errorf ''environment variable AIXVOLINKPBX_MYSQL_DSN is required''))
      else let nonceSecret = string_bytes (pf_Getenv pf ''AIXVOLINKPBX_NONCE_SECRET'')
      in if length nonceSecret < 32
         then Some (os, Some (Errorf ''environment variable AIXVOLINKPBX_NONCE_SECRET must contain at least 32 bytes''))
      else case Open (pf_ParseDSN pf) (pf_sqlOpen pf) (pf_Ping pf) connect dsn of
        Inl e \<Rightarrow> Some (os, Some e)
      | Inr store \<Rightarrow>
     (let finish = (\<lambda>os err. Some (os, errors_Join [err, pf_CloseStore pf store]))
      in case NewCallBus 1024 of
        Inl e \<Rightarrow> finish os (Some e)
      | Inr callBus \<Rightarrow>
     (case NewMediaBus 1024 of
        Inl e \<Rightarrow> finish os (Some e)
      | Inr mediaBus \<Rightarrow>
     (case app_New (pf_sipgo pf) (service_config fl mediaBindIP mediaAdvertisedIP nonceSecret) (Some store)
             (Some (mysql_store (pf_mysql pf))) (Some callBus) (Some mediaBus) (Some ()) os of
        None \<Rightarrow> None
      | Some (os1, Inl e) \<Rightarrow> finish os1 (Some e)
      | Some (os1, Inr application) \<Rightarrow>
          (case pf_group pf callBus mediaBus application os1 of
             (os2, Some e) \<Rightarrow> finish os2 (Some (Wrapf ''run service: %w'' e))
           | (os2, None) \<Rightarrow> finish os2 None))))))"

text \<open>The flags with which the service starts.\<close>

definition flags_ok :: "flags \<Rightarrow> netip_addr \<Rightarrow> netip_addr \<Rightarrow> bool" where
  "flags_ok fl bindIP advertisedIP \<longleftrightarrow>
     ParseIP_ok (fl_bindHost fl) \<and> 0 < fl_sipPort fl \<and> fl_sipPort fl \<le> 65535 \<and> fl_realm fl \<noteq> '''' \<and> fl_tenantID fl \<noteq> '''' \<and>
     fl_nodeID fl \<noteq> '''' \<and> \<not> addr_IsUnspecified bindIP \<and> \<not> addr_IsUnspecified advertisedIP \<and>
     1024 \<le> unat (fl_rtpStart fl) \<and> even (unat (fl_rtpStart fl)) \<and> odd (unat (fl_rtpEnd fl)) \<and>
     unat (fl_rtpStart fl) < unat (fl_rtpEnd fl)"

lemma service_config_ok:
  assumes "ParseAddr (fl_mediaBind fl) = Inr bindIP" and "ParseAddr (fl_mediaAdvertised fl) = Inr advertisedIP"
    and "fl_rtpStart fl \<le> 65535" and "fl_rtpEnd fl \<le> 65535" and "32 \<le> length secret"
  shows "config_ok (service_config fl bindIP advertisedIP secret) \<longleftrightarrow> flags_ok fl bindIP advertisedIP"
proof -
  have small: "unat (ucast w :: 16 word) = unat w" if "w \<le> 65535" for w :: "64 word"
  proof -
    have "unat w \<le> 65535" using that by (simp add: word_le_nat_alt)
    then show ?thesis by (simp add: unsigned_ucast_eq take_bit_nat_eq_self_iff)
  qed
  have ports: "1024 \<le> (ucast (fl_rtpStart fl) :: 16 word) \<longleftrightarrow> 1024 \<le> unat (fl_rtpStart fl)"
    "(ucast (fl_rtpStart fl) :: 16 word) < ucast (fl_rtpEnd fl) \<longleftrightarrow> unat (fl_rtpStart fl) < unat (fl_rtpEnd fl)"
    "even (ucast (fl_rtpStart fl) :: 16 word) \<longleftrightarrow> even (unat (fl_rtpStart fl))"
    "even (ucast (fl_rtpEnd fl) :: 16 word) \<longleftrightarrow> even (unat (fl_rtpEnd fl))"
    using small [OF assms(3)] small [OF assms(4)] by (simp_all add: word_le_nat_alt word_less_nat_alt word_even)
  have "addr_IsValid bindIP" "addr_IsValid advertisedIP" using assms(1,2) ParseAddr_valid by blast+
  then show ?thesis
    using assms(5) ports
    by (simp add: config_ok_def service_config_def flags_ok_def Minute_def Second_def Microsecond_def MaxMailboxCapacity_def)
qed


text \<open>The command with its default flags, on a platform where everything is available.\<close>

definition demo_sipgo :: "(nat, unit, unit, unit) sipgo" where
  "demo_sipgo =
     \<lparr>sg_NewUA = (\<lambda>_ _ os. (os + 1, Inr ())), sg_NewServer = (\<lambda>_ os. (os, Inr ())), sg_NewClient = (\<lambda>_ _ _ os. (os, Inr ())),
      ua_Close = (\<lambda>_ os. (os - 1, None))\<rparr>"

definition demo_platform :: "(nat, unit, unit, unit, unit, unit) platform" where
  "demo_platform =
     \<lparr>pf_Getenv = (\<lambda>_. replicate 32 (CHR ''s'')), pf_ParseDSN = (\<lambda>s. Inr \<lparr>dsn_ParseTime = False, dsn_Loc = '''', dsn_rest = s\<rparr>),
      pf_sqlOpen = (\<lambda>_. Inr ()), pf_Ping = (\<lambda>_ _. None), pf_CloseStore = (\<lambda>_. None), pf_mysql = exact_mysql,
      pf_sipgo = demo_sipgo, pf_group = (\<lambda>_ _ _ os. (os, None))\<rparr>"

definition demo_flags :: flags where
  "demo_flags =
     \<lparr>fl_showVersion = False, fl_bindHost = ''127.0.0.1'', fl_sipPort = 5060, fl_realm = ''pbx.example.invalid'',
      fl_tenantID = ''default'', fl_nodeID = ''pbx-development-1'', fl_mediaBind = ''127.0.0.1'', fl_mediaAdvertised = ''127.0.0.1'',
      fl_rtpStart = 10000, fl_rtpEnd = 19999\<rparr>"

lemma demo_address: "ParseAddr ''127.0.0.1'' = Inr (Addr4 2130706433)"
  by (simp add: ParseAddr_def parse_v4_fields_def v4_of_def parse_octet_def ParseUint_def digit_value_def)

lemma demo_flags_ok: "flags_ok demo_flags (Addr4 2130706433) (Addr4 2130706433)"
  by (simp add: flags_ok_def demo_flags_def ParseIP_ok_def demo_address)


text \<open>The same configuration is refused without a summary queue, and the user agent is closed again.\<close>

lemma app_New_refusal:
  "(\<exists>a. app_New demo_sipgo (service_config demo_flags (Addr4 2130706433) (Addr4 2130706433) (replicate 32 0)) (Some ())
      (Some (mysql_store exact_mysql)) (Some ()) (Some ()) (Some ()) 0 = Some (1, Inr (a :: (database, unit, unit, unit, unit, unit) app)) \<and>
      \<not> app_ran a) \<and>
   (\<exists>e. app_New demo_sipgo (service_config demo_flags (Addr4 2130706433) (Addr4 2130706433) (replicate 32 0)) (Some ())
      (Some (mysql_store exact_mysql)) (Some ()) None (Some ()) 0 =
      Some (0 :: nat, Inl e :: (database, unit, unit, unit, unit, unit) app result))"
proof -
  let ?cfg = "service_config demo_flags (Addr4 2130706433) (Addr4 2130706433) (replicate 32 0)"
  have ok: "config_ok ?cfg"
    using service_config_ok [of demo_flags "Addr4 2130706433" "Addr4 2130706433" "replicate 32 0"] demo_flags_ok
    by (simp add: demo_flags_def demo_address)
  have sip: "sg_NewUA demo_sipgo ''AixvoLinkPBX'' (cf_BindHost ?cfg) 0 = (1, Inr ())" "sg_NewServer demo_sipgo () 1 = (1, Inr ())"
    "sg_NewClient demo_sipgo () (cf_BindHost ?cfg) (cf_SIPPort ?cfg) 1 = (1, Inr ())" "ua_Close demo_sipgo () 1 = (0, None)"
    by (simp_all add: demo_sipgo_def)
  note made = app_New_outcome [OF sip(1-3), of "Some ()" "Some (mysql_store exact_mysql)" "Some ()" _ "Some ()"]
  show ?thesis using made [of "Some ()"] made [of None] ok sip(4) by (auto simp: assembled_def)
qed

subsection \<open>The server for SIPp tests\<close>

text \<open>\<open>test/sipp/server/main.go\<close>: the application over the in-process stores, with two devices.\<close>

definition discardPublisher :: "unit publisher" where
  "discardPublisher c e b = Some (b, None)"

text \<open>The state is the list of lines logged: the packets received from each side.\<close>

definition mediaEvidencePublisher :: "(64 word \<times> 64 word) list media_publisher" where
  "mediaEvidencePublisher c summary lines =
     (let caller = s_Packets (ls_Inbound (sm_Caller summary)); callee = s_Packets (ls_Inbound (sm_Callee summary))
      in Some (if 0 < caller \<and> 0 < callee then lines @ [(caller, callee)] else lines, None))"

definition sipp_credentials :: "credential list" where
  "sipp_credentials =
     (let realm = ''pbx.example.invalid''
      in [\<lparr>cred_TenantID = ''tenant-sipp'', cred_Username = ''1001'', cred_Realm = realm,
           cred_HA1 = ComputeHA1 ''1001'' realm ''password-1001'', cred_MaxBindings = 8\<rparr>,
          \<lparr>cred_TenantID = ''tenant-sipp'', cred_Username = ''1002'', cred_Realm = realm,
           cred_HA1 = ComputeHA1 ''1002'' realm ''password-1002'', cred_MaxBindings = 8\<rparr>])"

definition sipp_config :: "int \<Rightarrow> netip_addr \<Rightarrow> app_config" where
  "sipp_config port loopback =
     \<lparr>cf_BindHost = ''127.0.0.1'', cf_SIPPort = port, cf_Realm = ''pbx.example.invalid'', cf_TenantID = ''tenant-sipp'',
      cf_NodeID = ''node-sipp'', cf_NonceSecret = string_bytes ''phase1-sipp-only-secret-32-bytes!!'', cf_NonceTTL = Minute,
      cf_MaxReplayEntries = 4096, cf_DefaultRegisterExpiry = 5 * Minute, cf_MinRegisterExpiry = Second,
      cf_MaxRegisterExpiry = 60 * Minute, cf_RegisterCleanup = Second, cf_TransactionTimeout = 3 * Second,
      cf_InviteTimeout = 5 * Second, cf_DispatchTimeout = 3 * Second, cf_MaxActiveCalls = 64, cf_CallMailboxSize = 64,
      cf_MediaBindIP = loopback, cf_MediaAdvertisedIP = loopback, cf_RTPStartPort = 27000, cf_RTPEndPort = 27511,
      cf_RTPReadPoll = 20000 * Microsecond, cf_MediaInactivity = 2 * Second, cf_RTCPInterval = 500000 * Microsecond,
      cf_MediaSummaryInterval = 500000 * Microsecond, cf_MediaSummaryTimeout = 20000 * Microsecond\<rparr>"

text \<open>\<open>main\<close> up to \<open>Run\<close>: the application, or what it ends with; \<open>MustParseAddr\<close> panics where it cannot parse.\<close>

definition sipp_main ::
  "('o, 'u, 'v, 'l) sipgo \<Rightarrow> picks \<Rightarrow> int \<Rightarrow> 'o \<Rightarrow>
     ('o \<times> (memory, 'u, 'v, 'l, 'c, (64 word \<times> 64 word) list media_publisher) app result) option" where
  "sipp_main sg picks port os =
     (case ParseAddr ''127.0.0.1'' of
        Inl e \<Rightarrow> Some (os, Inl e)
      | Inr loopback \<Rightarrow>
          app_New sg (sipp_config port loopback) (Some (NewCredentialStore sipp_credentials)) (Some (memory_store picks))
            (Some discardPublisher) (Some mediaEvidencePublisher) (Some ()) os)"

text \<open>The server starts on every valid port.\<close>

lemma sipp_starts:
  fixes sg :: "('o, 'u, 'v, 'l) sipgo"
  assumes "0 < port" and "port \<le> 65535" and "sg_NewUA sg ''AixvoLinkPBX'' ''127.0.0.1'' os = (os1, Inr ua)"
    and "sg_NewServer sg ua os1 = (os2, Inr srv)" and "sg_NewClient sg ua ''127.0.0.1'' port os2 = (os3, Inr client)"
  shows "\<exists>a. (sipp_main sg picks port os :: ('o \<times> (memory, 'u, 'v, 'l, 'c, _) app result) option) = Some (os3, Inr a) \<and>
    app_manager a = memory_store picks \<and> \<not> app_ran a"
proof -
  let ?cfg = "sipp_config port (Addr4 2130706433)"
  have ok: "config_ok ?cfg"
    using assms(1,2)
    by (simp add: config_ok_def sipp_config_def ParseIP_ok_def demo_address string_bytes_def Minute_def Second_def Microsecond_def
        MaxMailboxCapacity_def)
  have sip: "sg_NewUA sg ''AixvoLinkPBX'' (cf_BindHost ?cfg) os = (os1, Inr ua)"
    "sg_NewClient sg ua (cf_BindHost ?cfg) (cf_SIPPort ?cfg) os2 = (os3, Inr client)"
    using assms(3,5) by (simp_all add: sipp_config_def)
  note made = app_New_outcome [OF sip(1) assms(4) sip(2), where 'c = 'c, of "Some (NewCredentialStore sipp_credentials)"
      "Some (memory_store picks)" "Some discardPublisher" "Some mediaEvidencePublisher" "Some ()"]
  show ?thesis using made ok by (auto simp: sipp_main_def demo_address assembled_def)
qed

lemma sipp_devices:
  "memory_LookupCredential (NewCredentialStore sipp_credentials) context_Background ''pbx.example.invalid'' ''1002'' =
     Inr \<lparr>cred_TenantID = ''tenant-sipp'', cred_Username = ''1002'', cred_Realm = ''pbx.example.invalid'',
          cred_HA1 = ComputeHA1 ''1002'' ''pbx.example.invalid'' ''password-1002'', cred_MaxBindings = 8\<rparr>"
  by (simp add: memory_LookupCredential_def NewCredentialStore_def sipp_credentials_def context_Background_def Let_def)

end
