(* ===== verification/App_Run.thy ===== *)
theory App_Run
  imports Application
begin

text \<open>
  \<open>Run\<close> of \<open>internal/app/app.go\<close>: the sockets, the two serving goroutines, the loop that waits for the
  end and sweeps expired bindings, and the shutdown, together with the INVITE handlers of the call
  engine it waits for. The goroutine of \<open>Run\<close> is cut at the points where it waits; the step relation
  \<open>app_step\<close> has every interleaving of it with the others.
\<close>

subsection \<open>State\<close>

text \<open>What the operating system and the SIP library report to one \<open>Run\<close>; the UDP listener says whether it is a \<open>*net.UDPConn\<close>.\<close>

record run_env =
  ln_ListenPacket :: "bool result"
  ln_Listen :: "unit result"
  ln_CloseUDP :: "go_error option"
  ln_CloseTCP :: "go_error option"
  ln_CloseUA :: "go_error option"

text \<open>Where the goroutine of \<open>Run\<close> is: not called, past the guard, in the loop, behind the loop,
  collecting the results of the servers, waiting for the calls, returned.\<close>

datatype run_phase = Idle | Starting | Looping | Closing | Collecting | Draining | Ended "go_error option"

record 's run_state =
  rn_ctx :: "go_error option"
  rn_ran :: bool
  rn_ready :: bool
  rn_ua :: bool
  rn_udp :: bool
  rn_tcp :: bool
  rn_serveUDP :: bool
  rn_serveTCP :: bool
  rn_serveErrors :: "go_error option chan"
  rn_received :: nat
  rn_err :: "go_error option"
  rn_phase :: run_phase
  rn_store :: 's
  rn_tasks :: "'s invite_task list"
  rn_engine :: engine

definition stopped_app :: "engine \<Rightarrow> 's \<Rightarrow> 's run_state" where
  "stopped_app e x =
     \<lparr>rn_ctx = None, rn_ran = False, rn_ready = False, rn_ua = True, rn_udp = False, rn_tcp = False, rn_serveUDP = False,
      rn_serveTCP = False, rn_serveErrors = chan_make 2, rn_received = 0, rn_err = None, rn_phase = Idle, rn_store = x,
      rn_tasks = [], rn_engine = e\<rparr>"

subsection \<open>Run\<close>

definition normalizeServeError :: "go_error option \<Rightarrow> go_error option" where
  "normalizeServeError err = (if error_is err net_ErrClosed \<or> error_is err context_Canceled then None else err)"

definition Run_begin :: "'s run_state \<Rightarrow> 's run_state \<times> go_error option" where
  "Run_begin s =
     (if rn_ran s then (s, Some (Errorf ''application can only run once''))
      else (s\<lparr>rn_ran := True, rn_phase := Starting\<rparr>, None))"

text \<open>A \<open>return\<close> of \<open>Run\<close>, with the deferred \<open>ua.Close\<close>.\<close>

definition Run_return :: "run_env \<Rightarrow> go_error option \<Rightarrow> 's run_state \<Rightarrow> 's run_state" where
  "Run_return env err s = s\<lparr>rn_ua := False, rn_phase := Ended (errors_Join [err, ln_CloseUA env])\<rparr>"

definition Run_listen :: "run_env \<Rightarrow> 's run_state \<Rightarrow> 's run_state" where
  "Run_listen env s =
     (case ln_ListenPacket env of
        Inl e \<Rightarrow> Run_return env (Some (Wrapf ''listen SIP UDP: %w'' e)) s
      | Inr False \<Rightarrow> Run_return env (Some (Errorf ''sip UDP listener has unexpected type %T'')) s
      | Inr True \<Rightarrow>
          (case ln_Listen env of
             Inl e \<Rightarrow> Run_return env (Some (Wrapf ''listen SIP TCP: %w'' e)) s
           | Inr _ \<Rightarrow>
               s\<lparr>rn_udp := True, rn_tcp := True, rn_ready := True, rn_serveErrors := chan_make 2, rn_serveUDP := True,
                 rn_serveTCP := True, rn_received := 0, rn_phase := Looping\<rparr>))"

text \<open>
  The arms of the \<open>select\<close>. A tick comes with the context of the sweep, the clock, and what \<open>ctx.Err()\<close>
  reports after the sweep; the context may have been cancelled meanwhile.
\<close>

datatype app_arm = AppDone | AppServe | AppTick ctx time "go_error option"

fun Run_turn :: "'s registration_store \<Rightarrow> app_arm \<Rightarrow> 's run_state \<Rightarrow> 's run_state option" where
  "Run_turn st AppDone s = (if rn_ctx s = None then None else Some (s\<lparr>rn_phase := Closing\<rparr>))"
| "Run_turn st AppServe s =
     (case chan_recv (rn_serveErrors s) of
        None \<Rightarrow> None
      | Some (serveErr, ch) \<Rightarrow>
          let runErr = errors_Join [rn_err s, normalizeServeError serveErr];
              runErr' = (if runErr = None then Some (Errorf ''sip listener stopped unexpectedly'') else runErr)
          in Some (s\<lparr>rn_serveErrors := ch, rn_received := rn_received s + 1, rn_err := runErr', rn_phase := Closing\<rparr>))"
| "Run_turn st (AppTick c now after) s =
     (if rn_ctx s \<noteq> None \<and> after \<noteq> rn_ctx s then None
      else case manager_Expire st c now (rn_store s) of
        (x, Inl cleanupErr) \<Rightarrow>
          if after = None
          then Some (s\<lparr>rn_store := x, rn_err := errors_Join [rn_err s, Some cleanupErr], rn_phase := Closing\<rparr>)
          else Some (s\<lparr>rn_store := x, rn_ctx := after\<rparr>)
      | (x, Inr _) \<Rightarrow> Some (s\<lparr>rn_store := x, rn_ctx := after\<rparr>))"

definition Run_close :: "run_env \<Rightarrow> 's run_state \<Rightarrow> 's run_state" where
  "Run_close env s =
     s\<lparr>rn_udp := False, rn_tcp := False, rn_phase := Collecting,
       rn_err := errors_Join [rn_err s, normalizeServeError (ln_CloseUDP env), normalizeServeError (ln_CloseTCP env)]\<rparr>"

text \<open>The loop over the remaining results, and then \<open>calls.Wait\<close> up to its wait group.\<close>

definition Run_collect :: "'s run_state \<Rightarrow> 's run_state option" where
  "Run_collect s =
     (if rn_received s < 2
      then (case chan_recv (rn_serveErrors s) of
              None \<Rightarrow> None
            | Some (serveErr, ch) \<Rightarrow>
                Some (s\<lparr>rn_serveErrors := ch, rn_err := errors_Join [rn_err s, normalizeServeError serveErr],
                        rn_received := rn_received s + 1\<rparr>))
      else Some (s\<lparr>rn_engine := Wait_stop (rn_engine s), rn_phase := Draining\<rparr>))"

definition Run_drain :: "run_env \<Rightarrow> 's run_state \<Rightarrow> 's run_state option" where
  "Run_drain env s = (if Wait_returns (rn_engine s) then Some (Run_return env (rn_err s) s) else None)"

text \<open>The next step of the goroutine of \<open>Run\<close>; \<open>None\<close> where it waits.\<close>

definition Run_step :: "run_env \<Rightarrow> 's registration_store \<Rightarrow> app_arm \<Rightarrow> 's run_state \<Rightarrow> 's run_state option" where
  "Run_step env st arm s =
     (case rn_phase s of
        Idle \<Rightarrow> None
      | Starting \<Rightarrow> Some (Run_listen env s)
      | Looping \<Rightarrow> Run_turn st arm s
      | Closing \<Rightarrow> Some (Run_close env s)
      | Collecting \<Rightarrow> Run_collect s
      | Draining \<Rightarrow> Run_drain env s
      | Ended _ \<Rightarrow> None)"

text \<open>A serving goroutine whose \<open>ServeUDP\<close> or \<open>ServeTCP\<close> returned sends the result and ends.\<close>

definition serve_udp_returns :: "go_error option \<Rightarrow> 's run_state \<Rightarrow> 's run_state option" where
  "serve_udp_returns err s =
     (if rn_serveUDP s then map_option (\<lambda>ch. s\<lparr>rn_serveErrors := ch, rn_serveUDP := False\<rparr>) (chan_send err (rn_serveErrors s))
      else None)"

definition serve_tcp_returns :: "go_error option \<Rightarrow> 's run_state \<Rightarrow> 's run_state option" where
  "serve_tcp_returns err s =
     (if rn_serveTCP s then map_option (\<lambda>ch. s\<lparr>rn_serveErrors := ch, rn_serveTCP := False\<rparr>) (chan_send err (rn_serveErrors s))
      else None)"

text \<open>The handlers of requests change the registrations, and are the tasks of the call engine.\<close>

inductive app_step ::
  "run_env \<Rightarrow> b2b_config \<Rightarrow> 's registration_store \<Rightarrow> (nat \<Rightarrow> string result) \<Rightarrow> 's run_state \<Rightarrow> 's run_state \<Rightarrow> bool"
  for env cfg st dialogs where
  app_begin: "Run_begin s = (s', r) \<Longrightarrow> app_step env cfg st dialogs s s'"
| app_own: "Run_step env st arm s = Some s' \<Longrightarrow> app_step env cfg st dialogs s s'"
| app_cancel: "rn_ctx s = None \<Longrightarrow> app_step env cfg st dialogs s (s\<lparr>rn_ctx := Some e\<rparr>)"
| app_served_udp: "serve_udp_returns err s = Some s' \<Longrightarrow> app_step env cfg st dialogs s s'"
| app_served_tcp: "serve_tcp_returns err s = Some s' \<Longrightarrow> app_step env cfg st dialogs s s'"
| app_handler: "engine_step cfg st dialogs (rn_tasks s, rn_engine s) (ts, e) \<Longrightarrow> eg_stopping e = eg_stopping (rn_engine s) \<Longrightarrow>
    app_step env cfg st dialogs s (s\<lparr>rn_tasks := ts, rn_engine := e\<rparr>)"
| app_stored: "app_step env cfg st dialogs s (s\<lparr>rn_store := x\<rparr>)"

inductive_cases app_stepE: "app_step env cfg st dialogs s s'"

subsection \<open>Invariant\<close>

definition serving :: "'s run_state \<Rightarrow> nat" where
  "serving s = (if rn_serveUDP s then 1 else 0) + (if rn_serveTCP s then 1 else 0)"

text \<open>Each server has one result: not yet sent, in the channel, or received.\<close>

definition results_ok :: "'s run_state \<Rightarrow> bool" where
  "results_ok s \<longleftrightarrow> ch_cap (rn_serveErrors s) = 2 \<and> serving s + length (ch_buf (rn_serveErrors s)) + rn_received s = 2"

fun phase_inv :: "run_phase \<Rightarrow> 's run_state \<Rightarrow> bool" where
  "phase_inv Idle s \<longleftrightarrow> \<not> rn_ran s \<and> \<not> rn_ready s \<and> rn_ua s \<and> \<not> rn_udp s \<and> \<not> rn_tcp s \<and> serving s = 0 \<and> rn_err s = None"
| "phase_inv Starting s \<longleftrightarrow> rn_ran s \<and> \<not> rn_ready s \<and> rn_ua s \<and> \<not> rn_udp s \<and> \<not> rn_tcp s \<and> serving s = 0 \<and> rn_err s = None"
| "phase_inv Looping s \<longleftrightarrow> rn_ran s \<and> rn_ready s \<and> rn_ua s \<and> rn_udp s \<and> rn_tcp s \<and> results_ok s \<and> rn_err s = None"
| "phase_inv Closing s \<longleftrightarrow> rn_ran s \<and> rn_ready s \<and> rn_ua s \<and> rn_udp s \<and> rn_tcp s \<and> results_ok s \<and> (rn_err s = None \<longrightarrow> rn_ctx s \<noteq> None)"
| "phase_inv Collecting s \<longleftrightarrow> rn_ran s \<and> rn_ready s \<and> rn_ua s \<and> \<not> rn_udp s \<and> \<not> rn_tcp s \<and> results_ok s \<and> (rn_err s = None \<longrightarrow> rn_ctx s \<noteq> None)"
| "phase_inv Draining s \<longleftrightarrow> rn_ran s \<and> rn_ready s \<and> rn_ua s \<and> \<not> rn_udp s \<and> \<not> rn_tcp s \<and> serving s = 0 \<and> eg_stopping (rn_engine s) \<and>
     (rn_err s = None \<longrightarrow> rn_ctx s \<noteq> None)"
| "phase_inv (Ended r) s \<longleftrightarrow> rn_ran s \<and> \<not> rn_ua s \<and> \<not> rn_udp s \<and> \<not> rn_tcp s \<and> serving s = 0 \<and>
     (rn_ready s \<longrightarrow> Wait_returns (rn_engine s)) \<and> (r = None \<longrightarrow> rn_ctx s \<noteq> None)"

definition app_inv :: "b2b_config \<Rightarrow> 's run_state \<Rightarrow> bool" where
  "app_inv cfg s \<longleftrightarrow> engine_inv cfg (rn_tasks s, rn_engine s) \<and> phase_inv (rn_phase s) s"

lemma errors_Join_nil: "errors_Join es = None \<longleftrightarrow> set es \<subseteq> {None}"
  by (induction es) (auto simp: errors_Join_def map_filter_simps split: list.splits option.splits)

lemma Run_step_inv:
  assumes "Run_step env st arm s = Some s'" and "phase_inv (rn_phase s) s"
  shows "phase_inv (rn_phase s') s' \<and> rn_tasks s' = rn_tasks s \<and> (rn_engine s' = rn_engine s \<or> rn_engine s' = Wait_stop (rn_engine s))"
proof (cases "rn_phase s")
  case Looping
  then show ?thesis
    using assms by (cases arm) (auto simp: Run_step_def results_ok_def serving_def errors_Join_nil chan_recv_Some Let_def
        split: if_splits option.splits prod.splits sum.splits)
qed (use assms in \<open>auto simp: Run_step_def Run_listen_def Run_return_def Run_close_def Run_collect_def Run_drain_def Wait_stop_def
    results_ok_def serving_def errors_Join_nil chan_recv_Some split: if_splits option.splits sum.splits bool.splits\<close>)

lemma phase_inv_frame:
  "phase_inv ph (s\<lparr>rn_store := x\<rparr>) = phase_inv ph s"
  "phase_inv ph (s\<lparr>rn_tasks := ts\<rparr>) = phase_inv ph s"
  "rn_ctx s = None \<Longrightarrow> phase_inv ph s \<Longrightarrow> phase_inv ph (s\<lparr>rn_ctx := Some e\<rparr>)"
  by (cases ph; simp add: serving_def results_ok_def)+

lemma served_inv:
  assumes "serve_udp_returns err s = Some s' \<or> serve_tcp_returns err s = Some s'" and "phase_inv (rn_phase s) s"
  shows "phase_inv (rn_phase s') s' \<and> rn_tasks s' = rn_tasks s \<and> rn_engine s' = rn_engine s \<and> rn_phase s' = rn_phase s"
  using assms
  by (cases "rn_phase s")
    (auto simp: serve_udp_returns_def serve_tcp_returns_def serving_def results_ok_def chan_send_Some split: if_splits)

lemma handler_inv:
  assumes "engine_step cfg st dialogs (rn_tasks s, rn_engine s) (ts, e)" and "eg_stopping e = eg_stopping (rn_engine s)"
    and "engine_inv cfg (rn_tasks s, rn_engine s)" and "phase_inv ph s"
  shows "phase_inv ph (s\<lparr>rn_tasks := ts, rn_engine := e\<rparr>)"
  using assms(2,4) drained_step [OF assms(1,3)]
  by (cases ph) (auto simp: serving_def results_ok_def)

lemma app_step_inv:
  assumes "app_step env cfg st dialogs s s'" and "app_inv cfg s"
  shows "app_inv cfg s'"
  using assms(1)
proof cases
  case (app_begin r)
  then show ?thesis using assms(2)
    by (cases "rn_phase s") (auto simp: Run_begin_def app_inv_def serving_def split: if_splits)
next
  case (app_own arm)
  have "engine_step cfg st dialogs (rn_tasks s, rn_engine s) (rn_tasks s, Wait_stop (rn_engine s))" by (rule stop)
  then have "engine_inv cfg (rn_tasks s, Wait_stop (rn_engine s))"
    using engine_inv_step assms(2) unfolding app_inv_def by blast
  then show ?thesis using Run_step_inv [OF app_own] assms(2) by (auto simp: app_inv_def)
next
  case (app_cancel e)
  then show ?thesis using assms(2) phase_inv_frame(3) [OF app_cancel(2)] by (simp add: app_inv_def)
next
  case (app_handler ts e)
  then show ?thesis using assms(2) handler_inv engine_inv_step by (fastforce simp: app_inv_def)
next
  case (app_stored x)
  then show ?thesis using assms(2) by (simp add: app_inv_def phase_inv_frame)
qed (use served_inv assms(2) in \<open>fastforce simp: app_inv_def\<close>)+

lemma stopped_app_inv:
  assumes "NewEngine cfg registrations publisher clock client mediaFactory logger = Inr e0"
  shows "app_inv cfg (stopped_app e0 x)"
  using NewEngine_inv [OF assms] by (simp add: app_inv_def stopped_app_def serving_def)

lemma app_reached:
  assumes "(app_step env cfg st dialogs)\<^sup>*\<^sup>* s s'" and "app_inv cfg s"
  shows "app_inv cfg s'"
  using assms by induction (auto intro: app_step_inv)

text \<open>Once \<open>Run\<close> has returned it stays so, whatever the others do.\<close>

lemma ended_step:
  assumes "app_step env cfg st dialogs s s'" and "rn_phase s = Ended r" and "app_inv cfg s"
  shows "rn_phase s' = Ended r"
  using assms(1)
  by cases (use assms(2,3) in \<open>auto simp: Run_begin_def Run_step_def app_inv_def serve_udp_returns_def serve_tcp_returns_def split: if_splits\<close>)

lemma ended_reached:
  assumes "(app_step env cfg st dialogs)\<^sup>*\<^sup>* s s'" and "rn_phase s = Ended r" and "app_inv cfg s"
  shows "rn_phase s' = Ended r"
proof -
  have "rn_phase s' = Ended r \<and> app_inv cfg s'"
    using assms by induction (auto intro: ended_step app_step_inv)
  then show ?thesis ..
qed

subsection \<open>Shutdown\<close>

text \<open>
  The steps that bring a shutdown forward: those of the goroutine of \<open>Run\<close> other than a sweep, the return of
  a server whose socket is closed, and a handler whose session ends.
\<close>

inductive shutdown_step ::
  "run_env \<Rightarrow> b2b_config \<Rightarrow> 's registration_store \<Rightarrow> (nat \<Rightarrow> string result) \<Rightarrow> 's run_state \<Rightarrow> 's run_state \<Rightarrow> bool"
  for env cfg st dialogs where
  shut_own: "Run_step env st arm s = Some s' \<Longrightarrow> arm = AppDone \<or> arm = AppServe \<Longrightarrow> shutdown_step env cfg st dialogs s s'"
| shut_udp: "\<not> rn_udp s \<Longrightarrow> serve_udp_returns err s = Some s' \<Longrightarrow> shutdown_step env cfg st dialogs s s'"
| shut_tcp: "\<not> rn_tcp s \<Longrightarrow> serve_tcp_returns err s = Some s' \<Longrightarrow> shutdown_step env cfg st dialogs s s'"
| shut_handler: "i < length (rn_tasks s) \<Longrightarrow>
    invite_step cfg st dialogs i RunEnd (rn_tasks s ! i) (rn_engine s) = Some (t, e) \<Longrightarrow>
    shutdown_step env cfg st dialogs s (s\<lparr>rn_tasks := (rn_tasks s)[i := t], rn_engine := e\<rparr>)"

fun phase_rank :: "run_phase \<Rightarrow> nat" where
  "phase_rank Idle = 0"
| "phase_rank Starting = 9"
| "phase_rank Looping = 4"
| "phase_rank Closing = 3"
| "phase_rank Collecting = 2"
| "phase_rank Draining = 1"
| "phase_rank (Ended r) = 0"

text \<open>What is left to do: stages of \<open>Run\<close>, results to receive, servers to return, and steps of handlers.\<close>

definition own_work :: "'s run_state \<Rightarrow> nat" where
  "own_work s = phase_rank (rn_phase s) + (if rn_phase s \<in> {Looping, Closing, Collecting} then 2 - rn_received s else 0) + serving s"

definition work :: "'s run_state \<Rightarrow> nat" where
  "work s = own_work s + sum_list (map steps_left (rn_tasks s))"

lemma invite_RunEnd_decreases:
  "invite_step cfg st dialogs i RunEnd t e = Some (t', e') \<Longrightarrow> steps_left t' < steps_left t \<and> eg_stopping e' = eg_stopping e"
  by (cases t) (auto simp: engine_ops split: invite_verdict.splits if_splits)

lemma sum_steps_update:
  "i < length ts \<Longrightarrow> steps_left t < steps_left (ts ! i) \<Longrightarrow> sum_list (map steps_left (ts[i := t])) < sum_list (map steps_left ts)"
  by (induction ts arbitrary: i) (auto simp: nth_Cons split: nat.splits)

lemma Run_turn_work:
  assumes "Run_turn st arm s = Some s'" and "arm = AppDone \<or> arm = AppServe" and "rn_phase s = Looping" and "results_ok s"
  shows "own_work s' < own_work s"
  using assms(2)
proof
  assume "arm = AppDone"
  then show ?thesis using assms(1,3) by (auto simp: own_work_def serving_def split: if_splits)
next
  assume arm: "arm = AppServe"
  then have "rn_received s < 2" using assms(1,4) by (auto simp: results_ok_def chan_recv_def split: list.splits)
  moreover have "rn_phase s' = Closing" "rn_received s' = rn_received s + 1" "serving s' = serving s"
    using assms(1) arm by (auto simp: serving_def Let_def split: option.splits)
  ultimately show ?thesis using assms(3) by (simp add: own_work_def)
qed

lemma Run_step_work:
  assumes "Run_step env st arm s = Some s'" and "arm = AppDone \<or> arm = AppServe" and "phase_inv (rn_phase s) s"
  shows "own_work s' < own_work s"
proof (cases "rn_phase s")
  case Looping
  have "Run_turn st arm s = Some s'" using assms(1) Looping by (simp add: Run_step_def)
  moreover have "results_ok s" using assms(3) Looping by simp
  ultimately show ?thesis by (rule Run_turn_work [OF _ assms(2) Looping])
next
  case Starting
  have "serving s = 0" using assms(3) Starting by simp
  moreover have "s' = Run_listen env s" using assms(1) Starting by (simp add: Run_step_def)
  ultimately show ?thesis
    using Starting by (auto simp: Run_listen_def Run_return_def own_work_def serving_def split: sum.split bool.split)
next
  case Closing
  then show ?thesis using assms(1) by (auto simp: Run_step_def Run_close_def own_work_def serving_def)
next
  case Collecting
  then have "rn_phase s' = Collecting \<and> rn_received s < 2 \<and> rn_received s' = rn_received s + 1 \<and> serving s' = serving s \<or>
      rn_phase s' = Draining \<and> serving s' = serving s"
    using assms(1) by (auto simp: Run_step_def Run_collect_def serving_def split: if_splits option.splits)
  then show ?thesis using Collecting by (auto simp: own_work_def)
next
  case Draining
  then show ?thesis
    using assms(1) by (auto simp: Run_step_def Run_drain_def Run_return_def own_work_def serving_def split: if_splits)
qed (use assms(1) in \<open>simp_all add: Run_step_def\<close>)

lemma served_work:
  assumes "serve_udp_returns err s = Some s' \<or> serve_tcp_returns err s = Some s'"
  shows "own_work s' < own_work s \<and> rn_tasks s' = rn_tasks s"
proof -
  have "rn_phase s' = rn_phase s" "rn_received s' = rn_received s" "serving s' < serving s" "rn_tasks s' = rn_tasks s"
    using assms by (auto simp: serve_udp_returns_def serve_tcp_returns_def serving_def split: if_splits)
  then show ?thesis by (simp add: own_work_def)
qed

lemma shutdown_app_step: "shutdown_step env cfg st dialogs s s' \<Longrightarrow> app_step env cfg st dialogs s s'"
proof (induction rule: shutdown_step.induct)
  case (shut_handler i s t e)
  then show ?case using invite_RunEnd_decreases by (blast intro: app_handler proceed)
qed (auto intro: app_step.intros)

lemma shutdown_work:
  assumes "shutdown_step env cfg st dialogs s s'" and "app_inv cfg s"
  shows "work s' < work s"
  using assms(1)
proof cases
  case (shut_own arm)
  have inv: "phase_inv (rn_phase s) s" using assms(2) by (simp add: app_inv_def)
  show ?thesis
    using Run_step_work [OF shut_own(1,2) inv] Run_step_inv [OF shut_own(1) inv] by (simp add: work_def)
next
  case (shut_handler i t e)
  have "sum_list (map steps_left ((rn_tasks s)[i := t])) < sum_list (map steps_left (rn_tasks s))"
    by (rule sum_steps_update [OF shut_handler(2)]) (use invite_RunEnd_decreases [OF shut_handler(3)] in simp)
  then show ?thesis unfolding shut_handler(1) by (simp add: work_def own_work_def serving_def)
next
  case (shut_udp err)
  then show ?thesis using served_work [of err s s'] by (simp add: work_def)
next
  case (shut_tcp err)
  then show ?thesis using served_work [of err s s'] by (simp add: work_def)
qed

text \<open>Between the call of \<open>Run\<close> and its return, a cancelled context always leaves a step to do.\<close>

lemma collecting_step:
  assumes "rn_phase s = Collecting" and "phase_inv Collecting s"
  shows "\<exists>s'. shutdown_step env cfg st dialogs s s'"
proof -
  have inv: "\<not> rn_udp s" "\<not> rn_tcp s" "results_ok s" using assms(2) by simp_all
  consider "Run_collect s \<noteq> None" | "rn_serveUDP s" "ch_buf (rn_serveErrors s) = []" | "rn_serveTCP s" "ch_buf (rn_serveErrors s) = []"
    using inv(3) by (cases "ch_buf (rn_serveErrors s)")
      (auto simp: Run_collect_def chan_recv_def results_ok_def serving_def split: if_splits)
  then show ?thesis
  proof cases
    case 1
    then have "\<exists>s'. Run_step env st AppDone s = Some s'" using assms(1) by (auto simp: Run_step_def)
    then show ?thesis by (auto intro: shut_own)
  next
    case 2
    then have "serve_udp_returns None s \<noteq> None" using inv(3) by (simp add: serve_udp_returns_def chan_send_def results_ok_def)
    then show ?thesis using inv(1) by (auto intro: shut_udp)
  next
    case 3
    then have "serve_tcp_returns None s \<noteq> None" using inv(3) by (simp add: serve_tcp_returns_def chan_send_def results_ok_def)
    then show ?thesis using inv(2) by (auto intro: shut_tcp)
  qed
qed

lemma draining_step:
  assumes "rn_phase s = Draining" and "app_inv cfg s"
  shows "\<exists>s'. shutdown_step env cfg st dialogs s s'"
proof (cases "Wait_returns (rn_engine s)")
  case True
  then have "\<exists>s'. Run_step env st AppDone s = Some s'" using assms(1) by (simp add: Run_step_def Run_drain_def)
  then show ?thesis by (auto intro: shut_own)
next
  case False
  have "eg_stopping (rn_engine s)" "eg_wg (rn_engine s) = waits_for (rn_tasks s)"
    using assms by (simp_all add: app_inv_def engine_inv_def)
  with False have "waits_for (rn_tasks s) \<noteq> 0" by (simp add: Wait_returns_def)
  then have "filter counted (rn_tasks s) \<noteq> []" by (auto simp: waits_for_def)
  then obtain i where i: "i < length (rn_tasks s)" "counted (rn_tasks s ! i)"
    by (auto simp: filter_empty_conv in_set_conv_nth)
  then have "steps_left (rn_tasks s ! i) \<noteq> 0" by (cases "rn_tasks s ! i") simp_all
  then show ?thesis using invite_step_progress shut_handler [OF i(1)] by metis
qed

lemma shutdown_progress:
  assumes "app_inv cfg s" and "rn_ctx s \<noteq> None" and "rn_phase s \<noteq> Idle"
  shows "(\<exists>s'. shutdown_step env cfg st dialogs s s') \<or> (\<exists>r. rn_phase s = Ended r)"
proof (cases "rn_phase s")
  case Looping
  then have "\<exists>s'. Run_step env st AppDone s = Some s'" using assms(2) by (simp add: Run_step_def)
  then show ?thesis by (auto intro: shut_own)
next
  case Collecting
  then have "phase_inv Collecting s" using assms(1) unfolding app_inv_def by metis
  then show ?thesis using collecting_step [OF Collecting] by blast
next
  case Draining
  then show ?thesis using draining_step assms(1) by blast
next
  case Starting
  then have "\<exists>s'. Run_step env st AppDone s = Some s'" by (simp add: Run_step_def)
  then show ?thesis by (auto intro: shut_own)
next
  case Closing
  then have "\<exists>s'. Run_step env st AppDone s = Some s'" by (simp add: Run_step_def)
  then show ?thesis by (auto intro: shut_own)
qed (use assms(3) in simp_all)

lemma shutdown_keeps:
  assumes "shutdown_step env cfg st dialogs s s'" and "rn_ctx s \<noteq> None" and "rn_phase s \<noteq> Idle"
  shows "rn_ctx s' \<noteq> None \<and> rn_phase s' \<noteq> Idle"
  using assms(1)
proof cases
  case (shut_own arm)
  then show ?thesis using assms(2,3)
    by (cases "rn_phase s")
      (auto simp: Run_step_def Run_listen_def Run_return_def Run_close_def Run_collect_def Run_drain_def Let_def
        split: if_splits option.splits sum.splits bool.splits)
qed (use assms(2,3) in \<open>auto simp: serve_udp_returns_def serve_tcp_returns_def split: if_splits\<close>)

lemma shutdown_run:
  assumes "(shutdown_step env cfg st dialogs ^^ n) s s'" and "app_inv cfg s" and "rn_ctx s \<noteq> None" and "rn_phase s \<noteq> Idle"
  shows "n + work s' \<le> work s \<and> app_inv cfg s' \<and> rn_ctx s' \<noteq> None \<and> rn_phase s' \<noteq> Idle"
  using assms(1)
proof (induction n arbitrary: s')
  case 0
  then show ?case using assms(2-4) by simp
next
  case (Suc n)
  then obtain s1 where s1: "(shutdown_step env cfg st dialogs ^^ n) s s1" "shutdown_step env cfg st dialogs s1 s'" by auto
  note prev = Suc.IH [OF s1(1)]
  show ?case
    using prev shutdown_work [OF s1(2)] app_step_inv [OF shutdown_app_step [OF s1(2)]] shutdown_keeps [OF s1(2)] by auto
qed

subsection \<open>Properties\<close>

text \<open>C12: \<open>Run\<close> terminates. In every reachable state in which \<open>Run\<close> has been called and its context is cancelled,
  whatever the servers, handlers and registrations did before, the steps that bring the shutdown forward
  (its own, the return of a server whose socket it has closed, the end of a session) end after at most
  \<open>work\<close> of them, and the only states in which none is left are those in which \<open>Run\<close> has returned: it
  is never blocked by the order in which servers and calls end, nor by a full result channel.\<close>

theorem Run_terminates:
  assumes "NewEngine cfg registrations publisher clock client mediaFactory logger = Inr e0"
    and "(app_step env cfg st dialogs)\<^sup>*\<^sup>* (stopped_app e0 x) s" and "rn_phase s \<noteq> Idle" and "rn_ctx s \<noteq> None"
    and "(shutdown_step env cfg st dialogs ^^ n) s s'"
  shows "n \<le> work s \<and> ((\<exists>s''. shutdown_step env cfg st dialogs s' s'') \<or> (\<exists>r. rn_phase s' = Ended r))"
  using shutdown_run [OF assms(5) app_reached [OF assms(2) stopped_app_inv [OF assms(1)]] assms(4,3)] shutdown_progress by fastforce


text \<open>A service that starts, is cancelled, and shuts down in eight steps.\<close>

definition demo_env :: run_env where
  "demo_env = \<lparr>ln_ListenPacket = Inr True, ln_Listen = Inr (), ln_CloseUDP = None, ln_CloseTCP = None, ln_CloseUA = None\<rparr>"

definition demo_running :: "memory run_state" where
  "demo_running = (stopped_app desk_engine sample_memory)
     \<lparr>rn_ran := True, rn_phase := Looping, rn_ready := True, rn_udp := True, rn_tcp := True, rn_serveUDP := True,
      rn_serveTCP := True, rn_ctx := Some context_Canceled\<rparr>"

definition demo_ended :: "memory run_state" where
  "demo_ended = demo_running
     \<lparr>rn_udp := False, rn_tcp := False, rn_serveUDP := False, rn_serveTCP := False, rn_received := 2, rn_ua := False,
      rn_engine := Wait_stop desk_engine, rn_phase := Ended None\<rparr>"

abbreviation demo_step :: "memory run_state \<Rightarrow> memory run_state \<Rightarrow> bool" where
  "demo_step \<equiv> app_step demo_env desk_cfg (memory_store sample_picks) desk_dialogs"

abbreviation demo_shut :: "memory run_state \<Rightarrow> memory run_state \<Rightarrow> bool" where
  "demo_shut \<equiv> shutdown_step demo_env desk_cfg (memory_store sample_picks) desk_dialogs"

lemma demo_reach: "demo_step\<^sup>*\<^sup>* (stopped_app desk_engine sample_memory) demo_running"
proof -
  let ?s0 = "stopped_app desk_engine sample_memory"
  let ?s1 = "?s0\<lparr>rn_ran := True, rn_phase := Starting\<rparr>"
  let ?s2 = "Run_listen demo_env ?s1"
  have "demo_step\<^sup>*\<^sup>* ?s0 ?s1"
    by (rule r_into_rtranclp, rule app_begin [where r = None]) (simp add: Run_begin_def stopped_app_def)
  also have "demo_step ?s1 ?s2" by (rule app_own [where arm = AppDone]) (simp add: Run_step_def)
  also have "demo_step ?s2 (?s2\<lparr>rn_ctx := Some context_Canceled\<rparr>)"
    by (rule app_cancel) (simp add: Run_listen_def demo_env_def stopped_app_def)
  also have "?s2\<lparr>rn_ctx := Some context_Canceled\<rparr> = demo_running"
    by (simp add: Run_listen_def demo_env_def stopped_app_def demo_running_def chan_make_def)
  finally show ?thesis .
qed

lemma demo_shutdown: "(demo_shut ^^ 8) demo_running demo_ended"
proof -
  note eval = Run_step_def Run_close_def Run_collect_def Run_drain_def Run_return_def serve_udp_returns_def serve_tcp_returns_def
    demo_running_def demo_env_def stopped_app_def normalizeServeError_def chan_send_def chan_recv_def chan_make_def
    desk_engine_def Wait_stop_def Wait_returns_def
  let ?s1 = "demo_running\<lparr>rn_phase := Closing\<rparr>"
  let ?s2 = "?s1\<lparr>rn_phase := Collecting, rn_udp := False, rn_tcp := False\<rparr>"
  let ?s3 = "?s2\<lparr>rn_serveErrors := \<lparr>ch_cap = 2, ch_buf = [Some net_ErrClosed]\<rparr>, rn_serveUDP := False\<rparr>"
  let ?s4 = "?s3\<lparr>rn_serveErrors := \<lparr>ch_cap = 2, ch_buf = [Some net_ErrClosed, Some net_ErrClosed]\<rparr>, rn_serveTCP := False\<rparr>"
  let ?s5 = "?s4\<lparr>rn_serveErrors := \<lparr>ch_cap = 2, ch_buf = [Some net_ErrClosed]\<rparr>, rn_received := 1\<rparr>"
  let ?s6 = "?s5\<lparr>rn_serveErrors := \<lparr>ch_cap = 2, ch_buf = []\<rparr>, rn_received := 2\<rparr>"
  let ?s7 = "?s6\<lparr>rn_engine := Wait_stop desk_engine, rn_phase := Draining\<rparr>"
  have own: "demo_shut s s'" if "Run_step demo_env (memory_store sample_picks) AppDone s = Some s'" for s s'
    using that by (blast intro: shut_own)
  have 1: "demo_shut demo_running ?s1" by (rule own) (simp add: eval)
  have 2: "demo_shut ?s1 ?s2" by (rule own) (simp add: eval errors_Join_def map_filter_simps)
  have 3: "demo_shut ?s2 ?s3" by (rule shut_udp [where err = "Some net_ErrClosed"]) (simp_all add: eval)
  have 4: "demo_shut ?s3 ?s4" by (rule shut_tcp [where err = "Some net_ErrClosed"]) (simp_all add: eval)
  have 5: "demo_shut ?s4 ?s5" by (rule own) (simp add: eval net_ErrClosed_def)
  have 6: "demo_shut ?s5 ?s6" by (rule own) (simp add: eval net_ErrClosed_def numeral_2_eq_2)
  have 7: "demo_shut ?s6 ?s7" by (rule own) (simp add: eval)
  have 8: "demo_shut ?s7 demo_ended" by (rule own) (simp add: eval demo_ended_def)
  have start: "(demo_shut ^^ 0) demo_running demo_running" by simp
  have more_steps: "(demo_shut ^^ Suc n) demo_running s'" if "(demo_shut ^^ n) demo_running s" "demo_shut s s'" for n s s'
    using that by (rule relpowp_Suc_I)
  have "(demo_shut ^^ Suc (Suc (Suc (Suc (Suc (Suc (Suc (Suc 0)))))))) demo_running demo_ended"
    by (rule more_steps [OF more_steps [OF more_steps [OF more_steps [OF more_steps [OF more_steps [OF more_steps
          [OF more_steps [OF start 1] 2] 3] 4] 5] 6] 7] 8])
  moreover have "Suc (Suc (Suc (Suc (Suc (Suc (Suc (Suc 0))))))) = 8" by simp
  ultimately show ?thesis by metis
qed

theorem Run_terminates_witness:
  "(demo_shut ^^ 8) demo_running demo_ended \<and> 8 \<le> work demo_running \<and>
   ((\<exists>s. demo_shut demo_ended s) \<or> (\<exists>r. rn_phase demo_ended = Ended r))"
proof -
  have "rn_phase demo_running \<noteq> Idle" "rn_ctx demo_running \<noteq> None" by (simp_all add: demo_running_def)
  from Run_terminates [OF desk_New demo_reach this demo_shutdown] demo_shutdown show ?thesis by simp
qed

lemma demo_end_reach: "demo_step\<^sup>*\<^sup>* (stopped_app desk_engine sample_memory) demo_ended"
proof -
  have "demo_step\<^sup>*\<^sup>* demo_running s" if "(demo_shut ^^ n) demo_running s" for n s
    using that
  proof (induction n arbitrary: s)
    case (Suc n)
    then show ?case using shutdown_app_step by (fastforce intro: rtranclp.rtrancl_into_rtrancl)
  qed simp
  with demo_shutdown demo_reach show ?thesis by (meson rtranclp_trans)
qed


end
