(* ===== verification/Spikes.thy ===== *)
theory Spikes
  imports App_Run
begin

text \<open>
  The experiments below \<open>spikes/\<close>: an RTP echo on diago, a SIP listener on sipgo and a browser echo on
  pion. The libraries are parameters: what their calls returned.
\<close>

subsection \<open>The RTP echo\<close>

text \<open>\<open>spikes/diago/echo.go\<close>. A nil \<open>BindIP\<close> is \<open>None\<close>.\<close>

record echo_config =
  ec_BindIP :: "byte list option"
  ec_Port :: int
  ec_IdleTimeout :: duration

definition ErrIdleTimeout :: go_error where
  "ErrIdleTimeout = Sentinel ''rtp idle timeout''"

definition NewEcho :: "echo_config \<Rightarrow> echo_config result" where
  "NewEcho cfg =
     (if ec_BindIP cfg = None then Inl (Errorf ''bind IP is required'')
      else if ec_Port cfg < 0 \<or> 65534 < ec_Port cfg then Inl (Errorf ''port must be between 0 and 65534'')
      else if ec_IdleTimeout cfg \<le> 0 then Inl (Errorf ''idle timeout must be positive'')
      else Inr cfg)"

text \<open>
  What one turn of the loop meets: the result of \<open>StopRTP\<close>, then an error of \<open>ReadRTP\<close> (whether it is a
  timeout, \<open>ctx.Err()\<close>, and the clock), or a packet with its source (\<open>None\<close> if not UDP), the result of
  \<open>WriteRTP\<close>, and the clock.
\<close>

datatype ('k, 'a) echo_turn =
    NoDeadline go_error
  | ReadFails go_error bool "go_error option" time
  | Arrives "8 word" 'k "'a option" "go_error option" time

text \<open>The packets sent back, each with its destination, and the result when the loop has ended; \<open>codecs\<close> are the
  payload types of diago's two G.711 codecs.\<close>

fun echo_loop ::
  "8 word list \<Rightarrow> echo_config \<Rightarrow> ('k, 'a) echo_turn list \<Rightarrow> time \<Rightarrow> ('k \<times> 'a) list \<Rightarrow> ('k \<times> 'a) list \<times> go_error option option" where
  "echo_loop codecs cfg [] lastPacketAt sent = (sent, None)"
| "echo_loop codecs cfg (NoDeadline e # ts) lastPacketAt sent = (sent, Some (Some (Wrapf ''set RTP read deadline: %w'' e)))"
| "echo_loop codecs cfg (ReadFails e timeout ctxErr now # ts) lastPacketAt sent =
     (if errors_Is e net_ErrClosed \<and> ctxErr \<noteq> None then (sent, Some None)
      else if timeout
      then if ctxErr \<noteq> None then (sent, Some None)
           else if ec_IdleTimeout cfg \<le> now - lastPacketAt then (sent, Some (Some ErrIdleTimeout))
           else echo_loop codecs cfg ts lastPacketAt sent
      else (sent, Some (Some (Wrapf ''read RTP: %w'' e))))"
| "echo_loop codecs cfg (Arrives payloadType packet source writeErr now # ts) lastPacketAt sent =
     (if payloadType \<notin> set codecs then (sent, Some (Some (Errorf ''unsupported RTP payload type %d'')))
      else case source of
        None \<Rightarrow> (sent, Some (Some (Errorf ''rtp source is not UDP'')))
      | Some remoteAddr \<Rightarrow>
          (case writeErr of
             Some e \<Rightarrow> (sent, Some (Some (Wrapf ''echo RTP: %w'' e)))
           | None \<Rightarrow> echo_loop codecs cfg ts now (sent @ [(packet, remoteAddr)])))"

text \<open>\<open>Run\<close>: \<open>session\<close> is the result of \<open>NewMediaSession\<close>, \<open>closeErr\<close> that of its \<open>Close\<close>.\<close>

definition echo_Run ::
  "8 word list \<Rightarrow> echo_config \<Rightarrow> unit result \<Rightarrow> go_error option \<Rightarrow> time \<Rightarrow> ('k, 'a) echo_turn list \<Rightarrow> ('k \<times> 'a) list \<times> go_error option option" where
  "echo_Run codecs cfg session closeErr now ts =
     (case session of
        Inl e \<Rightarrow> ([], Some (Some (Wrapf ''create Diago media session: %w'' e)))
      | Inr _ \<Rightarrow>
          (case echo_loop codecs cfg ts now [] of
             (sent, None) \<Rightarrow> (sent, None)
           | (sent, Some err) \<Rightarrow> (sent, Some (errors_Join [err, closeErr]))))"

fun arrived :: "8 word list \<Rightarrow> ('k, 'a) echo_turn \<Rightarrow> ('k \<times> 'a) option" where
  "arrived codecs (Arrives pt packet (Some source) w now) = (if pt \<in> set codecs then Some (packet, source) else None)"
| "arrived codecs _ = None"

text \<open>What is sent back is, in order, a prefix of the G.711 packets that came from UDP, each to where it came from.\<close>

lemma echo_prefix:
  "\<exists>k. fst (echo_loop codecs cfg ts lastPacketAt sent) = sent @ take k (List.map_filter (arrived codecs) ts)"
proof (induction codecs cfg ts lastPacketAt sent rule: echo_loop.induct)
  case (4 codecs cfg payloadType packet source writeErr now ts lastPacketAt sent)
  show ?case
  proof (cases "payloadType \<notin> set codecs \<or> source = None \<or> writeErr \<noteq> None")
    case True
    then show ?thesis by (intro exI [of _ 0]) (auto split: option.splits)
  next
    case False
    then obtain a where a: "source = Some a" "writeErr = None" "payloadType \<in> set codecs" by auto
    with 4 obtain k where "fst (echo_loop codecs cfg ts now (sent @ [(packet, a)])) = (sent @ [(packet, a)]) @ take k (List.map_filter (arrived codecs) ts)"
      by auto
    then show ?thesis using a by (intro exI [of _ "Suc k"]) (auto simp: map_filter_simps)
  qed
next
  case (3 codecs cfg e timeout ctxErr now ts lastPacketAt sent)
  have stop: "\<exists>k. sent = sent @ take k (List.map_filter (arrived codecs) (ReadFails e timeout ctxErr now # ts))"
    by (intro exI [of _ 0]) simp
  show ?case using 3 stop by (auto simp: map_filter_simps)
qed (auto intro: exI [of _ 0])

text \<open>An idle timeout is reported only after that long without a packet echoed.\<close>

lemma echo_idle:
  "echo_loop codecs cfg ts lastPacketAt sent = (sent', Some (Some ErrIdleTimeout)) \<Longrightarrow>
     \<exists>e now t. ReadFails e True None now \<in> set ts \<and> ec_IdleTimeout cfg \<le> now - t \<and>
       (t = lastPacketAt \<or> (\<exists>pt k a. Arrives pt k (Some a) None t \<in> set ts))"
proof (induction codecs cfg ts lastPacketAt sent rule: echo_loop.induct)
  case (3 codecs cfg e timeout ctxErr now ts lastPacketAt sent)
  then show ?case by (fastforce simp: ErrIdleTimeout_def split: if_splits)
next
  case (4 codecs cfg payloadType packet source writeErr now ts lastPacketAt sent)
  then show ?case by (fastforce simp: ErrIdleTimeout_def split: if_splits option.splits)
qed (auto simp: ErrIdleTimeout_def)

subsection \<open>The SIP listener\<close>

text \<open>\<open>spikes/sipgo/server.go\<close>.\<close>

record listener_config =
  li_UDPAddr :: string
  li_TCPAddr :: string

definition listenerCount :: nat where "listenerCount = 2"

definition spike_NewServer :: "listener_config \<Rightarrow> listener_config result" where
  "spike_NewServer cfg =
     (if li_UDPAddr cfg = '''' then Inl (Errorf ''udp address is required'')
      else if li_TCPAddr cfg = '''' then Inl (Errorf ''tcp address is required'')
      else Inr cfg)"

definition spike_normalizeServeError :: "go_error option \<Rightarrow> go_error option" where
  "spike_normalizeServeError err = (if error_is err net_ErrClosed \<or> error_is err context_Canceled then None else err)"

definition respondOK :: "sip_request \<Rightarrow> sip_response" where
  "respondOK request = NewResponse StatusOK ''OK'' []"

record spike_env =
  sk_NewUA :: "unit result"
  sk_NewServer :: "unit result"
  sk_net :: run_env

text \<open>The loop over the results that are still missing; \<open>None\<close> while one does not come.\<close>

fun spike_collect :: "nat \<Rightarrow> go_error option list \<Rightarrow> go_error option \<Rightarrow> go_error option option" where
  "spike_collect 0 rs runErr = Some runErr"
| "spike_collect (Suc n) [] runErr = None"
| "spike_collect (Suc n) (r # rs) runErr = spike_collect n rs (errors_Join [runErr, spike_normalizeServeError r])"

text \<open>\<open>first\<close> is the result the \<open>select\<close> received, or \<open>None\<close> for \<open>ctx.Done()\<close>; \<open>rs\<close> are the results after it.\<close>

definition spike_serve :: "spike_env \<Rightarrow> go_error option option \<Rightarrow> go_error option list \<Rightarrow> go_error option option" where
  "spike_serve env first rs =
     (case sk_NewServer env of
        Inl e \<Rightarrow> Some (Some (Wrapf ''create SIP server: %w'' e))
      | Inr _ \<Rightarrow>
     (case ln_ListenPacket (sk_net env) of
        Inl e \<Rightarrow> Some (Some (Wrapf ''listen on SIP UDP address: %w'' e))
      | Inr False \<Rightarrow> Some (Some (Errorf ''sip UDP listener has unexpected type %T''))
      | Inr True \<Rightarrow>
     (case ln_Listen (sk_net env) of
        Inl e \<Rightarrow> Some (Some (Wrapf ''listen on SIP TCP address: %w'' e))
      | Inr _ \<Rightarrow>
          let runErr = (case first of None \<Rightarrow> None | Some serveErr \<Rightarrow> spike_normalizeServeError serveErr);
              receivedErrors = (case first of None \<Rightarrow> 0 | Some _ \<Rightarrow> 1);
              runErr' = errors_Join [runErr, spike_normalizeServeError (ln_CloseUDP (sk_net env)),
                          spike_normalizeServeError (ln_CloseTCP (sk_net env))]
          in case spike_collect (listenerCount - receivedErrors) rs runErr' of
               None \<Rightarrow> None
             | Some None \<Rightarrow> Some None
             | Some (Some e) \<Rightarrow> Some (Some (Wrapf ''serve SIP listeners: %w'' e)))))"

definition spike_Run :: "spike_env \<Rightarrow> go_error option option \<Rightarrow> go_error option list \<Rightarrow> go_error option option" where
  "spike_Run env first rs =
     (case sk_NewUA env of
        Inl e \<Rightarrow> Some (Some (Wrapf ''create SIP user agent: %w'' e))
      | Inr _ \<Rightarrow> map_option (\<lambda>runErr. errors_Join [runErr, ln_CloseUA (sk_net env)]) (spike_serve env first rs))"

lemma spike_collect_returns:
  "n \<le> length rs \<Longrightarrow> \<exists>r. spike_collect n rs err = Some r \<and>
     (r = None \<longleftrightarrow> err = None \<and> list_all (\<lambda>x. spike_normalizeServeError x = None) (take n rs))"
proof (induction n rs err rule: spike_collect.induct)
  case (3 n r rs runErr)
  then show ?case by (auto simp: errors_Join_nil)
qed auto

text \<open>
  Once both servers have returned so does \<open>Run\<close>, and with no error exactly when both results, the two
  closings and that of the user agent are clean; a server that stops with the context alive and without an
  error goes unreported.
\<close>

lemma spike_Run_returns:
  assumes "sk_NewUA env = Inr ()" and "sk_NewServer env = Inr ()" and "ln_ListenPacket (sk_net env) = Inr True"
    and "ln_Listen (sk_net env) = Inr ()" and "length (case first of None \<Rightarrow> rs | Some r \<Rightarrow> r # rs) = 2"
  shows "\<exists>r. spike_Run env first rs = Some r \<and>
    (r = None \<longleftrightarrow> list_all (\<lambda>x. spike_normalizeServeError x = None)
       ((case first of None \<Rightarrow> rs | Some r \<Rightarrow> r # rs) @ [ln_CloseUDP (sk_net env), ln_CloseTCP (sk_net env)]) \<and>
     ln_CloseUA (sk_net env) = None)"
proof -
  let ?n = "listenerCount - (case first of None \<Rightarrow> 0 | Some _ \<Rightarrow> 1)"
  let ?err = "errors_Join [case first of None \<Rightarrow> None | Some serveErr \<Rightarrow> spike_normalizeServeError serveErr,
    spike_normalizeServeError (ln_CloseUDP (sk_net env)), spike_normalizeServeError (ln_CloseTCP (sk_net env))]"
  have "?n \<le> length rs" "take ?n rs = rs" using assms(5) by (auto simp: listenerCount_def split: option.splits)
  then obtain r where r: "spike_collect ?n rs ?err = Some r"
    "r = None \<longleftrightarrow> ?err = None \<and> list_all (\<lambda>x. spike_normalizeServeError x = None) rs"
    using spike_collect_returns [of ?n rs ?err] by auto
  then show ?thesis
    using assms(1-4)
    by (auto simp: spike_Run_def spike_serve_def Let_def errors_Join_nil split: option.splits)
qed

subsection \<open>The browser echo\<close>

text \<open>
  \<open>spikes/pion/service.go\<close>: the bounded set of peer connections. A peer is named by its number; \<open>once\<close>
  is the state of its \<open>closeOnce\<close>. The timer of a peer, the callbacks of its connection, the handler
  that made it and \<open>Close\<close> may all close it. The errors of closing are not modelled.
\<close>

record pion_config =
  pi_MaxPeers :: int
  pi_SessionTimeout :: duration

datatype once = Fresh | Closing_peer | Closed_peer

record peer_state =
  pe_once :: once
  pe_open :: bool
  pe_reader :: bool

text \<open>Where a call of \<open>Close\<close> is: not called, with the peers it has found, waiting for the goroutines, returned.\<close>

datatype close_call = NotCalled | ClosingPeers "nat list" | AwaitReaders | CloseReturned

record pion_service =
  pn_closed :: bool
  pn_peers :: "nat list"
  pn_wg :: int
  pn_states :: "peer_state list"
  pn_close :: close_call

definition NewService :: "pion_config \<Rightarrow> pion_service result" where
  "NewService cfg =
     (if pi_MaxPeers cfg \<le> 0 then Inl (Errorf ''max peers must be positive'')
      else if pi_SessionTimeout cfg < Second then Inl (Errorf ''session timeout must be at least one second'')
      else Inr \<lparr>pn_closed = False, pn_peers = [], pn_wg = 0, pn_states = [], pn_close = NotCalled\<rparr>)"

definition errPeerLimit :: go_error where "errPeerLimit = Sentinel ''peer limit reached''"
definition errServiceClosed :: go_error where "errServiceClosed = Sentinel ''service closed''"

text \<open>A goroutine inside \<open>newPeer\<close>: before its first check, with the limit passed, with its peer made, with the
  peer refused by the second check, with the peer stored, and returned.\<close>

datatype peer_task =
    Asking
  | Admitted
  | Made nat
  | Refused nat
  | Stored nat
  | PeerReturned "nat result"

text \<open>\<open>made\<close> is the error of the pion calls in between, if any: the connection is closed again then.\<close>

fun newPeer_step :: "pion_config \<Rightarrow> go_error option \<Rightarrow> peer_task \<Rightarrow> pion_service \<Rightarrow> (peer_task \<times> pion_service) option" where
  "newPeer_step cfg made Asking s =
     (if pn_closed s then Some (PeerReturned (Inl errServiceClosed), s)
      else if pi_MaxPeers cfg \<le> int (length (pn_peers s)) then Some (PeerReturned (Inl errPeerLimit), s)
      else Some (Admitted, s))"
| "newPeer_step cfg made Admitted s =
     (case made of
        Some e \<Rightarrow> Some (PeerReturned (Inl e), s)
      | None \<Rightarrow> Some (Made (length (pn_states s)),
          s\<lparr>pn_states := pn_states s @ [\<lparr>pe_once = Fresh, pe_open = True, pe_reader = False\<rparr>]\<rparr>))"
| "newPeer_step cfg made (Made i) s =
     (if pn_closed s \<or> pi_MaxPeers cfg \<le> int (length (pn_peers s)) then Some (Refused i, s)
      else Some (Stored i, s\<lparr>pn_peers := pn_peers s @ [i]\<rparr>))"
| "newPeer_step cfg made (Refused i) s =
     Some (PeerReturned (Inl (if pn_closed s then errServiceClosed else errPeerLimit)),
           s\<lparr>pn_states := (pn_states s)[i := (pn_states s ! i)\<lparr>pe_open := False\<rparr>]\<rparr>)"
| "newPeer_step cfg made (Stored i) s =
     Some (PeerReturned (Inr i),
           s\<lparr>pn_wg := pn_wg s + 1, pn_states := (pn_states s)[i := (pn_states s ! i)\<lparr>pe_reader := True\<rparr>]\<rparr>)"
| "newPeer_step cfg made (PeerReturned r) s = None"

text \<open>\<open>closePeer\<close>: the first caller removes the peer and then closes its connection; others wait for it.\<close>

definition closePeer_begin :: "nat \<Rightarrow> pion_service \<Rightarrow> pion_service option" where
  "closePeer_begin i s =
     (if i < length (pn_states s) \<and> pe_once (pn_states s ! i) = Fresh
      then Some (s\<lparr>pn_peers := filter (\<lambda>j. j \<noteq> i) (pn_peers s),
                   pn_states := (pn_states s)[i := (pn_states s ! i)\<lparr>pe_once := Closing_peer\<rparr>]\<rparr>)
      else None)"

definition closePeer_end :: "nat \<Rightarrow> pion_service \<Rightarrow> pion_service option" where
  "closePeer_end i s =
     (if i < length (pn_states s) \<and> pe_once (pn_states s ! i) = Closing_peer
      then Some (s\<lparr>pn_states := (pn_states s)[i := (pn_states s ! i)\<lparr>pe_once := Closed_peer, pe_open := False\<rparr>]\<rparr>)
      else None)"

text \<open>The goroutine that reads from a sender ends when the connection is closed.\<close>

definition reader_ends :: "nat \<Rightarrow> pion_service \<Rightarrow> pion_service option" where
  "reader_ends i s =
     (if i < length (pn_states s) \<and> pe_reader (pn_states s ! i) \<and> \<not> pe_open (pn_states s ! i)
      then Some (s\<lparr>pn_wg := pn_wg s - 1, pn_states := (pn_states s)[i := (pn_states s ! i)\<lparr>pe_reader := False\<rparr>]\<rparr>)
      else None)"

fun Close_step :: "pion_service \<Rightarrow> pion_service option" where
  "Close_step s =
     (case pn_close s of
        NotCalled \<Rightarrow> Some (s\<lparr>pn_closed := True, pn_close := ClosingPeers (pn_peers s)\<rparr>)
      | ClosingPeers [] \<Rightarrow> Some (s\<lparr>pn_close := AwaitReaders\<rparr>)
      | ClosingPeers (i # is) \<Rightarrow>
          if pe_once (pn_states s ! i) = Closed_peer then Some (s\<lparr>pn_close := ClosingPeers is\<rparr>) else None
      | AwaitReaders \<Rightarrow> if pn_wg s = 0 then Some (s\<lparr>pn_close := CloseReturned\<rparr>) else None
      | CloseReturned \<Rightarrow> None)"

inductive pion_step :: "pion_config \<Rightarrow> peer_task list \<times> pion_service \<Rightarrow> peer_task list \<times> pion_service \<Rightarrow> bool" for cfg where
  pion_offer: "pion_step cfg (ts, s) (ts @ [Asking], s)"
| pion_proceed: "i < length ts \<Longrightarrow> newPeer_step cfg made (ts ! i) s = Some (t, s') \<Longrightarrow> pion_step cfg (ts, s) (ts[i := t], s')"
| pion_close_begin: "closePeer_begin i s = Some s' \<Longrightarrow> pion_step cfg (ts, s) (ts, s')"
| pion_close_end: "closePeer_end i s = Some s' \<Longrightarrow> pion_step cfg (ts, s) (ts, s')"
| pion_reader: "reader_ends i s = Some s' \<Longrightarrow> pion_step cfg (ts, s) (ts, s')"
| pion_shutdown: "Close_step s = Some s' \<Longrightarrow> pion_step cfg (ts, s) (ts, s')"

text \<open>The limit holds in every interleaving, and a closed service stores no peer.\<close>

lemma pion_limit_step:
  assumes "pion_step cfg s s'" and "int (length (pn_peers (snd s))) \<le> pi_MaxPeers cfg"
  shows "int (length (pn_peers (snd s'))) \<le> pi_MaxPeers cfg \<and>
    (pn_closed (snd s) \<longrightarrow> pn_closed (snd s') \<and> set (pn_peers (snd s')) \<subseteq> set (pn_peers (snd s)))"
  using assms(1)
proof cases
  case (pion_proceed i ts made s1 t s2)
  then show ?thesis using assms(2) by (cases "ts ! i") (auto split: if_splits option.splits)
next
  case (pion_close_begin i s1 s2 ts)
  have "int (length (filter (\<lambda>j. j \<noteq> i) (pn_peers s1))) \<le> pi_MaxPeers cfg"
  proof -
    have "int (length (filter (\<lambda>j. j \<noteq> i) (pn_peers s1))) \<le> int (length (pn_peers s1))"
      unfolding of_nat_le_iff by (rule length_filter_le)
    also have "\<dots> \<le> pi_MaxPeers cfg" using assms(2) pion_close_begin(1) by simp
    finally show ?thesis .
  qed
  then show ?thesis using pion_close_begin by (auto simp: closePeer_begin_def split: if_splits)
next
  case (pion_shutdown s1 s2 ts)
  then show ?thesis using assms(2) by (auto split: close_call.splits list.splits if_splits)
qed (use assms(2) in \<open>auto simp: closePeer_end_def reader_ends_def split: if_splits\<close>)

lemma pion_limit:
  assumes "NewService cfg = Inr s0" and "(pion_step cfg)\<^sup>*\<^sup>* ([], s0) s"
  shows "int (length (pn_peers (snd s))) \<le> pi_MaxPeers cfg"
  using assms(2)
proof induction
  case base
  show ?case using assms(1) by (auto simp: NewService_def split: if_splits)
next
  case (step s s')
  then show ?case using pion_limit_step by blast
qed

text \<open>
  \<open>Close\<close> is documented to wait for the goroutines of the service. It does not: a peer is stored before
  \<open>wg.Add\<close>, so that \<open>Close\<close> may find it, close it and return, and its reader is started afterwards.
\<close>

lemma pion_close_misses_reader:
  "\<exists>ts s. (pion_step \<lparr>pi_MaxPeers = 1, pi_SessionTimeout = Second\<rparr>)\<^sup>*\<^sup>*
       ([], \<lparr>pn_closed = False, pn_peers = [], pn_wg = 0, pn_states = [], pn_close = NotCalled\<rparr>) (ts, s) \<and>
     pn_close s = CloseReturned \<and> pn_wg s = 1 \<and> pe_reader (pn_states s ! 0)"
proof -
  let ?cfg = "\<lparr>pi_MaxPeers = 1, pi_SessionTimeout = Second\<rparr>"
  let ?s0 = "\<lparr>pn_closed = False, pn_peers = [], pn_wg = 0, pn_states = [], pn_close = NotCalled\<rparr>"
  let ?p = "\<lparr>pe_once = Fresh, pe_open = True, pe_reader = False\<rparr>"
  let ?s1 = "?s0\<lparr>pn_states := [?p]\<rparr>"
  let ?s2 = "?s1\<lparr>pn_peers := [0]\<rparr>"
  let ?s3 = "?s2\<lparr>pn_closed := True, pn_close := ClosingPeers [0]\<rparr>"
  let ?s4 = "?s3\<lparr>pn_peers := [], pn_states := [?p\<lparr>pe_once := Closing_peer\<rparr>]\<rparr>"
  let ?s5 = "?s4\<lparr>pn_states := [?p\<lparr>pe_once := Closed_peer, pe_open := False\<rparr>]\<rparr>"
  let ?s6 = "?s5\<lparr>pn_close := ClosingPeers []\<rparr>"
  let ?s7 = "?s6\<lparr>pn_close := AwaitReaders\<rparr>"
  let ?s8 = "?s7\<lparr>pn_close := CloseReturned\<rparr>"
  let ?s9 = "?s8\<lparr>pn_wg := 1, pn_states := [?p\<lparr>pe_once := Closed_peer, pe_open := False, pe_reader := True\<rparr>]\<rparr>"
  have own: "pion_step ?cfg ([t], s) ([t'], s')" if "newPeer_step ?cfg None t s = Some (t', s')" for t s t' s'
    using pion_proceed [of 0 "[t]" ?cfg None s t' s'] that by simp
  have "(pion_step ?cfg)\<^sup>*\<^sup>* ([], ?s0) ([Asking], ?s0)" using pion_offer [of ?cfg "[]"] by (simp add: r_into_rtranclp)
  also have "pion_step ?cfg ([Asking], ?s0) ([Admitted], ?s0)" by (rule own) simp
  also have "pion_step ?cfg ([Admitted], ?s0) ([Made 0], ?s1)" by (rule own) simp
  also have "pion_step ?cfg ([Made 0], ?s1) ([Stored 0], ?s2)" by (rule own) simp
  also have "pion_step ?cfg ([Stored 0], ?s2) ([Stored 0], ?s3)" by (rule pion_shutdown) simp
  also have "pion_step ?cfg ([Stored 0], ?s3) ([Stored 0], ?s4)" by (rule pion_close_begin [of 0]) (simp add: closePeer_begin_def)
  also have "pion_step ?cfg ([Stored 0], ?s4) ([Stored 0], ?s5)" by (rule pion_close_end [of 0]) (simp add: closePeer_end_def)
  also have "pion_step ?cfg ([Stored 0], ?s5) ([Stored 0], ?s6)" by (rule pion_shutdown) simp
  also have "pion_step ?cfg ([Stored 0], ?s6) ([Stored 0], ?s7)" by (rule pion_shutdown) simp
  also have "pion_step ?cfg ([Stored 0], ?s7) ([Stored 0], ?s8)" by (rule pion_shutdown) simp
  also have "pion_step ?cfg ([Stored 0], ?s8) ([PeerReturned (Inr 0)], ?s9)" by (rule own) simp
  finally show ?thesis by (intro exI [of _ "[PeerReturned (Inr 0)]"] exI [of _ ?s9]) simp
qed

text \<open>
  \<open>handleOffer\<close>: what reading the body, the new peer and the calls on its connection gave, and the reply
  with the peer that the deferred function closes.
\<close>

record offer_calls =
  oc_offer :: "(bool \<times> string) option"
  oc_peer :: "nat result"
  oc_SetRemoteDescription :: "go_error option"
  oc_CreateAnswer :: "go_error option"
  oc_SetLocalDescription :: "go_error option"
  oc_gathered :: bool
  oc_Encode :: "go_error option"

datatype offer_reply = ErrorReply int string | AnswerReply | BrokenReply

text \<open>\<open>strings.TrimSpace\<close> on ASCII text, which SDP is.\<close>

definition strings_TrimSpace :: "string \<Rightarrow> string" where
  "strings_TrimSpace s = rev (dropWhile is_space (rev (dropWhile is_space s)))"

definition handleOffer :: "offer_calls \<Rightarrow> offer_reply \<times> nat option" where
  "handleOffer oc =
     (case oc_offer oc of
        None \<Rightarrow> (ErrorReply 400 ''invalid_offer'', None)
      | Some (isOffer, sdp) \<Rightarrow>
          if \<not> isOffer \<or> strings_TrimSpace sdp = '''' then (ErrorReply 400 ''offer_required'', None)
          else case oc_peer oc of
            Inl err \<Rightarrow>
              if errors_Is err errPeerLimit \<or> errors_Is err errServiceClosed
              then (ErrorReply 503 ''peer_capacity_unavailable'', None)
              else (ErrorReply 500 ''peer_creation_failed'', None)
          | Inr peer \<Rightarrow>
              if oc_SetRemoteDescription oc \<noteq> None then (ErrorReply 400 ''remote_description_rejected'', Some peer)
              else if oc_CreateAnswer oc \<noteq> None then (ErrorReply 500 ''answer_creation_failed'', Some peer)
              else if oc_SetLocalDescription oc \<noteq> None then (ErrorReply 500 ''local_description_failed'', Some peer)
              else if \<not> oc_gathered oc then (ErrorReply 408 ''gathering_timeout'', Some peer)
              else if oc_Encode oc \<noteq> None then (BrokenReply, Some peer)
              else (AnswerReply, None))"

text \<open>A peer outlives the request exactly when its answer was written, and capacity errors are told apart.\<close>

lemma handleOffer_peer:
  "handleOffer oc = (reply, gone) \<Longrightarrow> oc_peer oc = Inr i \<Longrightarrow> oc_offer oc = Some (True, sdp) \<Longrightarrow> strings_TrimSpace sdp \<noteq> '''' \<Longrightarrow>
     (gone = None \<longleftrightarrow> reply = AnswerReply) \<and> (gone \<noteq> None \<longrightarrow> gone = Some i)"
  by (auto simp: handleOffer_def split: if_splits)

lemma handleOffer_full:
  assumes "newPeer_step cfg made Asking s = Some (PeerReturned r, s')" and "oc_peer oc = r"
    and "oc_offer oc = Some (True, sdp)" and "strings_TrimSpace sdp \<noteq> ''''"
  shows "handleOffer oc = (ErrorReply 503 ''peer_capacity_unavailable'', None)"
proof -
  have "r = Inl errPeerLimit \<or> r = Inl errServiceClosed" using assms(1) by (auto split: if_splits)
  then show ?thesis using assms(2-4) by (auto simp: handleOffer_def errPeerLimit_def errServiceClosed_def)
qed

end
